(* ===== verification/Prelude.thy ===== *)
theory Prelude
  imports Main "HOL-Library.Word"
begin

text \<open>
  Shared vocabulary of the development.

  The extension is C++: its functions mutate state, throw, and catch. A function
  that does so is modelled as \<open>'s \<Rightarrow> 'a outcome \<times> 's\<close>: it returns, throws, or runs out
  of the fuel given to a loop whose length the server decides (\<open>Stuck\<close>; no handler
  catches it). The state at the moment of a throw is kept, as C++ keeps it.
  \<open>moves R m\<close> says that every run of \<open>m\<close> relates its first to its last state by \<open>R\<close>; the
  locale \<open>state_preorder\<close> proves once, for every reflexive and transitive \<open>R\<close>, that the
  control structures keep such a relation. Then come the parts of the C++ standard
  library that the extension calls: \<open>std::string::find\<close>, \<open>substr\<close>, \<open>std::to_string\<close>,
  \<open>std::stoi\<close>, \<open>std::stoll\<close>.
\<close>

section \<open>Collections of facts\<close>

named_theorems cpp_defs \<open>definitions of the control structures\<close>
named_theorems moves_intros \<open>how the control structures and the operations move the state\<close>

section \<open>Errors and outcomes\<close>

datatype exn =
    IOException string
  | BinderException string
  | InvalidInputException string
  | InternalException string
  | ConversionException string
  | StdInvalidArgument
  | StdOutOfRange

datatype 'a outcome = Ret 'a | Throw exn | Stuck

type_synonym ('s, 'a) cpp = "'s \<Rightarrow> 'a outcome \<times> 's"

definition return :: "'a \<Rightarrow> ('s, 'a) cpp" where
  [cpp_defs]: "return a = (\<lambda>s. (Ret a, s))"

definition throw :: "exn \<Rightarrow> ('s, 'a) cpp" where
  [cpp_defs]: "throw e = (\<lambda>s. (Throw e, s))"

definition stuck :: "('s, 'a) cpp" where
  [cpp_defs]: "stuck = (\<lambda>s. (Stuck, s))"

definition bind :: "('s, 'a) cpp \<Rightarrow> ('a \<Rightarrow> ('s, 'b) cpp) \<Rightarrow> ('s, 'b) cpp" where
  [cpp_defs]: "bind m f = (\<lambda>s. case m s of
     (Ret a, t) \<Rightarrow> f a t | (Throw e, t) \<Rightarrow> (Throw e, t) | (Stuck, t) \<Rightarrow> (Stuck, t))"

definition try_catch :: "('s, 'a) cpp \<Rightarrow> (exn \<Rightarrow> ('s, 'a) cpp) \<Rightarrow> ('s, 'a) cpp" where
  [cpp_defs]: "try_catch m h = (\<lambda>s. case m s of
     (Ret a, t) \<Rightarrow> (Ret a, t) | (Throw e, t) \<Rightarrow> h e t | (Stuck, t) \<Rightarrow> (Stuck, t))"

text \<open>A destructor that runs when its scope is left, by return or by exception; destructors
  do not throw.\<close>

definition scope_exit :: "('s, 'a) cpp \<Rightarrow> ('s \<Rightarrow> 's) \<Rightarrow> ('s, 'a) cpp" where
  [cpp_defs]: "scope_exit m d = (\<lambda>s. case m s of
     (Ret a, t) \<Rightarrow> (Ret a, d t) | (Throw e, t) \<Rightarrow> (Throw e, d t) | (Stuck, t) \<Rightarrow> (Stuck, t))"

definition gets :: "('s \<Rightarrow> 'a) \<Rightarrow> ('s, 'a) cpp" where
  [cpp_defs]: "gets f = (\<lambda>s. (Ret (f s), s))"

definition modify :: "('s \<Rightarrow> 's) \<Rightarrow> ('s, unit) cpp" where
  [cpp_defs]: "modify f = (\<lambda>s. (Ret (), f s))"

definition liftE :: "exn + 'a \<Rightarrow> ('s, 'a) cpp" where
  [cpp_defs]: "liftE r = (case r of Inl e \<Rightarrow> throw e | Inr a \<Rightarrow> return a)"

definition run_if :: "bool \<Rightarrow> ('s, unit) cpp \<Rightarrow> ('s, unit) cpp" where
  [cpp_defs]: "run_if b m = (if b then m else return ())"

fun for_each :: "'a list \<Rightarrow> ('a \<Rightarrow> ('s, unit) cpp) \<Rightarrow> ('s, unit) cpp" where
  "for_each [] f = return ()"
| "for_each (x # xs) f = bind (f x) (\<lambda>_. for_each xs f)"

fun map_each :: "('a \<Rightarrow> ('s, 'b) cpp) \<Rightarrow> 'a list \<Rightarrow> ('s, 'b list) cpp" where
  "map_each f [] = return []"
| "map_each f (x # xs) =
     bind (f x) (\<lambda>y. bind (map_each f xs) (\<lambda>ys. return (y # ys)))"

text \<open>A loop that passes a value on; and the unwinding \<open>d\<close> of objects that outlive \<open>m\<close> when it
  returns.\<close>

fun fold_each :: "('a \<Rightarrow> 'b \<Rightarrow> ('s, 'b) cpp) \<Rightarrow> 'a list \<Rightarrow> 'b \<Rightarrow> ('s, 'b) cpp" where
  "fold_each f [] b = return b"
| "fold_each f (x # xs) b = bind (f x b) (fold_each f xs)"

definition on_throw :: "('s, 'a) cpp \<Rightarrow> ('s \<Rightarrow> 's) \<Rightarrow> ('s, 'a) cpp" where
  "on_throw m d = (\<lambda>s. case m s of (Throw e, t) \<Rightarrow> (Throw e, d t) | x \<Rightarrow> x)"

text \<open>The same for the fallible functions without state.\<close>

definition bindE :: "exn + 'a \<Rightarrow> ('a \<Rightarrow> exn + 'b) \<Rightarrow> exn + 'b" where
  "bindE r f = (case r of Inl e \<Rightarrow> Inl e | Inr a \<Rightarrow> f a)"

lemma bindE_simps [simp]:
  "bindE (Inl e) f = Inl e"
  "bindE (Inr a) f = f a"
  by (simp_all add: bindE_def)

lemma bindE_Inr_iff: "bindE r f = Inr b \<longleftrightarrow> (\<exists>a. r = Inr a \<and> f a = Inr b)"
  by (cases r) auto

lemma run_simps [simp]:
  "return a s = (Ret a, s)"
  "throw e s = (Throw e, s)"
  "stuck s = (Stuck, s)"
  "gets f s = (Ret (f s), s)"
  "modify g s = (Ret (), g s)"
  "liftE (Inr a) s = (Ret a, s)"
  "liftE (Inl e) s = (Throw e, s)"
  by (simp_all add: cpp_defs)

lemma bind_Ret: "m s = (Ret a, t) \<Longrightarrow> bind m f s = f a t"
  and bind_Throw: "m s = (Throw e, t) \<Longrightarrow> bind m f s = (Throw e, t)"
  and bind_Stuck: "m s = (Stuck, t) \<Longrightarrow> bind m f s = (Stuck, t)"
  by (simp_all add: bind_def)

lemma bind_run_simps [simp]:
  "bind (return a) f s = f a s"
  "bind (throw e) f s = (Throw e, s)"
  "bind (gets g) f s = f (g s) s"
  "bind (modify h) k s = k () (h s)"
  "bind (liftE (Inr a)) f s = f a s"
  "bind (liftE (Inl e)) f s = (Throw e, s)"
  by (simp_all add: cpp_defs)

lemma bind_Ret_iff:
  "bind m f s = (Ret b, u) \<longleftrightarrow> (\<exists>a t. m s = (Ret a, t) \<and> f a t = (Ret b, u))"
  by (auto simp: bind_def split: prod.splits outcome.splits)

lemma bind_Throw_iff:
  "bind m f s = (Throw e, u) \<longleftrightarrow>
     m s = (Throw e, u) \<or> (\<exists>a t. m s = (Ret a, t) \<and> f a t = (Throw e, u))"
  by (auto simp: bind_def split: prod.splits outcome.splits)

lemma bind_assoc: "bind (bind m f) g = bind m (\<lambda>a. bind (f a) g)"
  by (auto simp: bind_def fun_eq_iff split: prod.splits outcome.splits)

lemma bindE_assoc: "bindE (bindE r f) g = bindE r (\<lambda>a. bindE (f a) g)"
  by (cases r) auto

section \<open>How a computation moves the state\<close>

definition moves :: "('s \<Rightarrow> 's \<Rightarrow> bool) \<Rightarrow> ('s, 'a) cpp \<Rightarrow> bool" where
  "moves R m \<longleftrightarrow> (\<forall>s. R s (snd (m s)))"

lemma movesD: "moves R m \<Longrightarrow> m s = (r, t) \<Longrightarrow> R s t"
  unfolding moves_def by (metis snd_conv)

lemma movesI: "(\<And>s r t. m s = (r, t) \<Longrightarrow> R s t) \<Longrightarrow> moves R m"
  unfolding moves_def by (metis prod.collapse)

locale state_preorder =
  fixes R :: "'s \<Rightarrow> 's \<Rightarrow> bool"
  assumes stay: "R s s"
    and go_on: "R s t \<Longrightarrow> R t u \<Longrightarrow> R s u"
begin

lemma moves_return [intro]: "moves R (return a)"
  by (simp add: moves_def stay)

lemma moves_throw [intro]: "moves R (throw e)"
  by (simp add: moves_def stay)

lemma moves_stuck [intro]: "moves R stuck"
  by (simp add: moves_def stay)

lemma moves_gets [intro]: "moves R (gets f)"
  by (simp add: moves_def stay)

lemma moves_liftE [intro]: "moves R (liftE r)"
  by (cases r) (simp_all add: moves_def stay)

lemma moves_modify: "(\<And>s. R s (f s)) \<Longrightarrow> moves R (modify f)"
  by (simp add: moves_def)

lemma moves_bind [intro]:
  assumes "moves R m" and "\<And>a. moves R (f a)"
  shows "moves R (bind m f)"
proof (rule movesI)
  fix s r u assume run: "bind m f s = (r, u)"
  obtain o1 t where m: "m s = (o1, t)" by fastforce
  then have 1: "R s t" using assms(1) by (rule movesD [rotated])
  show "R s u"
  proof (cases o1)
    case (Ret a)
    with m run have "f a t = (r, u)" by (simp add: bind_Ret)
    then have "R t u" using assms(2) by (blast intro: movesD)
    with 1 show ?thesis by (rule go_on)
  qed (use m run 1 in \<open>simp_all add: bind_def\<close>)
qed

lemma moves_try_catch [intro]:
  assumes "moves R m" and "\<And>e. moves R (h e)"
  shows "moves R (try_catch m h)"
proof (rule movesI)
  fix s r u assume run: "try_catch m h s = (r, u)"
  obtain o1 t where m: "m s = (o1, t)" by fastforce
  then have 1: "R s t" using assms(1) by (rule movesD [rotated])
  show "R s u"
  proof (cases o1)
    case (Throw e)
    with m run have "h e t = (r, u)" by (simp add: try_catch_def)
    then have "R t u" using assms(2) by (blast intro: movesD)
    with 1 show ?thesis by (rule go_on)
  qed (use m run 1 in \<open>simp_all add: try_catch_def\<close>)
qed

lemma moves_scope_exit:
  assumes "moves R m" and d: "\<And>s. R s (d s)"
  shows "moves R (scope_exit m d)"
proof (rule movesI)
  fix s r u assume run: "scope_exit m d s = (r, u)"
  obtain o1 t where m: "m s = (o1, t)" by fastforce
  then have 1: "R s t" using assms(1) by (rule movesD [rotated])
  have 2: "R s (d t)" using go_on [OF 1 d] .
  show "R s u" by (cases o1) (use m run 1 2 in \<open>auto simp: scope_exit_def\<close>)
qed

lemma moves_if [intro]: "(b \<Longrightarrow> moves R m) \<Longrightarrow> (\<not> b \<Longrightarrow> moves R n) \<Longrightarrow> moves R (if b then m else n)"
  by simp

lemma moves_run_if [intro]: "(b \<Longrightarrow> moves R m) \<Longrightarrow> moves R (run_if b m)"
  by (auto simp: run_if_def)

lemma moves_for_each: "(\<And>x. x \<in> set xs \<Longrightarrow> moves R (f x)) \<Longrightarrow> moves R (for_each xs f)"
  by (induction xs) auto

lemma moves_fold_each: "(\<And>x b. x \<in> set xs \<Longrightarrow> moves R (f x b)) \<Longrightarrow> moves R (fold_each f xs b)"
  by (induction xs arbitrary: b) auto

lemma moves_on_throw: "moves R m \<Longrightarrow> (\<And>s. R s (d s)) \<Longrightarrow> moves R (on_throw m d)"
  by (rule movesI) (auto simp: on_throw_def split: prod.splits outcome.splits dest: movesD intro: go_on)

lemma moves_case_option: "moves R m \<Longrightarrow> (\<And>x. moves R (f x)) \<Longrightarrow> moves R (case z of None \<Rightarrow> m | Some x \<Rightarrow> f x)"
  by (cases z) simp_all

lemma moves_map_each: "(\<And>x. x \<in> set xs \<Longrightarrow> moves R (f x)) \<Longrightarrow> moves R (map_each f xs)"
  by (induction xs) auto

end

section \<open>Computations that come to an end\<close>

text \<open>\<open>ends m\<close>: \<open>m\<close> returns or throws, whatever the state.\<close>

definition ends :: "('s, 'a) cpp \<Rightarrow> bool" where
  "ends m \<longleftrightarrow> (\<forall>s. fst (m s) \<noteq> Stuck)"

lemma endsD: "ends m \<Longrightarrow> m s \<noteq> (Stuck, t)"
  by (metis ends_def fst_conv)

lemma ends_basic [intro, simp]:
  "ends (return a)" "ends (throw e)" "ends (gets f)" "ends (modify g)" "ends (liftE r)"
  by (simp_all add: ends_def liftE_def split: sum.split)

lemma ends_bind [intro!]: "ends m \<Longrightarrow> (\<And>a. ends (f a)) \<Longrightarrow> ends (bind m f)"
  by (auto simp: ends_def bind_def split: prod.split outcome.split) (metis fst_conv)

lemma ends_try_catch [intro!]: "ends m \<Longrightarrow> (\<And>e. ends (h e)) \<Longrightarrow> ends (try_catch m h)"
  by (auto simp: ends_def try_catch_def split: prod.split outcome.split) (metis fst_conv)

lemma ends_scope_exit [intro!]: "ends m \<Longrightarrow> ends (scope_exit m d)"
  by (auto simp: ends_def scope_exit_def split: prod.split outcome.split) (metis fst_conv)

lemma ends_run_if [intro!]: "ends m \<Longrightarrow> ends (run_if b m)"
  by (simp add: run_if_def)

lemma ends_for_each: "(\<And>x. x \<in> set xs \<Longrightarrow> ends (f x)) \<Longrightarrow> ends (for_each xs f)"
  by (induction xs) auto

lemma ends_map_each: "(\<And>x. x \<in> set xs \<Longrightarrow> ends (f x)) \<Longrightarrow> ends (map_each f xs)"
  by (induction xs) auto

lemma ends_fold_each: "(\<And>x b. ends (f x b)) \<Longrightarrow> ends (fold_each f xs b)"
  by (induction xs arbitrary: b) auto

lemma on_throw_Ret: "on_throw m d s = (Ret a, t) \<longleftrightarrow> m s = (Ret a, t)"
  by (auto simp: on_throw_def split: prod.splits outcome.splits)

lemma on_throw_ends: "ends m \<Longrightarrow> ends (on_throw m d)"
  by (auto simp: ends_def on_throw_def split: prod.splits outcome.splits) (metis fst_conv)

text \<open>\<open>returns m\<close>: \<open>m\<close> returns, whatever the state.\<close>

definition returns :: "('s, 'a) cpp \<Rightarrow> bool" where
  "returns m \<longleftrightarrow> (\<forall>s. \<exists>a t. m s = (Ret a, t))"

lemma returnsD: "returns m \<Longrightarrow> \<exists>a t. m s = (Ret a, t)"
  by (simp add: returns_def)

lemma returns_basic [intro, simp]: "returns (return a)" "returns (gets f)" "returns (modify g)" "returns (liftE (Inr a))"
  by (simp_all add: returns_def)

lemma returns_bind [intro!]: "returns m \<Longrightarrow> (\<And>a. returns (f a)) \<Longrightarrow> returns (bind m f)"
  unfolding returns_def by (metis bind_Ret)

lemma returns_try_catch [intro!]: "returns m \<Longrightarrow> returns (try_catch m h)"
proof -
  assume m: "returns m"
  have "\<exists>a t. try_catch m h s = (Ret a, t)" for s
    using returnsD [OF m, of s] by (auto simp: try_catch_def)
  then show ?thesis by (simp add: returns_def)
qed

lemma returns_run_if [intro!]: "returns m \<Longrightarrow> returns (run_if b m)"
  by (simp add: run_if_def)

lemma returns_fold_each: "(\<And>x b. returns (f x b)) \<Longrightarrow> returns (fold_each f xs b)"
  by (induction xs arbitrary: b) auto

lemma returns_for_each: "(\<And>x. returns (f x)) \<Longrightarrow> returns (for_each xs f)"
  by (induction xs) auto

lemma returns_if: "returns m \<Longrightarrow> returns n \<Longrightarrow> returns (if b then m else n)"
  by simp

lemma returns_on_throw: "returns m \<Longrightarrow> returns (on_throw m d)"
  unfolding returns_def by (metis on_throw_Ret)

text \<open>\<open>yields m a P s\<close>: from \<open>s\<close>, \<open>m\<close> returns \<open>a\<close> in a state with \<open>P\<close>.\<close>

definition yields :: "('s, 'a) cpp \<Rightarrow> 'a \<Rightarrow> ('s \<Rightarrow> bool) \<Rightarrow> 's \<Rightarrow> bool" where
  "yields m a P s \<longleftrightarrow> (\<exists>t. m s = (Ret a, t) \<and> P t)"

lemma yieldsI: "m s = (Ret a, t) \<Longrightarrow> P t \<Longrightarrow> yields m a P s"
  by (auto simp: yields_def)

lemma yields_return: "P s \<Longrightarrow> yields (return a) a P s"
  by (simp add: yields_def)

lemma yields_bind:
  assumes "yields m a P s" and "\<And>t. P t \<Longrightarrow> yields (f a) b Q t"
  shows "yields (bind m f) b Q s"
  using assms by (auto simp: yields_def bind_Ret)

lemma yields_mono: "yields m a P s \<Longrightarrow> (\<And>t. P t \<Longrightarrow> Q t) \<Longrightarrow> yields m a Q s"
  by (auto simp: yields_def)

section \<open>Verification conditions\<close>

text \<open>\<open>wp m Q E s\<close>: a run of \<open>m\<close> from \<open>s\<close> that returns ends in \<open>Q\<close>, one that throws ends in \<open>E\<close>.\<close>

definition wp :: "('s, 'a) cpp \<Rightarrow> ('a \<Rightarrow> 's \<Rightarrow> bool) \<Rightarrow> (exn \<Rightarrow> 's \<Rightarrow> bool) \<Rightarrow> 's \<Rightarrow> bool" where
  "wp m Q E s \<longleftrightarrow> (case m s of (Ret a, t) \<Rightarrow> Q a t | (Throw e, t) \<Rightarrow> E e t | (Stuck, t) \<Rightarrow> True)"

named_theorems wp_simps \<open>weakest preconditions of the control structures\<close>

lemma wp_return [wp_simps]: "wp (return a) Q E s \<longleftrightarrow> Q a s"
  and wp_throw [wp_simps]: "wp (throw e) Q E s \<longleftrightarrow> E e s"
  and wp_stuck [wp_simps]: "wp stuck Q E s"
  and wp_gets [wp_simps]: "wp (gets f) Q E s \<longleftrightarrow> Q (f s) s"
  and wp_modify [wp_simps]: "wp (modify g) P E s \<longleftrightarrow> P () (g s)"
  by (simp_all add: wp_def)

lemma wp_bind [wp_simps]: "wp (bind m f) Q E s \<longleftrightarrow> wp m (\<lambda>a. wp (f a) Q E) E s"
  by (auto simp: wp_def bind_def split: prod.splits outcome.splits)

lemma wp_try_catch [wp_simps]: "wp (try_catch m h) Q E s \<longleftrightarrow> wp m Q (\<lambda>e. wp (h e) Q E) s"
  by (auto simp: wp_def try_catch_def split: prod.splits outcome.splits)

lemma wp_scope_exit [wp_simps]:
  "wp (scope_exit m d) Q E s \<longleftrightarrow> wp m (\<lambda>a t. Q a (d t)) (\<lambda>e t. E e (d t)) s"
  by (auto simp: wp_def scope_exit_def split: prod.splits outcome.splits)

lemma wp_liftE [wp_simps]:
  "wp (liftE r) Q E s \<longleftrightarrow> (case r of Inl e \<Rightarrow> E e s | Inr a \<Rightarrow> Q a s)"
  by (cases r) (simp_all add: wp_def)

lemma wp_run_if [wp_simps]: "wp (run_if b m) P E s \<longleftrightarrow> (if b then wp m P E s else P () s)"
  by (simp add: run_if_def wp_return)

lemma wp_if [wp_simps]: "wp (if b then m else n) Q E s \<longleftrightarrow> (if b then wp m Q E s else wp n Q E s)"
  by simp

lemma wp_mono:
  assumes "wp m Q E s" and "\<And>a t. Q a t \<Longrightarrow> Q' a t" and "\<And>e t. E e t \<Longrightarrow> E' e t"
  shows "wp m Q' E' s"
  using assms by (auto simp: wp_def split: prod.splits outcome.splits)

lemma wp_for_each:
  assumes "\<And>x s. x \<in> set xs \<Longrightarrow> I s \<Longrightarrow> wp (f x) (\<lambda>_. I) E s" and "I s"
  shows "wp (for_each xs f) (\<lambda>_. I) E s"
  using assms
proof (induction xs arbitrary: s)
  case (Cons x xs)
  have "wp (f x) (\<lambda>_. I) E s" using Cons.prems by simp
  then have "wp (f x) (\<lambda>_. wp (for_each xs f) (\<lambda>_. I) E) E s"
    by (rule wp_mono) (use Cons in auto)
  then show ?case by (simp add: wp_simps)
qed (simp add: wp_simps)

lemma wp_RetD: "wp m Q E s \<Longrightarrow> m s = (Ret a, t) \<Longrightarrow> Q a t"
  and wp_ThrowD: "wp m Q E s \<Longrightarrow> m s = (Throw e, t) \<Longrightarrow> E e t"
  by (simp_all add: wp_def)

section \<open>Lists and strings of the standard library\<close>

fun index_of :: "'a \<Rightarrow> 'a list \<Rightarrow> nat option" where
  "index_of c [] = None"
| "index_of c (x # xs) = (if x = c then Some 0 else map_option Suc (index_of c xs))"

lemma index_of_None_iff: "index_of c xs = None \<longleftrightarrow> c \<notin> set xs"
  by (induction xs) auto

lemma index_of_Some_iff:
  "index_of c xs = Some i \<longleftrightarrow> i < length xs \<and> xs ! i = c \<and> c \<notin> set (take i xs)"
proof (induction xs arbitrary: i)
  case (Cons x xs)
  then show ?case by (cases i) auto
qed simp

lemma index_of_append:
  "index_of c (xs @ ys) =
     (case index_of c xs of Some i \<Rightarrow> Some i | None \<Rightarrow> map_option ((+) (length xs)) (index_of c ys))"
  by (induction xs; cases "index_of c ys") (auto split: option.splits)

text \<open>\<open>std::string::find(c, pos)\<close>; \<open>npos\<close> is \<open>None\<close>.\<close>

definition str_find :: "char \<Rightarrow> string \<Rightarrow> nat \<Rightarrow> nat option" where
  "str_find c s pos = map_option ((+) pos) (index_of c (drop pos s))"

text \<open>\<open>s.substr(pos, n)\<close> for \<open>pos \<le> s.size()\<close>, and \<open>s.find(t) != npos\<close>.\<close>

definition substr :: "string \<Rightarrow> nat \<Rightarrow> nat \<Rightarrow> string" where
  "substr s pos n = take n (drop pos s)"

fun has_substr :: "string \<Rightarrow> string \<Rightarrow> bool" where
  "has_substr t [] = (t = [])"
| "has_substr t (c # s) = (take (length t) (c # s) = t \<or> has_substr t s)"

definition char_code :: "char \<Rightarrow> nat" where
  "char_code c = of_char c"

definition is_digit :: "char \<Rightarrow> bool" where
  "is_digit c \<longleftrightarrow> 48 \<le> char_code c \<and> char_code c \<le> 57"

definition is_space :: "char \<Rightarrow> bool" where
  "is_space c \<longleftrightarrow> char_code c = 32 \<or> (9 \<le> char_code c \<and> char_code c \<le> 13)"

definition digit_char :: "nat \<Rightarrow> char" where
  "digit_char d = char_of (48 + d)"

lemma char_code_digit [simp]: "d < 10 \<Longrightarrow> char_code (digit_char d) = 48 + d"
  by (simp add: char_code_def digit_char_def)

lemma is_digit_digit_char [simp]: "d < 10 \<Longrightarrow> is_digit (digit_char d)"
  by (simp add: is_digit_def)

text \<open>\<open>std::to_string\<close> of an unsigned number.\<close>

fun to_string :: "nat \<Rightarrow> string" where
  "to_string n =
     (if n < 10 then [digit_char n] else to_string (n div 10) @ [digit_char (n mod 10)])"

declare to_string.simps [simp del]

lemma to_string_nonempty [simp]: "to_string n \<noteq> []"
  by (subst to_string.simps) simp

lemma to_string_digits: "c \<in> set (to_string n) \<Longrightarrow> is_digit c"
proof (induction n rule: to_string.induct)
  case (1 n)
  show ?case
  proof (cases "n < 10")
    case True
    then show ?thesis using "1.prems" by (subst (asm) to_string.simps) simp
  next
    case False
    then show ?thesis using "1.prems" "1.IH" by (subst (asm) to_string.simps) auto
  qed
qed

definition int_to_string :: "int \<Rightarrow> string" where
  "int_to_string n = (if n < 0 then ''-'' @ to_string (nat (- n)) else to_string (nat n))"

definition decimal :: "string \<Rightarrow> nat" where
  "decimal ds = foldl (\<lambda>a c. 10 * a + (char_code c - 48)) 0 ds"

lemma decimal_to_string [simp]: "decimal (to_string n) = n"
proof (induction n rule: to_string.induct)
  case (1 n)
  show ?case
  proof (cases "n < 10")
    case True
    then show ?thesis by (subst to_string.simps) (simp add: decimal_def)
  next
    case False
    with "1.IH" have "decimal (to_string (n div 10)) = n div 10" by simp
    with False show ?thesis by (subst to_string.simps) (simp add: decimal_def)
  qed
qed

text \<open>\<open>std::stoi\<close> and \<open>std::stoll\<close>: skip white space, an optional sign, then digits up to the
  first other character; no digit throws \<open>invalid_argument\<close>, a value outside the type
  \<open>out_of_range\<close>.\<close>

definition sign_and_digits :: "string \<Rightarrow> bool \<times> string" where
  "sign_and_digits s = (case dropWhile is_space s of
     [] \<Rightarrow> (False, [])
   | c # r \<Rightarrow> (if c = CHR ''-'' then (True, takeWhile is_digit r)
               else if c = CHR ''+'' then (False, takeWhile is_digit r)
               else (False, takeWhile is_digit (c # r))))"

definition parse_int :: "nat \<Rightarrow> string \<Rightarrow> exn + int" where
  "parse_int w s = (case sign_and_digits s of (neg, ds) \<Rightarrow>
     if ds = [] then Inl StdInvalidArgument
     else let v = (if neg then - int (decimal ds) else int (decimal ds))
          in if v < - (2 ^ (w - 1)) \<or> 2 ^ (w - 1) \<le> v then Inl StdOutOfRange else Inr v)"

definition stoi :: "string \<Rightarrow> exn + int" where
  "stoi s = parse_int 32 s"

definition stoll :: "string \<Rightarrow> exn + int" where
  "stoll s = parse_int 64 s"

lemma digit_not_space: "is_digit c \<Longrightarrow> \<not> is_space c"
  by (auto simp: is_digit_def is_space_def)

lemma digit_not_sign:
  assumes "is_digit c"
  shows "c \<noteq> CHR ''-''" and "c \<noteq> CHR ''+''"
proof -
  have "char_code (CHR ''-'') = 45" and "char_code (CHR ''+'') = 43"
    by (simp_all add: char_code_def)
  with assms show "c \<noteq> CHR ''-''" and "c \<noteq> CHR ''+''" by (auto simp: is_digit_def)
qed

lemma sign_and_digits_to_string [simp]: "sign_and_digits (to_string n) = (False, to_string n)"
proof (cases "to_string n")
  case (Cons c r)
  have ds: "\<forall>x \<in> set (c # r). is_digit x"
    using to_string_digits [of _ n] Cons by auto
  then have "takeWhile is_digit (c # r) = c # r" by (simp add: takeWhile_eq_all_conv)
  moreover have "dropWhile is_space (c # r) = c # r" using ds digit_not_space by simp
  ultimately show ?thesis
    using Cons ds digit_not_sign by (simp add: sign_and_digits_def)
qed simp

lemma stoll_to_string: "int n < 2 ^ 63 \<Longrightarrow> stoll (to_string n) = Inr (int n)"
  by (simp add: stoll_def parse_int_def)

lemma int_to_string_nonempty [simp]: "int_to_string n \<noteq> []"
  by (simp add: int_to_string_def)

lemma sign_and_digits_minus: "sign_and_digits (''-'' @ to_string n) = (True, to_string n)"
proof -
  have "takeWhile is_digit (to_string n) = to_string n"
    using to_string_digits [of _ n] by (simp add: takeWhile_eq_all_conv)
  moreover have "\<not> is_space (CHR ''-'')" by (simp add: is_space_def char_code_def)
  ultimately show ?thesis by (simp add: sign_and_digits_def)
qed

lemma stoll_int_to_string: "- (2 ^ 63) \<le> n \<Longrightarrow> n < 2 ^ 63 \<Longrightarrow> stoll (int_to_string n) = Inr n"
  using sign_and_digits_minus [of "nat (- n)"]
  by (cases "n < 0") (simp_all add: stoll_def parse_int_def int_to_string_def Let_def)

lemma parse_int_range: "parse_int w s = Inr v \<Longrightarrow> - (2 ^ (w - 1)) \<le> v \<and> v < 2 ^ (w - 1)"
  by (auto simp: parse_int_def Let_def split: prod.splits if_splits)

lemma stoll_range: "stoll s = Inr v \<Longrightarrow> - (2 ^ 63) \<le> v \<and> v < 2 ^ 63"
  unfolding stoll_def by (drule parse_int_range) simp

lemma str_find_Some:
  "str_find c s p = Some i \<Longrightarrow> p \<le> i \<and> i < length s \<and> s ! i = c \<and> c \<notin> set (take (i - p) (drop p s))"
  by (auto simp: str_find_def index_of_Some_iff)

lemma str_find_None: "str_find c s p = None \<longleftrightarrow> c \<notin> set (drop p s)"
  by (simp add: str_find_def index_of_None_iff)

lemma str_find_here: "c \<notin> set u \<Longrightarrow> str_find c (u @ c # v) 0 = Some (length u)"
  by (simp add: str_find_def index_of_append index_of_None_iff [THEN iffD2])

end
