(* ===== verification/OciApi.thy ===== *)
theory OciApi
  imports Prelude
begin

text \<open>
  The Oracle Call Interface as the extension uses it. OCI is a closed client library: what
  a call answers is a parameter, one function \<open>oci\<close> of the record \<open>rt\<close> that takes the call
  with its arguments and the state of the client library and the server (\<open>'w\<close>) and gives
  the reply and the next state. Every call the extension makes is also written to \<open>trace\<close>,
  so that theorems can speak of the calls made and of their order; \<open>environ\<close> is the
  environment of the process (\<open>getenv\<close>, \<open>setenv\<close>). Pointers to OCI handles
  are \<open>handle option\<close>, \<open>None\<close> being the null pointer; what OCI writes through an out
  pointer is part of the reply. The function \<open>CheckOCIError\<close> is the one that the four
  translation units each define for themselves.
\<close>

section \<open>Calls and replies\<close>

type_synonym handle = nat

datatype htype = HTYPE_ERROR | HTYPE_SERVER | HTYPE_SVCCTX | HTYPE_SESSION | HTYPE_STMT | HTYPE_ENV

datatype oci_attr =
    ATTR_CALL_TIMEOUT | ATTR_CONN_TIMEOUT | ATTR_SERVER | ATTR_SESSION | ATTR_USERNAME
  | ATTR_PASSWORD | ATTR_STMTCACHESIZE | ATTR_PREFETCH_ROWS | ATTR_PREFETCH_MEMORY
  | ATTR_PARAM_COUNT | ATTR_DATA_TYPE | ATTR_NAME | ATTR_PRECISION | ATTR_SCALE
  | ATTR_CHAR_SIZE | ATTR_ROWS_FETCHED | ATTR_STMT_TYPE | ATTR_ROW_COUNT

datatype sqlt =
    SQLT_CHR | SQLT_AFC | SQLT_VCS | SQLT_AVC | SQLT_NUM | SQLT_VNU | SQLT_INT | SQLT_UIN
  | SQLT_FLT | SQLT_BFLOAT | SQLT_BDOUBLE | SQLT_IBFLOAT | SQLT_IBDOUBLE
  | SQLT_DAT | SQLT_ODT | SQLT_TIMESTAMP | SQLT_TIMESTAMP_TZ | SQLT_TIMESTAMP_LTZ
  | SQLT_CLOB | SQLT_BLOB | SQLT_BIN | SQLT_LBI | SQLT_LNG | SQLT_LVC
  | SQLT_JSON | SQLT_VEC | SQLT_STR | SQLT_OTHER nat

datatype exec_mode = OCI_DEFAULT | OCI_DESCRIBE_ONLY | OCI_COMMIT_ON_SUCCESS

datatype sword = OCI_SUCCESS | OCI_SUCCESS_WITH_INFO | OCI_NO_DATA | OCI_OTHER int

text \<open>The memory of one column, which a fetch writes and an array execution reads: the bytes of the
  buffer, the indicators and the lengths (\<open>ub2\<close>).\<close>

record col_mem =
  mem_bytes :: string
  mem_ind :: "int list"
  mem_len :: "16 word list"

datatype oci_call =
    EnvCreate
  | HandleAlloc htype
  | HandleFree htype "handle option"
  | ErrorGet handle
  | AttrSetNum htype "handle option" oci_attr nat
  | AttrSetPtr htype "handle option" oci_attr "handle option"
  | AttrSetText htype "handle option" oci_attr string
  | AttrGetStmt "handle option" oci_attr
  | AttrGetParam "handle option" oci_attr
  | ServerAttach "handle option" string
  | ServerDetach "handle option"
  | SessionBegin "handle option" "handle option"
  | SessionEnd "handle option" "handle option"
  | StmtPrepare "handle option" string
  | StmtExecute "handle option" "handle option" nat exec_mode
  | StmtFetch "handle option" nat
  | ParamGet "handle option" nat
  | DefineByPos "handle option" nat nat sqlt
  | DefineArrayOfStruct "handle option" nat
  | BindByPos "handle option" nat nat sqlt
  | BindArrayOfStruct "handle option" nat
  | StmtExecuteArray "handle option" "handle option" nat "(nat \<times> col_mem) list"
  | TransCommit "handle option"
  | TransRollback "handle option"

text \<open>\<open>StmtExecuteArray\<close> is \<open>OCIStmtExecute\<close> of a statement with bound arrays: it reads the memory that
  the binds point to, so the slot size and the memory of each column are arguments.\<close>

record oci_reply =
  status :: sword
  out_handle :: "handle option"
  out_num :: int
  out_text :: string
  out_sqlt :: sqlt
  out_cols :: "col_mem list"

record 'w rt =
  oci :: "oci_call \<Rightarrow> 'w \<Rightarrow> oci_reply \<times> 'w"
  wakeups :: nat
  fuel :: nat

record 'w ocist =
  server :: 'w
  trace :: "(oci_call \<times> oci_reply) list"
  environ :: "string \<rightharpoonup> string"

section \<open>Making a call\<close>

definition call :: "'w rt \<Rightarrow> oci_call \<Rightarrow> (('w, 'z) ocist_scheme, oci_reply) cpp" where
  "call rt c = (\<lambda>s. case oci rt c (server s) of
     (r, w) \<Rightarrow> (Ret r, s\<lparr>server := w, trace := trace s @ [(c, r)]\<rparr>))"

definition ok_status :: "sword \<Rightarrow> bool" where
  "ok_status st \<longleftrightarrow> st = OCI_SUCCESS \<or> st = OCI_SUCCESS_WITH_INFO"

definition CheckOCIError ::
  "'w rt \<Rightarrow> sword \<Rightarrow> handle option \<Rightarrow> string \<Rightarrow> (('w, 'z) ocist_scheme, unit) cpp" where
  "CheckOCIError rt st errhp msg =
     (if \<not> ok_status st then
        (case errhp of
           Some h \<Rightarrow> bind (call rt (ErrorGet h)) (\<lambda>r.
             throw (IOException (msg @ '': '' @ out_text r)))
         | None \<Rightarrow> throw (IOException (msg @ '': (No Error Handle)'')))
      else return ())"

text \<open>The idiom \<open>CheckOCIError(OCI...(...), errhp, msg)\<close>.\<close>

definition checked ::
  "'w rt \<Rightarrow> oci_call \<Rightarrow> handle option \<Rightarrow> string \<Rightarrow> (('w, 'z) ocist_scheme, oci_reply) cpp" where
  "checked rt c errhp msg =
     bind (call rt c) (\<lambda>r. bind (CheckOCIError rt (status r) errhp msg) (\<lambda>_. return r))"

lemma call_run:
  "call rt c s = (Ret (fst (oci rt c (server s))),
     s\<lparr>server := snd (oci rt c (server s)), trace := trace s @ [(c, fst (oci rt c (server s)))]\<rparr>)"
  by (simp add: call_def split: prod.splits)

lemma CheckOCIError_ok [simp]: "ok_status st \<Longrightarrow> CheckOCIError rt st h msg = return ()"
  by (simp add: CheckOCIError_def)

lemma CheckOCIError_fails:
  "\<not> ok_status st \<Longrightarrow> \<exists>txt t. CheckOCIError rt st h msg s = (Throw (IOException (msg @ '': '' @ txt)), t)"
  by (cases h) (auto simp: CheckOCIError_def bind_def call_run)

text \<open>Every call is appended to the trace and nothing else of the process changes.\<close>

definition trace_grows :: "('w, 'z) ocist_scheme \<Rightarrow> ('w, 'z) ocist_scheme \<Rightarrow> bool" where
  "trace_grows s t \<longleftrightarrow> (\<exists>cs. trace t = trace s @ cs)"

interpretation grows: state_preorder trace_grows
  by unfold_locales (auto simp: trace_grows_def)

definition only_oci :: "('w, 'z) ocist_scheme \<Rightarrow> ('w, 'z) ocist_scheme \<Rightarrow> bool" where
  "only_oci s t \<longleftrightarrow> (\<exists>w tr. t = s\<lparr>server := w, trace := tr\<rparr>)"

interpretation only_oci: state_preorder only_oci
proof
  show "only_oci s s" for s :: "('w, 'z) ocist_scheme"
    by (auto simp: only_oci_def intro!: exI [of _ "server s"] exI [of _ "trace s"])
  show "only_oci s t \<Longrightarrow> only_oci t u \<Longrightarrow> only_oci s u" for s t u :: "('w, 'z) ocist_scheme"
    by (auto simp: only_oci_def) (rule exI, rule exI, rule refl)
qed

lemma call_moves [moves_intros]:
  "moves trace_grows (call rt c)" "moves only_oci (call rt c)"
  by (auto simp: moves_def call_run trace_grows_def only_oci_def)

lemma CheckOCIError_moves [moves_intros]:
  "moves trace_grows (CheckOCIError rt st h msg)" "moves only_oci (CheckOCIError rt st h msg)"
  by (auto simp: CheckOCIError_def split: option.splits intro: call_moves)

lemma checked_moves [moves_intros]:
  "moves trace_grows (checked rt c h msg)" "moves only_oci (checked rt c h msg)"
  by (auto simp: checked_def intro: call_moves CheckOCIError_moves)

lemma checked_Ret:
  "checked rt c h msg s = (Ret r, t) \<longleftrightarrow>
     r = fst (oci rt c (server s)) \<and> ok_status (status r) \<and>
     t = s\<lparr>server := snd (oci rt c (server s)), trace := trace s @ [(c, r)]\<rparr>"
  by (auto simp: checked_def bind_Ret_iff call_run CheckOCIError_def split: if_splits option.splits)

lemma checked_not_Stuck: "checked rt c h msg s \<noteq> (Stuck, t)"
  by (auto simp: checked_def bind_def call_run CheckOCIError_def
      split: if_splits option.splits prod.splits outcome.splits)

lemma call_ends [intro, simp]: "ends (call rt c)"
  by (simp add: ends_def call_run)

lemma CheckOCIError_ends [intro, simp]: "ends (CheckOCIError rt st h msg)"
  by (auto simp: CheckOCIError_def split: option.split)

lemma checked_ends [intro, simp]: "ends (checked rt c h msg)"
  by (auto simp: checked_def)

text \<open>A client library in which every call succeeds; a fetch may say that there is no more data.\<close>

fun is_fetch :: "oci_call \<Rightarrow> bool" where
  "is_fetch (StmtFetch h n) = True"
| "is_fetch _ = False"

definition healthy :: "'w rt \<Rightarrow> bool" where
  "healthy rt \<longleftrightarrow> (\<forall>c w. \<not> is_fetch c \<longrightarrow> ok_status (status (fst (oci rt c w))))"

lemma call_returns [intro, simp]: "returns (call rt c)"
  by (simp add: returns_def call_run)

lemma healthy_bind_call:
  "healthy rt \<Longrightarrow> \<not> is_fetch c \<Longrightarrow> (\<And>r. ok_status (status r) \<Longrightarrow> returns (f r)) \<Longrightarrow> returns (bind (call rt c) f)"
  by (simp add: returns_def bind_def call_run healthy_def)

lemma checked_returns [intro]: "healthy rt \<Longrightarrow> \<not> is_fetch c \<Longrightarrow> returns (checked rt c h msg)"
  unfolding checked_def by (rule healthy_bind_call) auto

section \<open>A concrete client library\<close>

text \<open>Every call succeeds, unless \<open>fails\<close> picks it; handles are numbered; nothing is fetched.\<close>

definition sample_rt :: "(oci_call \<Rightarrow> bool) \<Rightarrow> nat rt" where
  "sample_rt fails = \<lparr>
     oci = (\<lambda>c n. (\<lparr> status = (if fails c then OCI_OTHER 1 else OCI_SUCCESS), out_handle = Some n,
       out_num = 0, out_text = ''ORA-00001'', out_sqlt = SQLT_CHR, out_cols = [] \<rparr>, Suc n)),
     wakeups = 0, fuel = 0 \<rparr>"

lemma sample_rt_simps [simp]:
  "status (fst (oci (sample_rt fails) c n)) = (if fails c then OCI_OTHER 1 else OCI_SUCCESS)"
  "out_handle (fst (oci (sample_rt fails) c n)) = Some n"
  "snd (oci (sample_rt fails) c n) = Suc n"
  "wakeups (sample_rt fails) = 0"
  by (simp_all add: sample_rt_def)

lemma sample_rt_healthy: "healthy (sample_rt (\<lambda>_. False))"
  by (simp add: healthy_def sample_rt_def ok_status_def)

lemma ok_status_simps [simp]:
  "ok_status OCI_SUCCESS" "ok_status OCI_SUCCESS_WITH_INFO" "\<not> ok_status OCI_NO_DATA"
  "\<not> ok_status (OCI_OTHER n)"
  by (simp_all add: ok_status_def)

end
