(* ===== verification/DuckdbApi.thy ===== *)
theory DuckdbApi
  imports Prelude
begin

text \<open>
  The part of DuckDB that the extension calls. DuckDB is not part of the repository (its
  directory is an empty submodule), so its functions are the fields of a record \<open>duckdb\<close>
  that the definitions of the other theories take as an argument; \<open>'v\<close> is DuckDB's
  \<open>Value\<close>. What a theorem relies on is a named hypothesis (\<open>upper_documented\<close>, ...)
  that states the documented behaviour of one function; \<open>duckdb_ref\<close> is a concrete
  instance that satisfies all of them and serves the closed instances of the theorems.
\<close>

section \<open>Types and functions of DuckDB\<close>

datatype LogicalType =
    VARCHAR | BIGINT | DOUBLE | FLOAT | TIMESTAMP | DATE | BLOB | BOOLEAN | UBIGINT
  | DECIMAL "8 word" "8 word"
  | LIST LogicalType
  | USER string
  | OTHER_TYPE string

text \<open>Expressions of DuckDB's planner, as far as the extension looks into them.\<close>

datatype etype =
    COMPARE_EQUAL | COMPARE_NOTEQUAL | COMPARE_LESSTHAN | COMPARE_GREATERTHAN | COMPARE_LESSTHANOREQUALTO
  | COMPARE_GREATERTHANOREQUALTO | OPERATOR_IS_NULL | OPERATOR_IS_NOT_NULL | CONJUNCTION_AND | CONJUNCTION_OR
  | OTHER_EXPRESSION

datatype 'v expr =
    BoundReference nat
  | BoundColumnRef nat
  | BoundConstant 'v
  | BoundComparison etype "'v expr" "'v expr"
  | BoundOperator etype "'v expr list"

record 'v duckdb =
  Upper :: "string \<Rightarrow> string"
  Lower :: "string \<Rightarrow> string"
  Trim :: "string \<Rightarrow> string"
  SplitChar :: "string \<Rightarrow> char \<Rightarrow> string list"
  SplitString :: "string \<Rightarrow> string \<Rightarrow> string list"
  Join :: "string list \<Rightarrow> string \<Rightarrow> string"
  StartsWith :: "string \<Rightarrow> string \<Rightarrow> bool"
  Contains :: "string \<Rightarrow> string \<Rightarrow> bool"
  Format :: "string \<Rightarrow> string list \<Rightarrow> string"
  WriteQuoted :: "string \<Rightarrow> char \<Rightarrow> string"
  ToString :: "'v \<Rightarrow> string"
  ToSQLString :: "'v \<Rightarrow> string"
  GetBool :: "'v \<Rightarrow> exn + bool"
  GetInt64 :: "'v \<Rightarrow> exn + int"
  StringVal :: "string \<Rightarrow> 'v"
  BigintVal :: "int \<Rightarrow> 'v"
  TimestampFromString :: "string \<Rightarrow> exn + 'v"
  EpochTimestamp :: "'v"
  CastAs :: "string \<Rightarrow> LogicalType \<Rightarrow> exn + 'v"
  ParseDouble :: "string \<Rightarrow> exn + 'v"
  ParseFloat :: "string \<Rightarrow> exn + 'v"
  FloatList :: "'v list \<Rightarrow> 'v"
  BlobVal :: "string \<Rightarrow> 'v"
  BlobGet :: "'v \<Rightarrow> string"
  TypeOf :: "'v \<Rightarrow> LogicalType"
  DefaultSchema :: string
  VectorSize :: "32 word"
  EmptyFront :: exn

text \<open>\<open>idx_t\<close> is an unsigned 64-bit integer; \<open>static_cast<idx_t>\<close> of an \<open>int64_t\<close> and
  \<open>MaxValue<idx_t>(1, x)\<close>.\<close>

type_synonym idx_t = "64 word"

definition to_idx :: "int \<Rightarrow> idx_t" where
  "to_idx v = word_of_int v"

definition max_one :: "idx_t \<Rightarrow> idx_t" where
  "max_one x = (if 1 < x then x else 1)"

lemma max_one_pos: "0 < max_one x"
  by (auto simp: max_one_def word_gt_0)

lemma uint_to_idx: "0 \<le> v \<Longrightarrow> v < 2 ^ 64 \<Longrightarrow> uint (to_idx v) = v"
  by (simp add: to_idx_def unsigned_of_int take_bit_int_eq_self)

lemma unat_to_idx: "0 \<le> v \<Longrightarrow> v < 2 ^ 64 \<Longrightarrow> unat (to_idx v) = nat v"
  by (simp add: unat_eq_nat_uint uint_to_idx)

section \<open>Documented behaviour\<close>

definition to_upper :: "char \<Rightarrow> char" where
  "to_upper c = (if 97 \<le> char_code c \<and> char_code c \<le> 122 then char_of (char_code c - 32) else c)"

definition to_lower :: "char \<Rightarrow> char" where
  "to_lower c = (if 65 \<le> char_code c \<and> char_code c \<le> 90 then char_of (char_code c + 32) else c)"

definition upper_documented :: "'v duckdb \<Rightarrow> bool" where
  "upper_documented D \<longleftrightarrow> (\<forall>s. Upper D s = map to_upper s)"

definition lower_documented :: "'v duckdb \<Rightarrow> bool" where
  "lower_documented D \<longleftrightarrow> (\<forall>s. Lower D s = map to_lower s)"

definition starts_with_documented :: "'v duckdb \<Rightarrow> bool" where
  "starts_with_documented D \<longleftrightarrow> (\<forall>s p. StartsWith D s p \<longleftrightarrow> take (length p) s = p)"

definition contains_documented :: "'v duckdb \<Rightarrow> bool" where
  "contains_documented D \<longleftrightarrow> (\<forall>s p. Contains D s p \<longleftrightarrow> has_substr p s)"

fun join_with :: "string list \<Rightarrow> string \<Rightarrow> string" where
  "join_with [] sep = []"
| "join_with [x] sep = x"
| "join_with (x # y # ys) sep = x @ sep @ join_with (y # ys) sep"

definition join_documented :: "'v duckdb \<Rightarrow> bool" where
  "join_documented D \<longleftrightarrow> (\<forall>xs sep. Join D xs sep = join_with xs sep)"

text \<open>\<open>StringUtil::Format\<close> with the directives the extension uses; the arguments are given
  as text.\<close>

fun printf_text :: "string \<Rightarrow> string list \<Rightarrow> string" where
  "printf_text [] args = []"
| "printf_text (c # f) args =
     (if take 2 (c # f) = ''%s'' then
        (case args of [] \<Rightarrow> [] | a # as \<Rightarrow> a @ printf_text (drop 1 f) as)
      else if take 4 (c # f) = ''%llu'' \<or> take 4 (c # f) = ''%lld'' then
        (case args of [] \<Rightarrow> [] | a # as \<Rightarrow> a @ printf_text (drop 3 f) as)
      else c # printf_text f args)"

definition format_documented :: "'v duckdb \<Rightarrow> bool" where
  "format_documented D \<longleftrightarrow> (\<forall>f args. Format D f args = printf_text f args)"

text \<open>\<open>KeywordHelper::WriteQuoted\<close> puts the text between quotes and doubles the quotes inside.\<close>

definition double_quotes :: "char \<Rightarrow> string \<Rightarrow> string" where
  "double_quotes q s = concat (map (\<lambda>c. if c = q then [q, q] else [c]) s)"

definition quoted :: "char \<Rightarrow> string \<Rightarrow> string" where
  "quoted q s = [q] @ double_quotes q s @ [q]"

definition quote_documented :: "'v duckdb \<Rightarrow> bool" where
  "quote_documented D \<longleftrightarrow> (\<forall>s q. WriteQuoted D s q = quoted q s)"

definition sql_string_documented :: "'v duckdb \<Rightarrow> bool" where
  "sql_string_documented D \<longleftrightarrow> (\<forall>s. ToSQLString D (StringVal D s) = quoted (CHR 0x27) s)"

text \<open>A value made from a string or a 64-bit integer reads back as such.\<close>

definition values_documented :: "'v duckdb \<Rightarrow> bool" where
  "values_documented D \<longleftrightarrow>
     (\<forall>s. ToString D (StringVal D s) = s) \<and>
     (\<forall>n. - (2 ^ 63) \<le> n \<longrightarrow> n < 2 ^ 63 \<longrightarrow> GetInt64 D (BigintVal D n) = Inr n)"

text \<open>\<open>GetValue<int64_t>\<close> returns a value of that type.\<close>

definition int64_documented :: "'v duckdb \<Rightarrow> bool" where
  "int64_documented D \<longleftrightarrow> (\<forall>v n. GetInt64 D v = Inr n \<longrightarrow> - (2 ^ 63) \<le> n \<and> n < 2 ^ 63)"

text \<open>\<open>STANDARD_VECTOR_SIZE\<close> of DuckDB's default build, an \<open>unsigned\<close> literal.\<close>

definition vector_size_documented :: "'v duckdb \<Rightarrow> bool" where
  "vector_size_documented D \<longleftrightarrow> VectorSize D = 2048"

text \<open>Quoting never merges two names.\<close>

lemma double_quotes_inj: "double_quotes q s = double_quotes q t \<Longrightarrow> s = t"
proof (induction s arbitrary: t)
  case Nil
  then show ?case by (cases t) (auto simp: double_quotes_def split: if_splits)
next
  case (Cons c s)
  then obtain d t' where t: "t = d # t'"
    by (cases t) (auto simp: double_quotes_def split: if_splits)
  with Cons.prems have "c = d \<and> double_quotes q s = double_quotes q t'"
    by (auto simp: double_quotes_def split: if_splits)
  with Cons.IH t show ?case by simp
qed

lemma quoted_inj: "quoted q s = quoted q t \<longleftrightarrow> s = t"
  using double_quotes_inj by (auto simp: quoted_def)

section \<open>A concrete instance\<close>

datatype val = VInt int | VBool bool | VStr string | VTime string | VBlob string | VFloats "val list"

definition split_at :: "char \<Rightarrow> string \<Rightarrow> string list" where
  "split_at d s = foldr (\<lambda>c acc. if c = d then [] # acc else
      (case acc of [] \<Rightarrow> [[c]] | w # ws \<Rightarrow> (c # w) # ws)) s [[]]"

definition trim_spaces :: "string \<Rightarrow> string" where
  "trim_spaces s = rev (dropWhile is_space (rev (dropWhile is_space s)))"

definition val_text :: "val \<Rightarrow> string" where
  "val_text v = (case v of
     VInt n \<Rightarrow> int_to_string n
   | VBool b \<Rightarrow> (if b then ''true'' else ''false'')
   | VStr s \<Rightarrow> s | VTime s \<Rightarrow> s | VBlob s \<Rightarrow> s | VFloats vs \<Rightarrow> ''[]'')"

definition split_documented :: "'v duckdb \<Rightarrow> bool" where
  "split_documented D \<longleftrightarrow> (\<forall>s c. SplitChar D s c = split_at c s)"

definition duckdb_ref :: "val duckdb" where
  "duckdb_ref = \<lparr>
     Upper = map to_upper, Lower = map to_lower, Trim = trim_spaces,
     SplitChar = (\<lambda>s c. split_at c s), SplitString = (\<lambda>s t. split_at (hd t) s),
     Join = join_with,
     StartsWith = (\<lambda>s p. take (length p) s = p), Contains = (\<lambda>s p. has_substr p s),
     Format = printf_text, WriteQuoted = (\<lambda>s q. quoted q s),
     ToString = val_text,
     ToSQLString = (\<lambda>v. case v of VStr s \<Rightarrow> quoted (CHR 0x27) s | _ \<Rightarrow> val_text v),
     GetBool = (\<lambda>v. case v of VBool b \<Rightarrow> Inr b | _ \<Rightarrow> Inl (ConversionException ''bool'')),
     GetInt64 = (\<lambda>v. case v of
        VInt n \<Rightarrow> (if - (2 ^ 63) \<le> n \<and> n < 2 ^ 63 then Inr n
                    else Inl (ConversionException ''int64''))
      | _ \<Rightarrow> Inl (ConversionException ''int64'')),
     StringVal = VStr, BigintVal = VInt,
     TimestampFromString = (\<lambda>s. if length s = 19 then Inr (VTime s)
                                 else Inl (ConversionException ''timestamp'')),
     EpochTimestamp = VTime ''1970-01-01 00:00:00'',
     CastAs = (\<lambda>s t. if s = [] then Inl (ConversionException ''cast'') else Inr (VStr s)),
     ParseDouble = (\<lambda>s. map_sum id VInt (stoll s)),
     ParseFloat = (\<lambda>s. map_sum id VInt (stoll s)),
     FloatList = VFloats, BlobVal = VBlob, BlobGet = val_text,
     TypeOf = (\<lambda>v. case v of VInt _ \<Rightarrow> BIGINT | VBool _ \<Rightarrow> BOOLEAN | VStr _ \<Rightarrow> VARCHAR
       | VTime _ \<Rightarrow> TIMESTAMP | VBlob _ \<Rightarrow> BLOB | VFloats _ \<Rightarrow> LIST FLOAT),
     DefaultSchema = ''main'', VectorSize = 2048,
     EmptyFront = InternalException ''empty vector'' \<rparr>"

lemma duckdb_ref_simps [simp]:
  "Upper duckdb_ref s = map to_upper s" "Lower duckdb_ref s = map to_lower s"
  "Trim duckdb_ref s = trim_spaces s" "SplitChar duckdb_ref s c = split_at c s"
  "SplitString duckdb_ref s p = split_at (hd p) s" "Join duckdb_ref xs sep = join_with xs sep"
  "StartsWith duckdb_ref s p \<longleftrightarrow> take (length p) s = p" "Contains duckdb_ref s p \<longleftrightarrow> has_substr p s"
  "Format duckdb_ref f args = printf_text f args" "WriteQuoted duckdb_ref s q = quoted q s"
  "ToString duckdb_ref v = val_text v" "StringVal duckdb_ref s = VStr s"
  "ToSQLString duckdb_ref (VStr s) = quoted (CHR 0x27) s"
  "BigintVal duckdb_ref n = VInt n" "GetBool duckdb_ref (VBool b) = Inr b"
  "GetInt64 duckdb_ref (VInt n) = (if - (2 ^ 63) \<le> n \<and> n < 2 ^ 63 then Inr n
     else Inl (ConversionException ''int64''))"
  "EpochTimestamp duckdb_ref = VTime ''1970-01-01 00:00:00''"
  "FloatList duckdb_ref vs = VFloats vs" "BlobVal duckdb_ref s = VBlob s" "BlobGet duckdb_ref v = val_text v"
  "DefaultSchema duckdb_ref = ''main''" "VectorSize duckdb_ref = 2048"
  by (simp_all add: duckdb_ref_def)

lemma val_text_simps [simp]:
  "val_text (VStr s) = s" "val_text (VTime s) = s" "val_text (VInt n) = int_to_string n"
  by (simp_all add: val_text_def)

lemmas documented_defs =
  upper_documented_def lower_documented_def starts_with_documented_def contains_documented_def
  join_documented_def format_documented_def quote_documented_def sql_string_documented_def
  values_documented_def int64_documented_def vector_size_documented_def

lemma duckdb_ref_documented:
  "upper_documented duckdb_ref" "lower_documented duckdb_ref"
  "starts_with_documented duckdb_ref" "contains_documented duckdb_ref"
  "join_documented duckdb_ref" "format_documented duckdb_ref"
  "quote_documented duckdb_ref" "sql_string_documented duckdb_ref"
  "values_documented duckdb_ref" "int64_documented duckdb_ref" "vector_size_documented duckdb_ref"
  by (auto simp: documented_defs) (auto simp: duckdb_ref_def split: val.splits if_splits)

end
