(* ===== verification/Secret.thy ===== *)
theory Secret
  imports DuckdbApi OciApi
begin

text \<open>
  Oracle secrets (\<open>oracle_secret.cpp\<close>) and the connection strings they become
  (\<open>ParseOracleConnectionString\<close> of \<open>oracle_connection_manager.cpp\<close>). A DuckDB secret and
  the options of \<open>CREATE SECRET\<close> are functions from a key to the value found for it; the
  environment variable \<open>TNS_ADMIN\<close> is part of the state. The lemmas give the exact language
  that the connection string parser accepts, and from it when a secret survives the trip
  through its connection string.
\<close>

section \<open>Secrets\<close>

record OracleSecretParameters =
  host :: string
  port :: idx_t
  service :: string
  database :: string
  user :: string
  password :: string
  wallet_path :: string

definition default_parameters :: OracleSecretParameters where
  "default_parameters = \<lparr> host = ''localhost'', port = 1521, service = '''', database = '''',
     user = '''', password = '''', wallet_path = '''' \<rparr>"

definition port_message :: string where
  "port_message = ''Oracle secret: PORT must be between 1 and 65535, got %lld''"

definition example_message :: string where
  "example_message = ''Example: CREATE SECRET (TYPE oracle, HOST 'localhost', PORT 1521, SERVICE 'XEPDB1', USER 'scott', PASSWORD 'tiger')''"

text \<open>\<open>auto it = options.find(key); if (it != options.end()) field = it->second.ToString();\<close>\<close>

definition text_or :: "'v duckdb \<Rightarrow> 'v option \<Rightarrow> string \<Rightarrow> string" where
  "text_or D found old = (case found of Some v \<Rightarrow> ToString D v | None \<Rightarrow> old)"

definition ParseOracleSecret ::
  "'v duckdb \<Rightarrow> (string \<Rightarrow> 'v option) \<Rightarrow> exn + OracleSecretParameters" where
  "ParseOracleSecret D options =
     bindE (case options ''port'' of
         Some v \<Rightarrow> bindE (GetInt64 D v) (\<lambda>n.
           if n \<le> 0 \<or> n > 65535
           then Inl (InvalidInputException (Format D port_message [int_to_string n]))
           else Inr (to_idx n))
       | None \<Rightarrow> Inr (port default_parameters)) (\<lambda>n.
     Inr \<lparr> host = text_or D (options ''host'') (host default_parameters),
           port = n,
           service = (if options ''database'' \<noteq> None \<and> text_or D (options ''service'') [] = []
                      then text_or D (options ''database'') []
                      else text_or D (options ''service'') []),
           database = text_or D (options ''database'') [],
           user = text_or D (options ''user'') [],
           password = text_or D (options ''password'') [],
           wallet_path = text_or D (options ''wallet_path'') [] \<rparr>)"

definition ValidateOracleSecret :: "'v duckdb \<Rightarrow> OracleSecretParameters \<Rightarrow> exn + unit" where
  "ValidateOracleSecret D params =
     (if user params = [] then
        Inl (InvalidInputException (''Oracle secret requires USER parameter. '' @ example_message))
      else if service params = [] then
        Inl (InvalidInputException (''Oracle secret requires SERVICE or DATABASE parameter. '' @ example_message))
      else if password params = [] then
        Inl (InvalidInputException (''Oracle secret requires PASSWORD parameter. '' @ example_message))
      else if port params = 0 \<or> port params > 65535 then
        Inl (InvalidInputException (Format D port_message [to_string (unat (port params))]))
      else Inr ())"

text \<open>The parameters that \<open>BuildConnectionStringFromSecret\<close> reads from a stored secret, the
  string it builds, and its effect on the environment.\<close>

definition secret_parameters ::
  "'v duckdb \<Rightarrow> (string \<Rightarrow> 'v option) \<Rightarrow> exn + OracleSecretParameters" where
  "secret_parameters D secret =
     bindE (case secret ''port'' of
         Some v \<Rightarrow> bindE (GetInt64 D v) (\<lambda>n. Inr (to_idx n))
       | None \<Rightarrow> Inr (port default_parameters)) (\<lambda>n.
     Inr \<lparr> host = text_or D (secret ''host'') (host default_parameters),
           port = n,
           service = (if secret ''service'' \<noteq> None then text_or D (secret ''service'') []
                      else text_or D (secret ''database'') []),
           database = [],
           user = text_or D (secret ''user'') [],
           password = text_or D (secret ''password'') [],
           wallet_path = text_or D (secret ''wallet_path'') [] \<rparr>)"

definition connection_string_of :: "OracleSecretParameters \<Rightarrow> string" where
  "connection_string_of params =
     user params @ (if password params \<noteq> [] then ''/'' @ password params else []) @
     ''@'' @ host params @ '':'' @ to_string (unat (port params)) @ ''/'' @ service params"

definition BuildConnectionStringFromSecret ::
  "'v duckdb \<Rightarrow> (string \<Rightarrow> 'v option) \<Rightarrow> (('w, 'z) ocist_scheme, string) cpp" where
  "BuildConnectionStringFromSecret D secret =
     bind (liftE (secret_parameters D secret)) (\<lambda>params.
     bind (liftE (ValidateOracleSecret D params)) (\<lambda>_.
     bind (run_if (wallet_path params \<noteq> [])
             (modify (\<lambda>s. s\<lparr>environ := (environ s)(''TNS_ADMIN'' \<mapsto> wallet_path params)\<rparr>))) (\<lambda>_.
     return (connection_string_of params))))"

record 'v KeyValueSecret =
  secret_map :: "string \<rightharpoonup> 'v"
  redact_keys :: "string set"

definition secret_of_parameters :: "'v duckdb \<Rightarrow> OracleSecretParameters \<Rightarrow> 'v KeyValueSecret" where
  "secret_of_parameters D params =
     (let m = [''host'' \<mapsto> StringVal D (host params), ''port'' \<mapsto> BigintVal D (uint (port params)),
               ''service'' \<mapsto> StringVal D (service params), ''user'' \<mapsto> StringVal D (user params),
               ''password'' \<mapsto> StringVal D (password params)];
          m' = (if wallet_path params \<noteq> []
                then m(''wallet_path'' \<mapsto> StringVal D (wallet_path params)) else m)
      in \<lparr> secret_map = m', redact_keys = {''password''} \<rparr>)"

definition CreateOracleSecretFromConfig ::
  "'v duckdb \<Rightarrow> (string \<Rightarrow> 'v option) \<Rightarrow> exn + 'v KeyValueSecret" where
  "CreateOracleSecretFromConfig D options =
     bindE (ParseOracleSecret D options) (\<lambda>params.
     bindE (ValidateOracleSecret D params) (\<lambda>_.
     Inr (secret_of_parameters D params)))"

section \<open>Connection strings\<close>

definition ParseOracleConnectionString :: "string \<Rightarrow> exn + (string \<times> string \<times> string)" where
  "ParseOracleConnectionString cs =
     (let slash_pos = str_find (CHR ''/'') cs 0;
          at_pos = str_find (CHR ''@'') cs (case slash_pos of None \<Rightarrow> 0 | Some p \<Rightarrow> p)
      in case (slash_pos, at_pos) of
           (Some sl, Some at) \<Rightarrow>
             (if sl = 0 \<or> at \<le> sl + 1 \<or> at = length cs - 1
              then Inl (IOException ''Invalid Oracle connection string. Expected user/password@connect_identifier'')
              else Inr (substr cs 0 sl, substr cs (sl + 1) (at - sl - 1), drop (at + 1) cs))
         | _ \<Rightarrow> Inl (IOException ''Invalid Oracle connection string. Expected user/password@connect_identifier''))"

section \<open>Lemmas\<close>

lemma Validate_ok_iff:
  "ValidateOracleSecret D params = Inr () \<longleftrightarrow>
     user params \<noteq> [] \<and> service params \<noteq> [] \<and> password params \<noteq> [] \<and>
     0 < unat (port params) \<and> unat (port params) \<le> 65535"
proof -
  have "(65535 :: idx_t) < port params \<longleftrightarrow> 65535 < unat (port params)"
    by (simp add: word_less_nat_alt)
  moreover have "port params = 0 \<longleftrightarrow> unat (port params) = 0"
    by (simp add: unat_eq_zero)
  ultimately show ?thesis by (auto simp: ValidateOracleSecret_def)
qed

lemma str_find_split:
  assumes "str_find c s p = Some i"
  shows "s = take p s @ take (i - p) (drop p s) @ c # drop (i + 1) s"
proof -
  from str_find_Some [OF assms] have i: "p \<le> i" "i < length s" "s ! i = c" by auto
  then have "drop i s = c # drop (i + 1) s" using Cons_nth_drop_Suc [of i s] by simp
  moreover have "drop p s = take (i - p) (drop p s) @ drop i s"
    using i(1) by (metis append_take_drop_id drop_drop le_add_diff_inverse2)
  ultimately show ?thesis by (metis append_take_drop_id)
qed

lemma Parse_accepts:
  assumes "u \<noteq> []" "CHR ''/'' \<notin> set u" "p \<noteq> []" "CHR ''@'' \<notin> set p" "d \<noteq> []"
  shows "ParseOracleConnectionString (u @ ''/'' @ p @ ''@'' @ d) = Inr (u, p, d)"
proof -
  let ?cs = "u @ ''/'' @ p @ ''@'' @ d"
  have sl: "str_find (CHR ''/'') ?cs 0 = Some (length u)"
    using assms(2) str_find_here [of "CHR ''/''" u "p @ ''@'' @ d"] by simp
  have "index_of (CHR ''@'') (''/'' @ p @ ''@'' @ d) = Some (Suc (length p))"
    using assms(4) by (simp add: index_of_append index_of_None_iff [THEN iffD2])
  then have at: "str_find (CHR ''@'') ?cs (length u) = Some (length u + Suc (length p))"
    by (simp add: str_find_def)
  from assms sl at show ?thesis
    by (simp add: ParseOracleConnectionString_def substr_def)
qed

lemma Parse_sound:
  assumes "ParseOracleConnectionString cs = Inr (u, p, d)"
  shows "cs = u @ ''/'' @ p @ ''@'' @ d \<and> u \<noteq> [] \<and> CHR ''/'' \<notin> set u \<and> p \<noteq> [] \<and>
    CHR ''@'' \<notin> set p \<and> d \<noteq> []"
proof -
  from assms obtain sl at where sl: "str_find (CHR ''/'') cs 0 = Some sl"
    and at: "str_find (CHR ''@'') cs sl = Some at"
    and g: "sl \<noteq> 0" "\<not> at \<le> sl + 1" "at \<noteq> length cs - 1"
    and res: "u = substr cs 0 sl" "p = substr cs (sl + 1) (at - sl - 1)" "d = drop (at + 1) cs"
    by (auto simp: ParseOracleConnectionString_def Let_def split: option.splits if_splits)
  note s1 = str_find_Some [OF sl] and s2 = str_find_Some [OF at]
  have c1: "cs = u @ CHR ''/'' # drop (sl + 1) cs"
    using str_find_split [OF sl] res(1) by (simp add: substr_def)
  have sld: "drop sl cs = CHR ''/'' # drop (sl + 1) cs"
    using s1 Cons_nth_drop_Suc [of sl cs] by simp
  then have mid: "take (at - sl) (drop sl cs) = CHR ''/'' # p"
    using g(2) res(2) by (simp add: take_Cons' substr_def)
  have "cs = take sl cs @ (CHR ''/'' # p) @ CHR ''@'' # d"
    using str_find_split [OF at] mid res(3) by simp
  moreover have "p \<noteq> []" using g(2) s2 res(2) by (auto simp: substr_def)
  moreover have "CHR ''@'' \<notin> set p" using s2 mid by auto
  moreover have "d \<noteq> []" using g(3) s2 res(3) by auto
  ultimately show ?thesis
    using s1 g(1) res(1) by (auto simp: substr_def)
qed

lemma ParseOracleSecret_port:
  assumes "ParseOracleSecret D options = Inr params"
  shows "0 < unat (port params) \<and> unat (port params) \<le> 65535"
  using assms
  by (auto simp: ParseOracleSecret_def Let_def bindE_Inr_iff default_parameters_def unat_to_idx
      split: option.splits if_splits)

lemma values_documentedD:
  assumes "values_documented D"
  shows "ToString D (StringVal D s) = s"
    and "uint x < 2 ^ 63 \<Longrightarrow> GetInt64 D (BigintVal D (uint x)) = Inr (uint (x :: idx_t))"
proof -
  show "ToString D (StringVal D s) = s" using assms by (simp add: values_documented_def)
  show "uint x < 2 ^ 63 \<Longrightarrow> GetInt64 D (BigintVal D (uint x)) = Inr (uint x)"
    using assms uint_ge_0 [of x] unfolding values_documented_def
    by (metis neg_le_0_iff_le order_trans zero_le_numeral zero_le_power)
qed

lemma stored_parameters:
  assumes D: "values_documented D" and p: "unat (port params) \<le> 65535"
  shows "secret_parameters D (secret_map (secret_of_parameters D params)) = Inr (params\<lparr>database := []\<rparr>)"
proof -
  have "int (unat (port params)) \<le> 65535" using p by linarith
  then have "uint (port params) < 2 ^ 63" by simp
  then show ?thesis
    by (simp add: values_documentedD [OF D] secret_parameters_def secret_of_parameters_def Let_def text_or_def
        default_parameters_def to_idx_def)
qed

lemma Validate_database [simp]:
  "ValidateOracleSecret D (params\<lparr>database := x\<rparr>) = ValidateOracleSecret D params"
  by (simp add: ValidateOracleSecret_def)

lemma connection_string_database [simp]:
  "connection_string_of (params\<lparr>database := x\<rparr>) = connection_string_of params"
  by (simp add: connection_string_of_def)

section \<open>Properties\<close>

definition sample_options :: "string \<rightharpoonup> val" where
  "sample_options = [''user'' \<mapsto> VStr ''scott'', ''password'' \<mapsto> VStr ''tiger'',
     ''database'' \<mapsto> VStr ''FREEPDB1'', ''port'' \<mapsto> VInt 1522]"

definition sample_parameters :: OracleSecretParameters where
  "sample_parameters = default_parameters\<lparr>user := ''scott'', password := ''tiger'',
     service := ''FREEPDB1'', database := ''FREEPDB1'', port := 1522\<rparr>"

lemma sample_create:
  "CreateOracleSecretFromConfig duckdb_ref sample_options
     = Inr (secret_of_parameters duckdb_ref sample_parameters)"
  by (simp add: CreateOracleSecretFromConfig_def ParseOracleSecret_def ValidateOracleSecret_def
      sample_options_def sample_parameters_def default_parameters_def text_or_def Let_def
      duckdb_ref_def val_text_def to_idx_def)

text \<open>C1: The connection string parser accepts exactly the strings \<open>u/p@d\<close> in which the user
  is not empty and has no slash, the password is not empty and has no at sign, and the connect
  identifier is not empty; and it returns these three parts.\<close>

theorem Parse_language:
  "ParseOracleConnectionString cs = Inr (u, p, d) \<longleftrightarrow>
     cs = u @ ''/'' @ p @ ''@'' @ d \<and> u \<noteq> [] \<and> CHR ''/'' \<notin> set u \<and> p \<noteq> [] \<and>
     CHR ''@'' \<notin> set p \<and> d \<noteq> []"
  using Parse_sound [of cs u p d] Parse_accepts [of u p d] by blast

text \<open>C2: The credentials of a valid secret survive the trip through its connection string if
  and only if the user has no slash and the password no at sign: then the parser gives back
  the user, the password and \<open>host:port/service\<close>.\<close>

theorem connection_string_roundtrip:
  assumes "ValidateOracleSecret D params = Inr ()"
  shows "ParseOracleConnectionString (connection_string_of params) =
      Inr (user params, password params,
           host params @ '':'' @ to_string (unat (port params)) @ ''/'' @ service params)
    \<longleftrightarrow> CHR ''/'' \<notin> set (user params) \<and> CHR ''@'' \<notin> set (password params)"
proof -
  let ?d = "host params @ '':'' @ to_string (unat (port params)) @ ''/'' @ service params"
  from assms have ne: "user params \<noteq> []" "password params \<noteq> []" by (simp_all add: Validate_ok_iff)
  then have cs: "connection_string_of params = user params @ ''/'' @ password params @ ''@'' @ ?d"
    by (simp add: connection_string_of_def)
  show ?thesis
  proof
    assume "ParseOracleConnectionString (connection_string_of params) = Inr (user params, password params, ?d)"
    from Parse_sound [OF this] show "CHR ''/'' \<notin> set (user params) \<and> CHR ''@'' \<notin> set (password params)"
      by blast
  next
    assume "CHR ''/'' \<notin> set (user params) \<and> CHR ''@'' \<notin> set (password params)"
    with ne show "ParseOracleConnectionString (connection_string_of params) = Inr (user params, password params, ?d)"
      unfolding cs by (intro Parse_accepts) simp_all
  qed
qed

theorem connection_string_roundtrip_witness:
  "ParseOracleConnectionString (connection_string_of sample_parameters) =
     Inr (''scott'', ''tiger'', ''localhost:'' @ to_string 1522 @ ''/FREEPDB1'')"
proof -
  have "ValidateOracleSecret duckdb_ref sample_parameters = Inr ()"
    by (simp add: ValidateOracleSecret_def sample_parameters_def default_parameters_def)
  from connection_string_roundtrip [OF this] show ?thesis
    by (simp add: sample_parameters_def default_parameters_def)
qed

text \<open>A secret that \<open>CREATE SECRET\<close> accepted never fails when an \<open>ATTACH\<close> turns it into a
  connection string: the string is made of the parameters parsed at creation, which name a
  user, a password, a service (or a database) and a port between 1 and 65535; the only effect
  is to set \<open>TNS_ADMIN\<close> to the wallet path if there is one; and the password is redacted.\<close>

theorem created_secret_builds:
  assumes "values_documented D"
    and "CreateOracleSecretFromConfig D options = Inr sec"
  shows "\<exists>params. ParseOracleSecret D options = Inr params \<and>
      ValidateOracleSecret D params = Inr () \<and>
      BuildConnectionStringFromSecret D (secret_map sec) s =
        (Ret (connection_string_of params),
         if wallet_path params = [] then s
         else s\<lparr>environ := (environ s)(''TNS_ADMIN'' \<mapsto> wallet_path params)\<rparr>) \<and>
      redact_keys sec = {''password''}"
proof -
  from assms(2) obtain params where p: "ParseOracleSecret D options = Inr params"
    and v: "ValidateOracleSecret D params = Inr ()"
    and sec: "sec = secret_of_parameters D params"
    by (auto simp: CreateOracleSecretFromConfig_def bindE_Inr_iff)
  have "secret_parameters D (secret_map sec) = Inr (params\<lparr>database := []\<rparr>)"
    using stored_parameters [OF assms(1)] v unfolding sec by (simp add: Validate_ok_iff)
  then show ?thesis
    using p v sec by (simp add: BuildConnectionStringFromSecret_def run_if_def secret_of_parameters_def Let_def)
qed

theorem created_secret_builds_witness:
  "fst (BuildConnectionStringFromSecret duckdb_ref
     (secret_map (secret_of_parameters duckdb_ref sample_parameters))
     \<lparr>server = (), trace = [], environ = Map.empty\<rparr>) = Ret (connection_string_of sample_parameters)"
proof -
  have "ParseOracleSecret duckdb_ref sample_options = Inr sample_parameters"
    by (simp add: ParseOracleSecret_def sample_options_def sample_parameters_def
        default_parameters_def text_or_def Let_def duckdb_ref_def val_text_def to_idx_def)
  then show ?thesis
    using created_secret_builds [OF duckdb_ref_documented(9) sample_create,
        of "\<lparr>server = (), trace = [], environ = Map.empty\<rparr>"]
    by auto
qed

end
