(* ===== verification/ConnectionContext.thy ===== *)
theory ConnectionContext
  imports OciApi Secret "HOL-Library.Multiset"
begin

text \<open>
  Sessions (\<open>OracleContext\<close>, \<open>oracle_connection_manager.cpp\<close>): the singleton manager and its
  OCI environment, \<open>CreateConnection\<close> and the destructor of \<open>OracleContext\<close>. Objects that the
  code holds by \<open>std::shared_ptr\<close> live in stores indexed by numbers: the contexts here, the
  pools and the connection handles for the next theory. Debug output is not modelled.

  The lemmas account for OCI handles: \<open>allocated\<close> and \<open>freed\<close> read them off the trace, and
  \<open>owned\<close> are those a context is responsible for.
\<close>

section \<open>State\<close>

record OracleContext =
  envhp :: "handle option"
  errhp :: "handle option"
  svchp :: "handle option"
  srvhp :: "handle option"
  authp :: "handle option"
  stmthp :: "handle option"
  connected :: bool
  owns_env :: bool

definition new_context :: OracleContext where
  "new_context = \<lparr> envhp = None, errhp = None, svchp = None, srvhp = None, authp = None,
     stmthp = None, connected = False, owns_env = False \<rparr>"

text \<open>\<open>OracleConnectionPool\<close>: \<open>refs\<close> is the use count of its shared pointer.\<close>

record Pool =
  idle :: "nat list"
  total :: idx_t
  limit :: idx_t
  refs :: nat

record Handle =
  h_pool :: "nat option"
  h_ctx :: nat

text \<open>The process as the connection manager sees it. \<open>mgr_env\<close> is \<open>None\<close> until the static
  instance has been constructed; \<open>pools\<close> is the map from connection strings to pools.\<close>

record 'w mgr = "'w ocist" +
  mgr_env :: "handle option option"
  ctxs :: "nat \<Rightarrow> OracleContext option"
  next_ctx :: nat
  pools :: "(string \<times> nat) list"
  pool_heap :: "nat \<Rightarrow> Pool option"
  next_pool :: nat
  handles :: "(nat \<times> Handle) list"
  next_handle :: nat

definition init_mgr :: "'w \<Rightarrow> 'w mgr" where
  "init_mgr w = \<lparr> server = w, trace = [], environ = Map.empty, mgr_env = None,
     ctxs = (\<lambda>_. None), next_ctx = 0, pools = [], pool_heap = (\<lambda>_. None), next_pool = 0,
     handles = [], next_handle = 0 \<rparr>"

definition invoke :: "'w rt \<Rightarrow> oci_call \<Rightarrow> (('w, 'z) ocist_scheme, unit) cpp" where
  "invoke rt c = bind (call rt c) (\<lambda>_. return ())"

section \<open>The manager instance\<close>

text \<open>\<open>OracleConnectionManager::Instance()\<close>: the constructor runs at the first use; when it
  throws, the next use tries again.\<close>

definition Instance :: "'w rt \<Rightarrow> (('w, 'z) mgr_scheme, handle option) cpp" where
  "Instance rt = bind (gets mgr_env) (\<lambda>m. case m of
     Some env \<Rightarrow> return env
   | None \<Rightarrow> bind (call rt EnvCreate) (\<lambda>r.
       bind (CheckOCIError rt (status r) None ''Failed to create OCI environment'') (\<lambda>_.
       bind (modify (\<lambda>s. s\<lparr>mgr_env := Some (out_handle r)\<rparr>)) (\<lambda>_.
       return (out_handle r)))))"

section \<open>Contexts\<close>

definition put_ctx :: "nat \<Rightarrow> OracleContext \<Rightarrow> (('w, 'z) mgr_scheme, unit) cpp" where
  "put_ctx cid c = modify (\<lambda>s. s\<lparr>ctxs := (ctxs s)(cid \<mapsto> c)\<rparr>)"

definition get_ctx :: "nat \<Rightarrow> (('w, 'z) mgr_scheme, OracleContext) cpp" where
  "get_ctx cid = gets (\<lambda>s. case ctxs s cid of Some c \<Rightarrow> c | None \<Rightarrow> new_context)"

text \<open>The body of \<open>~OracleContext\<close>, then the context is gone.\<close>

definition context_destructor :: "'w rt \<Rightarrow> OracleContext \<Rightarrow> (('w, 'z) ocist_scheme, unit) cpp" where
  "context_destructor rt c =
     bind (run_if (stmthp c \<noteq> None) (invoke rt (HandleFree HTYPE_STMT (stmthp c)))) (\<lambda>_.
     bind (run_if (svchp c \<noteq> None \<and> authp c \<noteq> None \<and> errhp c \<noteq> None)
             (invoke rt (SessionEnd (svchp c) (authp c)))) (\<lambda>_.
     bind (run_if (authp c \<noteq> None) (invoke rt (HandleFree HTYPE_SESSION (authp c)))) (\<lambda>_.
     bind (run_if (svchp c \<noteq> None) (invoke rt (HandleFree HTYPE_SVCCTX (svchp c)))) (\<lambda>_.
     bind (run_if (srvhp c \<noteq> None)
             (bind (run_if (errhp c \<noteq> None) (invoke rt (ServerDetach (srvhp c)))) (\<lambda>_.
              invoke rt (HandleFree HTYPE_SERVER (srvhp c))))) (\<lambda>_.
     bind (run_if (errhp c \<noteq> None) (invoke rt (HandleFree HTYPE_ERROR (errhp c)))) (\<lambda>_.
     run_if (envhp c \<noteq> None \<and> owns_env c) (invoke rt (HandleFree HTYPE_ENV (envhp c)))))))))"

definition destroy_ctx :: "'w rt \<Rightarrow> nat \<Rightarrow> (('w, 'z) mgr_scheme, unit) cpp" where
  "destroy_ctx rt cid =
     bind (get_ctx cid) (\<lambda>c.
     bind (context_destructor rt c) (\<lambda>_.
     modify (\<lambda>s. s\<lparr>ctxs := (ctxs s)(cid := None)\<rparr>)))"

text \<open>\<open>CheckOCIError(OCIHandleAlloc(envhp, &ctx->field, type), ctx->errhp, msg)\<close>\<close>

definition alloc_field ::
  "'w rt \<Rightarrow> nat \<Rightarrow> htype \<Rightarrow> (handle option \<Rightarrow> OracleContext \<Rightarrow> OracleContext) \<Rightarrow> handle option \<Rightarrow> string
    \<Rightarrow> (('w, 'z) mgr_scheme, unit) cpp" where
  "alloc_field rt cid ty upd err msg =
     bind (call rt (HandleAlloc ty)) (\<lambda>r.
     bind (get_ctx cid) (\<lambda>c.
     bind (put_ctx cid (upd (out_handle r) c)) (\<lambda>_.
     CheckOCIError rt (status r) err msg)))"

definition check_call :: "'w rt \<Rightarrow> oci_call \<Rightarrow> handle option \<Rightarrow> string \<Rightarrow> (('w, 'z) ocist_scheme, unit) cpp" where
  "check_call rt c err msg = bind (checked rt c err msg) (\<lambda>_. return ())"

definition nls_sql :: string where
  "nls_sql = ''ALTER SESSION SET NLS_DATE_FORMAT = 'YYYY-MM-DD HH24:MI:SS' NLS_TIMESTAMP_FORMAT = 'YYYY-MM-DD HH24:MI:SS.FF'' @ [CHR 0x27]"

text \<open>The block that sets the date formats: the statement handle is a plain pointer, freed at the
  end of the block only.\<close>

definition nls_setup :: "'w rt \<Rightarrow> OracleContext \<Rightarrow> (('w, 'z) ocist_scheme, unit) cpp" where
  "nls_setup rt c =
     bind (call rt (HandleAlloc HTYPE_STMT)) (\<lambda>r.
     bind (CheckOCIError rt (status r) (errhp c) ''Failed to allocate statement handle for NLS setup'') (\<lambda>_.
     bind (check_call rt (StmtPrepare (out_handle r) nls_sql) (errhp c) ''Failed to prepare NLS setup statement'') (\<lambda>_.
     bind (check_call rt (StmtExecute (svchp c) (out_handle r) 1 OCI_DEFAULT) (errhp c)
             ''Failed to execute NLS setup statement'') (\<lambda>_.
     invoke rt (HandleFree HTYPE_STMT (out_handle r))))))"

text \<open>\<open>CreateConnection\<close> up to the session, the session itself, and what follows it.\<close>

definition attach_server :: "'w rt \<Rightarrow> nat \<Rightarrow> string \<Rightarrow> (('w, 'z) mgr_scheme, unit) cpp" where
  "attach_server rt cid db =
     bind (alloc_field rt cid HTYPE_ERROR (\<lambda>h c. c\<lparr>errhp := h\<rparr>) None
             ''Failed to allocate OCI error handle'') (\<lambda>_.
     bind (get_ctx cid) (\<lambda>c.
     bind (alloc_field rt cid HTYPE_SERVER (\<lambda>h c. c\<lparr>srvhp := h\<rparr>) (errhp c)
             ''Failed to allocate OCI server handle'') (\<lambda>_.
     bind (alloc_field rt cid HTYPE_SVCCTX (\<lambda>h c. c\<lparr>svchp := h\<rparr>) (errhp c)
             ''Failed to allocate OCI service context handle'') (\<lambda>_.
     bind (get_ctx cid) (\<lambda>c.
     bind (invoke rt (AttrSetNum HTYPE_SERVER (srvhp c) ATTR_CALL_TIMEOUT 10000)) (\<lambda>_.
     bind (invoke rt (AttrSetNum HTYPE_SERVER (srvhp c) ATTR_CONN_TIMEOUT 10000)) (\<lambda>_.
     bind (check_call rt (ServerAttach (srvhp c) db) (errhp c) ''Failed to attach to Oracle server'') (\<lambda>_.
     check_call rt (AttrSetPtr HTYPE_SVCCTX (svchp c) ATTR_SERVER (srvhp c)) (errhp c)
       ''Failed to set OCI server on service context''))))))))"

definition begin_session :: "'w rt \<Rightarrow> nat \<Rightarrow> string \<Rightarrow> string \<Rightarrow> (('w, 'z) mgr_scheme, unit) cpp" where
  "begin_session rt cid usr pwd =
     bind (get_ctx cid) (\<lambda>c.
     bind (alloc_field rt cid HTYPE_SESSION (\<lambda>h c. c\<lparr>authp := h\<rparr>) (errhp c)
             ''Failed to allocate OCI session handle'') (\<lambda>_.
     bind (get_ctx cid) (\<lambda>c.
     bind (check_call rt (AttrSetText HTYPE_SESSION (authp c) ATTR_USERNAME usr) (errhp c)
             ''Failed to set OCI username'') (\<lambda>_.
     bind (check_call rt (AttrSetText HTYPE_SESSION (authp c) ATTR_PASSWORD pwd) (errhp c)
             ''Failed to set OCI password'') (\<lambda>_.
     bind (check_call rt (SessionBegin (svchp c) (authp c)) (errhp c) ''Failed to begin OCI session'') (\<lambda>_.
     check_call rt (AttrSetPtr HTYPE_SVCCTX (svchp c) ATTR_SESSION (authp c)) (errhp c)
       ''Failed to set OCI session on service context''))))))"

definition finish_context :: "'w rt \<Rightarrow> nat \<Rightarrow> (('w, 'z) mgr_scheme, unit) cpp" where
  "finish_context rt cid =
     bind (get_ctx cid) (\<lambda>c.
     bind (nls_setup rt c) (\<lambda>_.
     bind (invoke rt (AttrSetNum HTYPE_SVCCTX (svchp c) ATTR_STMTCACHESIZE 0)) (\<lambda>_.
     bind (invoke rt (AttrSetNum HTYPE_SVCCTX (svchp c) ATTR_CALL_TIMEOUT 30000)) (\<lambda>_.
     put_ctx cid (c\<lparr>connected := True\<rparr>)))))"

definition create_body :: "'w rt \<Rightarrow> nat \<Rightarrow> string \<Rightarrow> (('w, 'z) mgr_scheme, unit) cpp" where
  "create_body rt cid connection_string =
     bind (liftE (ParseOracleConnectionString connection_string)) (\<lambda>(usr, pwd, db).
     bind (attach_server rt cid db) (\<lambda>_.
     bind (begin_session rt cid usr pwd) (\<lambda>_.
     finish_context rt cid)))"

text \<open>The new context; when the body throws, its last reference goes and its destructor runs.\<close>

definition make_context :: "handle option \<Rightarrow> (('w, 'z) mgr_scheme, nat) cpp" where
  "make_context env =
     bind (gets next_ctx) (\<lambda>cid.
     bind (modify (\<lambda>s. s\<lparr>next_ctx := Suc cid\<rparr>)) (\<lambda>_.
     bind (put_ctx cid (new_context\<lparr>envhp := env\<rparr>)) (\<lambda>_.
     return cid)))"

definition CreateConnection :: "'w rt \<Rightarrow> handle option \<Rightarrow> string \<Rightarrow> (('w, 'z) mgr_scheme, nat) cpp" where
  "CreateConnection rt env connection_string =
     bind (make_context env) (\<lambda>cid.
     try_catch
       (bind (create_body rt cid connection_string) (\<lambda>_. return cid))
       (\<lambda>e. bind (destroy_ctx rt cid) (\<lambda>_. throw e)))"

section \<open>Accounting for handles\<close>

fun allocated :: "(oci_call \<times> oci_reply) list \<Rightarrow> (htype \<times> handle) multiset" where
  "allocated [] = {#}"
| "allocated ((HandleAlloc ty, r) # tr) =
     (case out_handle r of Some h \<Rightarrow> add_mset (ty, h) (allocated tr) | None \<Rightarrow> allocated tr)"
| "allocated (_ # tr) = allocated tr"

fun freed :: "(oci_call \<times> oci_reply) list \<Rightarrow> (htype \<times> handle) multiset" where
  "freed [] = {#}"
| "freed ((HandleFree ty (Some h), r) # tr) = add_mset (ty, h) (freed tr)"
| "freed (_ # tr) = freed tr"

lemma allocated_append [simp]: "allocated (xs @ ys) = allocated xs + allocated ys"
  by (induction xs rule: allocated.induct) (auto split: option.splits)

lemma freed_append [simp]: "freed (xs @ ys) = freed xs + freed ys"
  by (induction xs rule: freed.induct) auto

definition field_handle :: "htype \<Rightarrow> handle option \<Rightarrow> (htype \<times> handle) multiset" where
  "field_handle ty h = (case h of Some x \<Rightarrow> {#(ty, x)#} | None \<Rightarrow> {#})"

lemma field_handle_simps [simp]: "field_handle ty None = {#}" "field_handle ty (Some h) = {#(ty, h)#}"
  by (simp_all add: field_handle_def)

definition owned :: "OracleContext \<Rightarrow> (htype \<times> handle) multiset" where
  "owned c = field_handle HTYPE_STMT (stmthp c) + field_handle HTYPE_SESSION (authp c) +
     field_handle HTYPE_SVCCTX (svchp c) + field_handle HTYPE_SERVER (srvhp c) +
     field_handle HTYPE_ERROR (errhp c)"

text \<open>The handles allocated and not freed since a first state whose trace was \<open>tr0\<close>.\<close>

definition outstanding ::
  "(oci_call \<times> oci_reply) list \<Rightarrow> (htype \<times> handle) multiset \<Rightarrow> ('w, 'z) ocist_scheme \<Rightarrow> bool" where
  "outstanding tr0 H s \<longleftrightarrow> (\<exists>tr. trace s = tr0 @ tr \<and> allocated tr = freed tr + H)"

lemma outstanding_start: "trace s = tr0 \<Longrightarrow> outstanding tr0 {#} s"
  by (auto simp: outstanding_def)


section \<open>Lemmas\<close>

lemma wp_call:
  "(\<And>r w. Q r (s\<lparr>server := w, trace := trace s @ [(c, r)]\<rparr>)) \<Longrightarrow> wp (call rt c) Q E s"
  by (simp add: wp_def call_run)

definition neutral :: "oci_call \<Rightarrow> bool" where
  "neutral c \<longleftrightarrow> (case c of HandleAlloc _ \<Rightarrow> False | HandleFree _ _ \<Rightarrow> False | _ \<Rightarrow> True)"

lemma neutral_accounts: "neutral c \<Longrightarrow> allocated [(c, r)] = {#} \<and> freed [(c, r)] = {#}"
  by (cases c) (simp_all add: neutral_def)

lemma outstanding_neutral:
  assumes "outstanding tr0 H s" and "neutral c"
  shows "outstanding tr0 H (s\<lparr>server := w, trace := trace s @ [(c, r)]\<rparr>)"
  using assms neutral_accounts [OF assms(2), of r] by (auto simp: outstanding_def)

lemma outstanding_alloc:
  assumes "outstanding tr0 H s"
  shows "outstanding tr0 (H + field_handle ty (out_handle r))
    (s\<lparr>server := w, trace := trace s @ [(HandleAlloc ty, r)]\<rparr>)"
  using assms by (cases "out_handle r") (auto simp: outstanding_def)

lemma outstanding_free:
  assumes "outstanding tr0 (H + field_handle ty h) s"
  shows "outstanding tr0 H (s\<lparr>server := w, trace := trace s @ [(HandleFree ty h, r)]\<rparr>)"
proof -
  from assms obtain tr where "trace s = tr0 @ tr" "allocated tr = freed tr + (H + field_handle ty h)"
    by (auto simp: outstanding_def)
  then show ?thesis
    unfolding outstanding_def by (cases h) (auto intro!: exI [of _ "tr @ [(HandleFree ty h, r)]"])
qed

lemma outstanding_ctxs [simp]:
  "outstanding tr0 H (s\<lparr>ctxs := x\<rparr>) = outstanding tr0 H s"
  "outstanding tr0 H (s\<lparr>next_ctx := n\<rparr>) = outstanding tr0 H s"
  by (simp_all add: outstanding_def)

definition accounts ::
  "(oci_call \<times> oci_reply) list \<Rightarrow> nat \<Rightarrow> OracleContext \<Rightarrow> (htype \<times> handle) multiset
    \<Rightarrow> ('w, 'z) mgr_scheme \<Rightarrow> bool" where
  "accounts tr0 cid c L s \<longleftrightarrow>
     ctxs s cid = Some c \<and> \<not> owns_env c \<and> outstanding tr0 (owned c + L) s"

lemma accounts_neutral:
  "accounts tr0 cid c L s \<Longrightarrow> neutral k \<Longrightarrow>
   accounts tr0 cid c L (s\<lparr>server := w, trace := trace s @ [(k, r)]\<rparr>)"
  by (simp add: accounts_def outstanding_neutral)

lemma wp_get_ctx: "accounts tr0 cid c L s \<Longrightarrow> Q c s \<Longrightarrow> wp (get_ctx cid) Q E s"
  by (simp add: get_ctx_def wp_simps accounts_def)

lemma wp_invoke:
  assumes "accounts tr0 cid c L s" and "neutral k"
    and "\<And>t. accounts tr0 cid c L t \<Longrightarrow> Q () t"
  shows "wp (invoke rt k) Q E s"
  unfolding invoke_def wp_simps
  by (rule wp_call) (rule assms(3), rule accounts_neutral [OF assms(1,2)])

lemma wp_CheckOCIError:
  assumes "I s" and "\<And>s h r w. I s \<Longrightarrow> I (s\<lparr>server := w, trace := trace s @ [(ErrorGet h, r)]\<rparr>)"
    and "ok_status st \<Longrightarrow> Q () s" and "\<And>e t. I t \<Longrightarrow> \<not> ok_status st \<Longrightarrow> E e t"
  shows "wp (CheckOCIError rt st h msg) Q E s"
  using assms
  by (auto simp: CheckOCIError_def wp_simps split: option.split intro!: wp_call)

lemma wp_check_call:
  assumes "accounts tr0 cid c L s" and "neutral k"
    and "\<And>t. accounts tr0 cid c L t \<Longrightarrow> Q () t" and "\<And>e t. accounts tr0 cid c L t \<Longrightarrow> E e t"
  shows "wp (check_call rt k h msg) Q E s"
  unfolding check_call_def checked_def wp_simps
  by (intro wp_call wp_CheckOCIError [where I = "accounts tr0 cid c L"] accounts_neutral assms)
    (simp_all add: neutral_def)

lemma wp_alloc_field:
  assumes acc: "accounts tr0 cid c L s"
    and upd: "\<And>h. owned (upd h c) = owned c + field_handle ty h" "\<And>h. owns_env (upd h c) = owns_env c"
    and Q: "\<And>h t. accounts tr0 cid (upd h c) L t \<Longrightarrow> Q () t"
    and E: "\<And>e h t. accounts tr0 cid (upd h c) L t \<Longrightarrow> E e t"
  shows "wp (alloc_field rt cid ty upd err msg) Q E s"
proof -
  have after: "accounts tr0 cid (upd (out_handle r) c) L
      (s\<lparr>server := w, trace := trace s @ [(HandleAlloc ty, r)], ctxs := (ctxs s)(cid \<mapsto> upd (out_handle r) c)\<rparr>)" for r w
  proof -
    have "outstanding tr0 (owned c + L) s" using acc by (simp add: accounts_def)
    from outstanding_alloc [OF this, of ty r w] show ?thesis
      using acc upd by (simp add: accounts_def ac_simps)
  qed
  have ctx: "ctxs s cid = Some c" using acc by (simp add: accounts_def)
  show ?thesis
    unfolding alloc_field_def wp_simps get_ctx_def put_ctx_def
    by (rule wp_call, simp add: ctx)
      (rule wp_CheckOCIError [where I = "\<lambda>t. accounts tr0 cid (upd _ c) L t"],
        rule after, auto intro: Q [OF after] E accounts_neutral simp: neutral_def)
qed


text \<open>The three parts of \<open>CreateConnection\<close>. Each starts with the fields it fills still null.\<close>

lemma wp_attach_server:
  assumes acc: "accounts tr0 cid c L s" and null: "errhp c = None" "srvhp c = None" "svchp c = None"
    and rest: "authp c = None" "stmthp c = None"
    and Q: "\<And>c t. accounts tr0 cid c L t \<Longrightarrow> authp c = None \<Longrightarrow> stmthp c = None \<Longrightarrow> Q () t"
    and E: "\<And>e c t. accounts tr0 cid c L t \<Longrightarrow> E e t"
  shows "wp (attach_server rt cid db) Q E s"
proof -
  show ?thesis
    unfolding attach_server_def wp_simps
    apply (rule wp_alloc_field [OF acc])
       apply (simp_all add: owned_def null rest E)
    apply (rule wp_get_ctx, assumption)
    apply (rule wp_alloc_field, assumption, simp_all add: owned_def null rest E)
    apply (rule wp_alloc_field, assumption, simp_all add: owned_def null rest E)
    apply (rule wp_get_ctx, assumption)
    apply (rule wp_invoke, assumption, simp add: neutral_def)
    apply (rule wp_invoke, assumption, simp add: neutral_def)
    apply (rule wp_check_call, assumption, simp add: neutral_def)
     apply (rule wp_check_call, assumption, simp add: neutral_def)
      apply (erule Q, simp_all add: null rest E)
    done
qed


lemma wp_begin_session:
  assumes acc: "accounts tr0 cid c L s" and null: "authp c = None" "stmthp c = None"
    and Q: "\<And>c t. accounts tr0 cid c L t \<Longrightarrow> stmthp c = None \<Longrightarrow> Q () t"
    and E: "\<And>e c t. accounts tr0 cid c L t \<Longrightarrow> E e t"
  shows "wp (begin_session rt cid usr pwd) Q E s"
  unfolding begin_session_def wp_simps
  apply (rule wp_get_ctx [OF acc])
  apply (rule wp_alloc_field [OF acc], simp_all add: owned_def null E)
  apply (rule wp_get_ctx, assumption)
  apply (rule wp_check_call, assumption, simp add: neutral_def)+
     apply (erule Q, simp_all add: null E)
  done

lemma wp_nls_setup:
  assumes acc: "accounts tr0 cid c {#} s"
    and Q: "\<And>t. accounts tr0 cid c {#} t \<Longrightarrow> Q () t"
    and E: "\<And>e h t. accounts tr0 cid c (field_handle HTYPE_STMT h) t \<Longrightarrow> E e t"
  shows "wp (nls_setup rt c) Q E s"
proof -
  have alloc: "accounts tr0 cid c (field_handle HTYPE_STMT (out_handle r))
      (s\<lparr>server := w, trace := trace s @ [(HandleAlloc HTYPE_STMT, r)]\<rparr>)" for r w
    using acc outstanding_alloc [of tr0 "owned c" s HTYPE_STMT r w] by (simp add: accounts_def)
  have free: "accounts tr0 cid c {#} (t\<lparr>server := w, trace := trace t @ [(HandleFree HTYPE_STMT h, r)]\<rparr>)"
    if "accounts tr0 cid c (field_handle HTYPE_STMT h) t" for t :: "('a, 'b) mgr_scheme" and h r w
    using that outstanding_free [of tr0 "owned c" HTYPE_STMT h t r w] by (simp add: accounts_def)
  show ?thesis
    unfolding nls_setup_def invoke_def wp_simps
    apply (rule wp_call)
    subgoal for r w
      apply (rule wp_CheckOCIError [where I = "accounts tr0 cid c (field_handle HTYPE_STMT (out_handle r))"])
         apply (rule alloc)
        apply (erule accounts_neutral, simp add: neutral_def)
       apply (rule wp_check_call [OF alloc], simp add: neutral_def)
        apply (rule wp_check_call, assumption, simp add: neutral_def)
         apply (rule wp_call, rule Q, erule free)
        apply (erule E)+
      done
    done
qed

lemma wp_finish_context:
  assumes acc: "accounts tr0 cid c {#} s" and null: "stmthp c = None"
    and Q: "\<And>c t. accounts tr0 cid c {#} t \<Longrightarrow> stmthp c = None \<Longrightarrow> connected c \<Longrightarrow> Q () t"
    and E: "\<And>e c h t. accounts tr0 cid c (field_handle HTYPE_STMT h) t \<Longrightarrow> E e t"
  shows "wp (finish_context rt cid) Q E s"
  unfolding finish_context_def wp_simps
  apply (rule wp_get_ctx [OF acc])
  apply (rule wp_nls_setup [OF acc])
   apply (rule wp_invoke, assumption, simp add: neutral_def)+
   apply (simp add: put_ctx_def wp_simps)
   apply (rule Q [of "c\<lparr>connected := True\<rparr>"])
     apply (auto simp: accounts_def owned_def null)[3]
  apply (erule E)
  done

lemma wp_create_body:
  assumes acc: "accounts tr0 cid c {#} s"
    and null: "errhp c = None" "srvhp c = None" "svchp c = None" "authp c = None" "stmthp c = None"
    and Q: "\<And>c t. accounts tr0 cid c {#} t \<Longrightarrow> stmthp c = None \<Longrightarrow> connected c \<Longrightarrow> Q () t"
    and E: "\<And>e c h t. accounts tr0 cid c (field_handle HTYPE_STMT h) t \<Longrightarrow> E e t"
  shows "wp (create_body rt cid cs) Q E s"
proof -
  have E0: "\<And>e c t. accounts tr0 cid c {#} t \<Longrightarrow> E e t"
    using E [where h = None] by simp
  show ?thesis
    unfolding create_body_def wp_simps
    apply (auto split: sum.split simp: wp_simps intro: E0 [OF acc])
    apply (rule wp_attach_server [OF acc null])
     apply (simp only: wp_simps)
     apply (rule wp_begin_session, assumption+)
      apply (rule wp_finish_context, assumption+)
       apply (erule (2) Q)
      apply (erule E)
     apply (erule E0)+
    done
qed

text \<open>The destructor frees exactly what the context owns.\<close>

lemma wp_free:
  assumes "outstanding tr0 (H + field_handle ty h) s"
    and "\<And>w r. outstanding tr0 H (s\<lparr>server := w, trace := trace s @ [(HandleFree ty h, r)]\<rparr>) \<Longrightarrow>
      Q () (s\<lparr>server := w, trace := trace s @ [(HandleFree ty h, r)]\<rparr>)"
  shows "wp (invoke rt (HandleFree ty h)) Q E s"
  unfolding invoke_def wp_simps by (rule wp_call) (intro assms(2) outstanding_free assms(1))

lemma wp_free_if:
  assumes "outstanding tr0 (H + field_handle ty h) s" and "\<And>t. outstanding tr0 H t \<Longrightarrow> Q () t"
  shows "wp (run_if (h \<noteq> None) (invoke rt (HandleFree ty h))) Q E s"
  using assms by (cases h) (auto simp: wp_simps intro: wp_free)

lemma wp_invoke_neutral:
  assumes "outstanding tr0 H s" and "neutral k" and "\<And>t. outstanding tr0 H t \<Longrightarrow> Q () t"
  shows "wp (invoke rt k) Q E s"
  unfolding invoke_def wp_simps by (rule wp_call) (rule assms(3), rule outstanding_neutral [OF assms(1,2)])

lemma wp_neutral_if:
  assumes "outstanding tr0 H s" and "neutral k" and "\<And>t. outstanding tr0 H t \<Longrightarrow> Q () t"
  shows "wp (run_if b (invoke rt k)) Q E s"
  using assms by (auto simp: wp_simps intro: wp_invoke_neutral)

lemma wp_server_free:
  assumes "outstanding tr0 (H + field_handle HTYPE_SERVER h) s" and "\<And>t. outstanding tr0 H t \<Longrightarrow> Q () t"
  shows "wp (run_if (h \<noteq> None) (bind (run_if b (invoke rt (ServerDetach h))) (\<lambda>_.
    invoke rt (HandleFree HTYPE_SERVER h)))) Q E s"
proof (cases h)
  case (Some x)
  show ?thesis
    unfolding wp_simps using assms
    by (auto simp: Some neutral_def intro!: wp_invoke_neutral [where H = "H + field_handle HTYPE_SERVER h"] wp_free)
qed (use assms in \<open>simp add: wp_simps\<close>)

lemma wp_context_destructor:
  assumes "outstanding tr0 (owned c + L) s" and "\<not> owns_env c" and "\<And>t. outstanding tr0 L t \<Longrightarrow> Q () t"
  shows "wp (context_destructor rt c) Q E s"
proof -
  have "outstanding tr0 (L + field_handle HTYPE_ERROR (errhp c) + field_handle HTYPE_SERVER (srvhp c) +
      field_handle HTYPE_SVCCTX (svchp c) + field_handle HTYPE_SESSION (authp c) +
      field_handle HTYPE_STMT (stmthp c)) s"
    using assms(1) by (simp add: owned_def ac_simps)
  then show ?thesis
    unfolding context_destructor_def wp_bind
    apply (rule wp_free_if)
    apply (rule wp_neutral_if, assumption, simp add: neutral_def)
    apply (rule wp_free_if, assumption)+
    apply (rule wp_server_free, assumption)
    apply (rule wp_free_if, assumption)
    apply (simp add: wp_simps assms)
    done
qed

lemma wp_destroy_ctx:
  assumes "accounts tr0 cid c L s" and "\<And>t. outstanding tr0 L t \<Longrightarrow> ctxs t cid = None \<Longrightarrow> Q () t"
  shows "wp (destroy_ctx rt cid) Q E s"
  unfolding destroy_ctx_def wp_simps
  using assms by (auto simp: accounts_def get_ctx_def wp_simps intro!: wp_context_destructor)

section \<open>Properties\<close>

lemma wp_CreateConnection:
  "wp (CreateConnection rt env cs)
      (\<lambda>cid t. \<exists>c. ctxs t cid = Some c \<and> connected c \<and> stmthp c = None \<and> outstanding (trace s) (owned c) t)
      (\<lambda>e t. ctxs t (next_ctx s) = None \<and> (\<exists>h. outstanding (trace s) (field_handle HTYPE_STMT h) t)) s"
proof -
  let ?c = "new_context\<lparr>envhp := env\<rparr>"
  let ?s = "s\<lparr>next_ctx := Suc (next_ctx s), ctxs := (ctxs s)(next_ctx s \<mapsto> ?c)\<rparr>"
  have acc: "accounts (trace s) (next_ctx s) ?c {#} ?s"
    by (simp add: accounts_def owned_def new_context_def outstanding_start)
  show ?thesis
    unfolding CreateConnection_def make_context_def put_ctx_def wp_simps
  proof (rule wp_create_body)
    show "accounts (trace s) (next_ctx s) ?c {#}
      (s\<lparr>next_ctx := Suc (next_ctx s), ctxs := (ctxs (s\<lparr>next_ctx := Suc (next_ctx s)\<rparr>))(next_ctx s \<mapsto> ?c)\<rparr>)"
      using acc by simp
  qed (auto simp: new_context_def accounts_def wp_simps intro!: wp_destroy_ctx)
qed

text \<open>\<open>CreateConnection\<close> touches nothing but the client library and its own context.\<close>

definition ctx_only :: "nat \<Rightarrow> ('w, 'z) mgr_scheme \<Rightarrow> ('w, 'z) mgr_scheme \<Rightarrow> bool" where
  "ctx_only cid s t \<longleftrightarrow> (\<exists>w tr cs. t = s\<lparr>server := w, trace := tr, ctxs := cs\<rparr> \<and>
     (\<forall>x. x \<noteq> cid \<longrightarrow> cs x = ctxs s x))"

interpretation ctx_only: state_preorder "ctx_only cid" for cid
proof
  show "ctx_only cid s s" for s :: "('w, 'z) mgr_scheme"
    unfolding ctx_only_def by (intro exI [of _ "server s"] exI [of _ "trace s"] exI [of _ "ctxs s"]) simp
  show "ctx_only cid s t \<Longrightarrow> ctx_only cid t u \<Longrightarrow> ctx_only cid s u" for s t u :: "('w, 'z) mgr_scheme"
    unfolding ctx_only_def by (elim exE conjE) (rule exI, rule exI, rule exI, rule conjI, simp, simp)
qed

lemma only_oci_ctx_only: "moves only_oci m \<Longrightarrow> moves (ctx_only cid) m"
proof (rule movesI)
  fix s r and t :: "('a, 'b) mgr_scheme"
  assume "moves only_oci m" and "m s = (r, t)"
  then obtain w tr where "t = s\<lparr>server := w, trace := tr\<rparr>" by (auto simp: only_oci_def dest!: movesD)
  then show "ctx_only cid s t"
    unfolding ctx_only_def by (intro exI [of _ w] exI [of _ tr] exI [of _ "ctxs s"]) simp
qed

lemma ctx_only_upd: "ctx_only cid s (s\<lparr>ctxs := (ctxs s)(cid := c)\<rparr>)"
  unfolding ctx_only_def
  by (intro exI [of _ "server s"] exI [of _ "trace s"] exI [of _ "(ctxs s)(cid := c)"]) simp

lemma ctx_only_put: "moves (ctx_only cid) (put_ctx cid c)"
  unfolding put_ctx_def by (rule ctx_only.moves_modify) (rule ctx_only_upd)

lemma invoke_moves [moves_intros]:
  "moves only_oci (invoke rt c)" "moves only_oci (check_call rt c h msg)"
  by (auto simp: invoke_def check_call_def intro: call_moves checked_moves)

lemma context_destructor_moves [moves_intros]: "moves only_oci (context_destructor rt c)"
  unfolding context_destructor_def by (intro only_oci.moves_bind only_oci.moves_run_if moves_intros)

lemma nls_setup_moves: "moves only_oci (nls_setup rt c)"
  unfolding nls_setup_def by (intro only_oci.moves_bind moves_intros)

lemma alloc_field_moves: "moves (ctx_only cid) (alloc_field rt cid ty upd err msg)"
  unfolding alloc_field_def get_ctx_def
  by (intro ctx_only.moves_bind ctx_only.moves_gets ctx_only_put only_oci_ctx_only call_moves CheckOCIError_moves)

lemma get_ctx_moves: "moves (ctx_only cid) (get_ctx cid)"
  unfolding get_ctx_def by (rule ctx_only.moves_gets)

lemma attach_server_moves: "moves (ctx_only cid) (attach_server rt cid db)"
  unfolding attach_server_def
  by (intro ctx_only.moves_bind get_ctx_moves alloc_field_moves only_oci_ctx_only invoke_moves)

lemma begin_session_moves: "moves (ctx_only cid) (begin_session rt cid usr pwd)"
  unfolding begin_session_def
  by (intro ctx_only.moves_bind get_ctx_moves alloc_field_moves only_oci_ctx_only invoke_moves)

lemma finish_context_moves: "moves (ctx_only cid) (finish_context rt cid)"
  unfolding finish_context_def
  by (intro ctx_only.moves_bind get_ctx_moves ctx_only_put only_oci_ctx_only invoke_moves nls_setup_moves)

lemma create_body_moves: "moves (ctx_only cid) (create_body rt cid cs)"
  unfolding create_body_def
  by (rule ctx_only.moves_bind [OF ctx_only.moves_liftE])
    (auto intro: ctx_only.moves_bind attach_server_moves begin_session_moves finish_context_moves)

lemma destroy_ctx_moves: "moves (ctx_only cid) (destroy_ctx rt cid)"
  unfolding destroy_ctx_def
  by (intro ctx_only.moves_bind get_ctx_moves only_oci_ctx_only [OF context_destructor_moves]
      ctx_only.moves_modify ctx_only_upd)

text \<open>Destructors neither throw nor block.\<close>

lemma invoke_run: "\<exists>t. invoke rt k s = (Ret (), t)"
  by (simp add: invoke_def bind_def call_run)

lemma run_if_run: "(\<exists>t. m s = (Ret (), t)) \<Longrightarrow> \<exists>t. run_if b m s = (Ret (), t)"
  by (simp add: run_if_def)

lemma bind_run: "\<exists>t. m s = (Ret (), t) \<Longrightarrow> (\<And>t. \<exists>u. f () t = (Ret (), u)) \<Longrightarrow> \<exists>u. bind m f s = (Ret (), u)"
  by (auto simp: bind_def)

lemma context_destructor_run: "\<exists>t. context_destructor rt c s = (Ret (), t)"
  unfolding context_destructor_def by (intro bind_run run_if_run invoke_run)

lemma destroy_ctx_run:
  "\<exists>w tr. destroy_ctx rt cid s = (Ret (), s\<lparr>server := w, trace := tr, ctxs := (ctxs s)(cid := None)\<rparr>)"
proof -
  define c where "c = (case ctxs s cid of Some c \<Rightarrow> c | None \<Rightarrow> new_context)"
  obtain t where t: "context_destructor rt c s = (Ret (), t)" using context_destructor_run by blast
  then obtain w tr where "t = s\<lparr>server := w, trace := tr\<rparr>"
    using movesD [OF context_destructor_moves(1) t] by (auto simp: only_oci_def)
  then have "destroy_ctx rt cid s = (Ret (), s\<lparr>server := w, trace := tr, ctxs := (ctxs s)(cid := None)\<rparr>)"
    using t by (simp add: destroy_ctx_def get_ctx_def c_def bind_Ret)
  then show ?thesis by blast
qed

lemma CreateConnection_frame:
  assumes "CreateConnection rt env cs s = (r, t)"
  shows "ctx_only (next_ctx s) (s\<lparr>next_ctx := Suc (next_ctx s)\<rparr>) t"
    and "r = Ret cid \<Longrightarrow> cid = next_ctx s"
proof -
  let ?c = "next_ctx s"
  let ?s = "s\<lparr>next_ctx := Suc ?c, ctxs := (ctxs s)(?c \<mapsto> new_context\<lparr>envhp := env\<rparr>)\<rparr>"
  let ?m = "try_catch (bind (create_body rt ?c cs) (\<lambda>_. return ?c))
      (\<lambda>e. bind (destroy_ctx rt ?c) (\<lambda>_. throw e))"
  have run: "?m ?s = (r, t)"
    using assms by (simp add: CreateConnection_def make_context_def put_ctx_def bind_def)
  have "moves (ctx_only ?c) ?m"
    by (intro ctx_only.moves_try_catch ctx_only.moves_bind create_body_moves destroy_ctx_moves
        ctx_only.moves_return ctx_only.moves_throw)
  with run have "ctx_only ?c ?s t" by (blast dest: movesD)
  moreover have "ctx_only ?c (s\<lparr>next_ctx := Suc ?c\<rparr>) ?s"
    using ctx_only_put [of ?c "new_context\<lparr>envhp := env\<rparr>"]
    by (simp add: moves_def put_ctx_def) (drule spec [of _ "s\<lparr>next_ctx := Suc ?c\<rparr>"], simp)
  ultimately show "ctx_only ?c (s\<lparr>next_ctx := Suc ?c\<rparr>) t" by (blast intro: ctx_only.go_on)
  assume "r = Ret cid"
  with run show "cid = ?c"
    by (auto simp: try_catch_def bind_def split: prod.splits outcome.splits)
qed

lemma put_ctx_ends [intro, simp]: "ends (put_ctx cid c)"
  and get_ctx_ends [intro, simp]: "ends (get_ctx cid)"
  and invoke_ends [intro, simp]: "ends (invoke rt k)"
  and check_call_ends [intro, simp]: "ends (check_call rt k h msg)"
  by (auto simp: put_ctx_def get_ctx_def invoke_def check_call_def)

lemma alloc_field_ends [intro, simp]: "ends (alloc_field rt cid ty upd err msg)"
  by (auto simp: alloc_field_def)

lemma destroy_ctx_ends: "ends (destroy_ctx rt cid)"
  by (metis destroy_ctx_run ends_def fst_conv outcome.distinct(3))

lemma create_parts_end [intro, simp]:
  "ends (attach_server rt cid db)" "ends (begin_session rt cid usr pwd)" "ends (finish_context rt cid)"
  by (auto simp: attach_server_def begin_session_def finish_context_def nls_setup_def)

lemma CreateConnection_ends: "ends (CreateConnection rt env cs)"
  by (auto simp: CreateConnection_def make_context_def create_body_def intro: destroy_ctx_ends split: prod.split)

text \<open>With a client library that does not fail, the only error is a malformed connection string.\<close>

lemma put_ctx_returns [intro, simp]: "returns (put_ctx cid c)"
  and get_ctx_returns [intro, simp]: "returns (get_ctx cid)"
  and invoke_returns [intro, simp]: "returns (invoke rt k)"
  by (auto simp: put_ctx_def get_ctx_def invoke_def)

lemma check_call_returns [intro]: "healthy rt \<Longrightarrow> \<not> is_fetch k \<Longrightarrow> returns (check_call rt k h msg)"
  by (auto simp: check_call_def)

lemma alloc_field_returns [intro]: "healthy rt \<Longrightarrow> returns (alloc_field rt cid ty upd err msg)"
  unfolding alloc_field_def by (rule healthy_bind_call) auto

lemma nls_setup_returns [intro]: "healthy rt \<Longrightarrow> returns (nls_setup rt c)"
  unfolding nls_setup_def by (rule healthy_bind_call) auto

lemma CreateConnection_returns:
  "healthy rt \<Longrightarrow> ParseOracleConnectionString cs = Inr x \<Longrightarrow> returns (CreateConnection rt env cs)"
  by (cases x)
    (auto simp: CreateConnection_def make_context_def create_body_def attach_server_def begin_session_def
      finish_context_def)

text \<open>C5: \<open>CreateConnection\<close> accounts for its OCI handles. When it returns, the context is
  connected and the handles allocated and not yet freed are exactly the five it holds (and no statement handle);
  when it throws, at whichever step, its destructor has freed every handle it had, so that at
  most a single statement handle is still allocated.\<close>

theorem CreateConnection_handles:
  "case CreateConnection rt env cs s of
     (Ret cid, t) \<Rightarrow> \<exists>c tr. ctxs t cid = Some c \<and> connected c \<and> stmthp c = None \<and>
       trace t = trace s @ tr \<and> allocated tr = freed tr + owned c
   | (Throw e, t) \<Rightarrow> ctxs t (next_ctx s) = None \<and>
       (\<exists>h tr. trace t = trace s @ tr \<and> allocated tr = freed tr + field_handle HTYPE_STMT h)
   | (Stuck, t) \<Rightarrow> True"
  using wp_CreateConnection [of rt env cs s]
  by (auto simp: wp_def outstanding_def split: prod.splits outcome.splits)

text \<open>C31: That one handle does leak: when the statement that sets the date formats cannot be
  prepared or executed, its handle, which was allocated, is never freed.\<close>

theorem nls_failure_leaks_statement:
  assumes "nls_setup rt c s = (Throw e, t)"
    and "fst (oci rt (HandleAlloc HTYPE_STMT) (server s)) = r" and "ok_status (status r)" and "out_handle r = Some h"
  shows "\<exists>tr. trace t = trace s @ tr \<and> allocated tr = freed tr + {#(HTYPE_STMT, h)#}"
proof -
  let ?I = "outstanding (trace s) {#(HTYPE_STMT, h)#}"
  obtain w where oci: "oci rt (HandleAlloc HTYPE_STMT) (server s) = (r, w)"
    using assms(2) by (metis prod.collapse)
  have start: "?I (s\<lparr>server := w, trace := trace s @ [(HandleAlloc HTYPE_STMT, r)]\<rparr>)"
    using outstanding_alloc [OF outstanding_start [OF refl], of s HTYPE_STMT r w] assms(4) by simp
  have step: "wp (check_call rt k err msg) (\<lambda>_. ?I) (\<lambda>_. ?I) u" if "?I u" "neutral k"
    for k err msg and u :: "('a, 'b) ocist_scheme"
    unfolding check_call_def checked_def wp_simps using that
    by (intro wp_call wp_CheckOCIError [where I = ?I] outstanding_neutral) (simp_all add: neutral_def)
  have "wp (nls_setup rt c) (\<lambda>_ _. True) (\<lambda>_. ?I) s"
    unfolding nls_setup_def wp_simps
    using start assms(3)
    by (auto simp: wp_def [of "call rt _"] call_run oci wp_simps neutral_def invoke_def
        intro!: wp_mono [OF step] wp_call)
  from wp_ThrowD [OF this assms(1)] show ?thesis by (simp add: outstanding_def)
qed

theorem nls_failure_leaks_statement_witness:
  "\<exists>tr. trace (snd (nls_setup (sample_rt (\<lambda>c. c = StmtExecute None (Some 0) 1 OCI_DEFAULT)) new_context
      \<lparr>server = 0, trace = [], environ = Map.empty\<rparr>)) = tr \<and> allocated tr = freed tr + {#(HTYPE_STMT, 0)#}"
proof -
  let ?rt = "sample_rt (\<lambda>c. c = StmtExecute None (Some 0) 1 OCI_DEFAULT)"
  let ?s = "\<lparr>server = 0, trace = [], environ = Map.empty\<rparr>"
  obtain r t where run: "nls_setup ?rt new_context ?s = (r, t)" by fastforce
  have "fst (nls_setup ?rt new_context ?s) =
      Throw (IOException ''Failed to execute NLS setup statement: (No Error Handle)'')"
    by (simp add: nls_setup_def check_call_def checked_def CheckOCIError_def invoke_def bind_def call_run
        new_context_def)
  with run have run': "nls_setup ?rt new_context ?s =
      (Throw (IOException ''Failed to execute NLS setup statement: (No Error Handle)''), t)" by simp
  from nls_failure_leaks_statement [OF run' refl] show ?thesis
    unfolding run' by simp
qed

end
