(* ===== verification/Settings.thy ===== *)
theory Settings
  imports DuckdbApi "HOL-Library.Multiset"
begin

text \<open>
  The settings of the extension: the structure \<open>OracleSettings\<close> with its defaults, the
  options of \<open>ATTACH\<close> (\<open>OracleCatalogState::ApplyOptions\<close>), the session settings
  (\<open>GetOracleSettings\<close>) and the options that \<open>OracleExtension::Load\<close> registers. The map
  of \<open>ATTACH\<close> options is the list of its entries in the order in which the code visits
  them; \<open>TryGetCurrentSetting\<close> is a function from the name to the value, if there is one.
\<close>

section \<open>The settings\<close>

record OracleSettings =
  enable_pushdown :: bool
  prefetch_rows :: idx_t
  prefetch_memory :: idx_t
  array_size :: idx_t
  connection_cache :: bool
  connection_limit :: idx_t
  debug_show_queries :: bool
  lazy_schema_loading :: bool
  metadata_object_types :: string
  metadata_result_limit :: idx_t
  use_current_schema :: bool
  try_native_lobs :: bool
  lob_max_size :: idx_t
  vector_to_list :: bool
  enable_type_conversion :: bool
  enable_spatial_types :: bool

definition default_settings :: OracleSettings where
  "default_settings = \<lparr>
     enable_pushdown = True, prefetch_rows = 200, prefetch_memory = 0, array_size = 256,
     connection_cache = True, connection_limit = 8, debug_show_queries = False,
     lazy_schema_loading = True,
     metadata_object_types = ''TABLE,VIEW,SYNONYM,MATERIALIZED VIEW'',
     metadata_result_limit = 10000, use_current_schema = True,
     try_native_lobs = True, lob_max_size = 33554432, vector_to_list = True,
     enable_type_conversion = True, enable_spatial_types = True \<rparr>"

text \<open>The two ways a 64-bit option becomes an \<open>idx_t\<close>: \<open>MaxValue<idx_t>(1, (idx_t)val)\<close>, and
  \<open>val <= 0 ? 0 : (idx_t)val\<close>.\<close>

definition at_least_one :: "int \<Rightarrow> idx_t" where
  "at_least_one v = max_one (to_idx v)"

definition zero_if_negative :: "int \<Rightarrow> idx_t" where
  "zero_if_negative v = (if v \<le> 0 then 0 else to_idx v)"

section \<open>ATTACH options\<close>

definition set_bool :: "'v duckdb \<Rightarrow> 'v \<Rightarrow> (bool \<Rightarrow> OracleSettings \<Rightarrow> OracleSettings) \<Rightarrow> (OracleSettings, unit) cpp" where
  "set_bool D v upd = bind (liftE (GetBool D v)) (\<lambda>b. modify (upd b))"

definition set_int :: "'v duckdb \<Rightarrow> 'v \<Rightarrow> (int \<Rightarrow> OracleSettings \<Rightarrow> OracleSettings) \<Rightarrow> (OracleSettings, unit) cpp" where
  "set_int D v upd = bind (liftE (GetInt64 D v)) (\<lambda>n. modify (upd n))"

definition apply_option :: "'v duckdb \<Rightarrow> string \<times> 'v \<Rightarrow> (OracleSettings, unit) cpp" where
  "apply_option D entry = (case entry of (name, v) \<Rightarrow>
     let key = Lower D name in
     if key = ''enable_pushdown'' then set_bool D v (\<lambda>b s. s\<lparr>enable_pushdown := b\<rparr>)
     else if key = ''prefetch_rows'' then set_int D v (\<lambda>n s. s\<lparr>prefetch_rows := at_least_one n\<rparr>)
     else if key = ''prefetch_memory'' then set_int D v (\<lambda>n s. s\<lparr>prefetch_memory := zero_if_negative n\<rparr>)
     else if key = ''array_size'' then set_int D v (\<lambda>n s. s\<lparr>array_size := at_least_one n\<rparr>)
     else if key = ''connection_cache'' then set_bool D v (\<lambda>b s. s\<lparr>connection_cache := b\<rparr>)
     else if key = ''connection_limit'' then set_int D v (\<lambda>n s. s\<lparr>connection_limit := at_least_one n\<rparr>)
     else if key = ''debug_show_queries'' then set_bool D v (\<lambda>b s. s\<lparr>debug_show_queries := b\<rparr>)
     else if key = ''lazy_schema_loading'' then set_bool D v (\<lambda>b s. s\<lparr>lazy_schema_loading := b\<rparr>)
     else if key = ''metadata_object_types'' then modify (\<lambda>s. s\<lparr>metadata_object_types := ToString D v\<rparr>)
     else if key = ''metadata_result_limit'' then set_int D v (\<lambda>n s. s\<lparr>metadata_result_limit := zero_if_negative n\<rparr>)
     else if key = ''use_current_schema'' then set_bool D v (\<lambda>b s. s\<lparr>use_current_schema := b\<rparr>)
     else if key = ''try_native_lobs'' then set_bool D v (\<lambda>b s. s\<lparr>try_native_lobs := b\<rparr>)
     else if key = ''lob_max_size'' then set_int D v (\<lambda>n s. s\<lparr>lob_max_size := zero_if_negative n\<rparr>)
     else if key = ''vector_to_list'' then set_bool D v (\<lambda>b s. s\<lparr>vector_to_list := b\<rparr>)
     else if key = ''enable_type_conversion'' then set_bool D v (\<lambda>b s. s\<lparr>enable_type_conversion := b\<rparr>)
     else if key = ''enable_spatial_types'' then set_bool D v (\<lambda>b s. s\<lparr>enable_spatial_types := b\<rparr>)
     else return ())"

definition ApplyOptions :: "'v duckdb \<Rightarrow> (string \<times> 'v) list \<Rightarrow> (OracleSettings, unit) cpp" where
  "ApplyOptions D options = for_each options (apply_option D)"

section \<open>Session settings\<close>

definition read_bool ::
  "'v duckdb \<Rightarrow> (string \<Rightarrow> 'v option) \<Rightarrow> string \<Rightarrow> (bool \<Rightarrow> OracleSettings \<Rightarrow> OracleSettings)
    \<Rightarrow> OracleSettings \<Rightarrow> exn + OracleSettings" where
  "read_bool D setting name upd s = (case setting name of
     None \<Rightarrow> Inr s | Some v \<Rightarrow> bindE (GetBool D v) (\<lambda>b. Inr (upd b s)))"

definition read_int ::
  "'v duckdb \<Rightarrow> (string \<Rightarrow> 'v option) \<Rightarrow> string \<Rightarrow> (int \<Rightarrow> OracleSettings \<Rightarrow> OracleSettings)
    \<Rightarrow> OracleSettings \<Rightarrow> exn + OracleSettings" where
  "read_int D setting name upd s = (case setting name of
     None \<Rightarrow> Inr s | Some v \<Rightarrow> bindE (GetInt64 D v) (\<lambda>n. Inr (upd n s)))"

definition read_text ::
  "'v duckdb \<Rightarrow> (string \<Rightarrow> 'v option) \<Rightarrow> string \<Rightarrow> (string \<Rightarrow> OracleSettings \<Rightarrow> OracleSettings)
    \<Rightarrow> OracleSettings \<Rightarrow> exn + OracleSettings" where
  "read_text D setting name upd s = (case setting name of
     None \<Rightarrow> Inr s | Some v \<Rightarrow> Inr (upd (ToString D v) s))"

text \<open>The twelve blocks of \<open>GetOracleSettings\<close>, run one after the other.\<close>

definition setting_readers ::
  "'v duckdb \<Rightarrow> (string \<Rightarrow> 'v option) \<Rightarrow> (OracleSettings \<Rightarrow> exn + OracleSettings) list" where
  "setting_readers D setting = [
      read_bool D setting ''oracle_enable_pushdown'' (\<lambda>b s. s\<lparr>enable_pushdown := b\<rparr>),
      read_int D setting ''oracle_prefetch_rows'' (\<lambda>n s. s\<lparr>prefetch_rows := at_least_one n\<rparr>),
      read_int D setting ''oracle_prefetch_memory'' (\<lambda>n s. s\<lparr>prefetch_memory := zero_if_negative n\<rparr>),
      read_int D setting ''oracle_array_size'' (\<lambda>n s. s\<lparr>array_size := at_least_one n\<rparr>),
      read_bool D setting ''oracle_connection_cache'' (\<lambda>b s. s\<lparr>connection_cache := b\<rparr>),
      read_int D setting ''oracle_connection_limit'' (\<lambda>n s. s\<lparr>connection_limit := at_least_one n\<rparr>),
      read_bool D setting ''oracle_debug_show_queries'' (\<lambda>b s. s\<lparr>debug_show_queries := b\<rparr>),
      read_bool D setting ''oracle_lazy_schema_loading'' (\<lambda>b s. s\<lparr>lazy_schema_loading := b\<rparr>),
      read_text D setting ''oracle_metadata_object_types'' (\<lambda>t s. s\<lparr>metadata_object_types := t\<rparr>),
      read_int D setting ''oracle_metadata_result_limit'' (\<lambda>n s. s\<lparr>metadata_result_limit := zero_if_negative n\<rparr>),
      read_bool D setting ''oracle_use_current_schema'' (\<lambda>b s. s\<lparr>use_current_schema := b\<rparr>),
      read_bool D setting ''oracle_enable_spatial_types'' (\<lambda>b s. s\<lparr>enable_spatial_types := b\<rparr>)]"

fun run_readers ::
  "(OracleSettings \<Rightarrow> exn + OracleSettings) list \<Rightarrow> OracleSettings \<Rightarrow> exn + OracleSettings" where
  "run_readers [] s = Inr s"
| "run_readers (r # rs) s = bindE (r s) (run_readers rs)"

definition GetOracleSettings ::
  "'v duckdb \<Rightarrow> (string \<Rightarrow> 'v option) \<Rightarrow> OracleSettings option \<Rightarrow> exn + OracleSettings" where
  "GetOracleSettings D setting state =
     run_readers (setting_readers D setting)
       (case state of Some s \<Rightarrow> s | None \<Rightarrow> default_settings)"

text \<open>The options that \<open>OracleExtension::Load\<close> registers, with their types and defaults.\<close>

datatype option_default = BooleanDefault bool | UbigintDefault nat | VarcharDefault string

definition extension_options :: "(string \<times> LogicalType \<times> option_default) list" where
  "extension_options = [
     (''oracle_enable_pushdown'', BOOLEAN, BooleanDefault True),
     (''oracle_prefetch_rows'', UBIGINT, UbigintDefault 1024),
     (''oracle_prefetch_memory'', UBIGINT, UbigintDefault 0),
     (''oracle_array_size'', UBIGINT, UbigintDefault 256),
     (''oracle_connection_cache'', BOOLEAN, BooleanDefault True),
     (''oracle_connection_limit'', UBIGINT, UbigintDefault 8),
     (''oracle_debug_show_queries'', BOOLEAN, BooleanDefault False),
     (''oracle_lazy_schema_loading'', BOOLEAN, BooleanDefault True),
     (''oracle_metadata_object_types'', VARCHAR, VarcharDefault ''TABLE,VIEW,SYNONYM,MATERIALIZED VIEW''),
     (''oracle_metadata_result_limit'', UBIGINT, UbigintDefault 10000),
     (''oracle_use_current_schema'', BOOLEAN, BooleanDefault True),
     (''oracle_enable_spatial_types'', BOOLEAN, BooleanDefault True)]"

section \<open>Lemmas\<close>

lemma at_least_one_pos: "0 < at_least_one v"
  by (simp add: at_least_one_def max_one_pos)

definition settings_ok :: "OracleSettings \<Rightarrow> bool" where
  "settings_ok s \<longleftrightarrow> 0 < prefetch_rows s \<and> 0 < array_size s \<and> 0 < connection_limit s"

lemma settings_ok_default: "settings_ok default_settings"
  by (simp add: settings_ok_def default_settings_def word_gt_0)

definition ok_kept :: "OracleSettings \<Rightarrow> OracleSettings \<Rightarrow> bool" where
  "ok_kept s t \<longleftrightarrow> (settings_ok s \<longrightarrow> settings_ok t)"

interpretation ok_kept: state_preorder ok_kept
  by unfold_locales (auto simp: ok_kept_def)

lemma set_bool_moves: "(\<And>b s. R s (upd b s)) \<Longrightarrow> state_preorder R \<Longrightarrow> moves R (set_bool D v upd)"
  unfolding set_bool_def
  by (intro state_preorder.moves_bind state_preorder.moves_liftE state_preorder.moves_modify) auto

lemma set_int_moves: "(\<And>n s. R s (upd n s)) \<Longrightarrow> state_preorder R \<Longrightarrow> moves R (set_int D v upd)"
  unfolding set_int_def
  by (intro state_preorder.moves_bind state_preorder.moves_liftE state_preorder.moves_modify) auto

lemmas settings_moves =
  set_bool_moves [OF _ ok_kept.state_preorder_axioms]
  set_int_moves [OF _ ok_kept.state_preorder_axioms] ok_kept.moves_modify

lemma apply_option_ok: "moves ok_kept (apply_option D e)"
  unfolding apply_option_def Let_def
  by (cases e)
    (auto intro!: settings_moves simp: ok_kept_def settings_ok_def at_least_one_pos)

lemma ApplyOptions_ok: "moves ok_kept (ApplyOptions D options)"
  unfolding ApplyOptions_def by (intro ok_kept.moves_for_each apply_option_ok)

lemma set_bool_run:
  "set_bool D v upd s = (case GetBool D v of Inl e \<Rightarrow> (Throw e, s) | Inr b \<Rightarrow> (Ret (), upd b s))"
  "set_int D v iupd s = (case GetInt64 D v of Inl e \<Rightarrow> (Throw e, s) | Inr n \<Rightarrow> (Ret (), iupd n s))"
  by (auto simp: set_bool_def set_int_def bind_def split: sum.splits)


text \<open>Each option sets one field, to a value that depends on the option only.\<close>

definition option_key :: "'v duckdb \<Rightarrow> string \<times> 'v \<Rightarrow> string" where
  "option_key D e = Lower D (fst e)"

definition bool_of :: "'v duckdb \<Rightarrow> 'v \<Rightarrow> bool" where
  "bool_of D v = projr (GetBool D v)"

definition int_of_value :: "'v duckdb \<Rightarrow> 'v \<Rightarrow> int" where
  "int_of_value D v = projr (GetInt64 D v)"

definition set_from ::
  "'v duckdb \<Rightarrow> (OracleSettings \<Rightarrow> 'a) \<Rightarrow> string \<Rightarrow> ('v \<Rightarrow> 'a) \<Rightarrow> bool" where
  "set_from D field k value \<longleftrightarrow> (\<forall>e s t. apply_option D e s = (Ret (), t) \<longrightarrow>
     field t = (if option_key D e = k then value (snd e) else field s))"

lemmas set_from_unfold =
  set_from_def option_key_def bool_of_def int_of_value_def apply_option_def Let_def set_bool_run

lemma set_from_fields:
  "set_from D enable_pushdown ''enable_pushdown'' (bool_of D)"
  "set_from D connection_cache ''connection_cache'' (bool_of D)"
  "set_from D debug_show_queries ''debug_show_queries'' (bool_of D)"
  "set_from D lazy_schema_loading ''lazy_schema_loading'' (bool_of D)"
  "set_from D use_current_schema ''use_current_schema'' (bool_of D)"
  "set_from D try_native_lobs ''try_native_lobs'' (bool_of D)"
  "set_from D vector_to_list ''vector_to_list'' (bool_of D)"
  "set_from D enable_type_conversion ''enable_type_conversion'' (bool_of D)"
  "set_from D enable_spatial_types ''enable_spatial_types'' (bool_of D)"
  "set_from D prefetch_rows ''prefetch_rows'' (\<lambda>v. at_least_one (int_of_value D v))"
  "set_from D array_size ''array_size'' (\<lambda>v. at_least_one (int_of_value D v))"
  "set_from D connection_limit ''connection_limit'' (\<lambda>v. at_least_one (int_of_value D v))"
  "set_from D prefetch_memory ''prefetch_memory'' (\<lambda>v. zero_if_negative (int_of_value D v))"
  "set_from D metadata_result_limit ''metadata_result_limit'' (\<lambda>v. zero_if_negative (int_of_value D v))"
  "set_from D lob_max_size ''lob_max_size'' (\<lambda>v. zero_if_negative (int_of_value D v))"
  "set_from D metadata_object_types ''metadata_object_types'' (ToString D)"
  by (auto simp: set_from_unfold split: if_splits sum.splits)

text \<open>The value of an option in a list of options, by its normalised name.\<close>

definition option_value :: "'v duckdb \<Rightarrow> (string \<times> 'v) list \<Rightarrow> string \<Rightarrow> 'v option" where
  "option_value D es k = map_of (map (\<lambda>e. (option_key D e, snd e)) es) k"

definition field_after :: "'a \<Rightarrow> ('v \<Rightarrow> 'a) \<Rightarrow> 'v option \<Rightarrow> 'a" where
  "field_after old value ov = (case ov of None \<Rightarrow> old | Some v \<Rightarrow> value v)"

lemma option_value_notin: "k \<notin> set (map (option_key D) es) \<Longrightarrow> option_value D es k = None"
  by (induction es) (auto simp: option_value_def)

lemma field_after_ApplyOptions:
  assumes "set_from D field k value" and "distinct (map (option_key D) es)"
    and "ApplyOptions D es s = (Ret (), t)"
  shows "field t = field_after (field s) value (option_value D es k)"
  using assms(2,3)
proof (induction es arbitrary: s)
  case Nil
  then show ?case by (simp add: ApplyOptions_def option_value_def field_after_def)
next
  case (Cons e es)
  from Cons.prems(2) obtain u where e: "apply_option D e s = (Ret (), u)"
    and es: "ApplyOptions D es u = (Ret (), t)"
    by (auto simp: ApplyOptions_def bind_Ret_iff)
  from Cons.IH [OF _ es] Cons.prems(1)
  have IH: "field t = field_after (field u) value (option_value D es k)" by simp
  have u: "field u = (if option_key D e = k then value (snd e) else field s)"
    using assms(1) [unfolded set_from_def, rule_format, OF e] .
  show ?case
  proof (cases "option_key D e = k")
    case True
    with Cons.prems(1) have "option_value D es k = None" by (intro option_value_notin) auto
    with IH u True show ?thesis by (simp add: option_value_def field_after_def)
  next
    case False
    with IH u show ?thesis by (simp add: option_value_def field_after_def)
  qed
qed

lemma option_value_perm:
  assumes "mset es = mset fs" and "distinct (map (option_key D) es)"
  shows "option_value D es k = option_value D fs k"
proof -
  let ?p = "\<lambda>e. (option_key D e, snd e)"
  have "mset (map (option_key D) es) = mset (map (option_key D) fs)"
    using assms(1) by simp
  then have "distinct (map (option_key D) fs)"
    using assms(2) by (metis mset_eq_imp_distinct_iff)
  then have d: "distinct (map fst (map ?p es))" "distinct (map fst (map ?p fs))"
    using assms(2) by (simp_all add: comp_def)
  have "set (map ?p es) = set (map ?p fs)"
    using mset_eq_setD [OF assms(1)] by simp
  then show ?thesis
    unfolding option_value_def using d map_of_inject_set [of "map ?p es" "map ?p fs"]
    by simp
qed

text \<open>Whether the options are accepted does not depend on their order either.\<close>

definition option_accepted :: "'v duckdb \<Rightarrow> string \<times> 'v \<Rightarrow> bool" where
  "option_accepted D e \<longleftrightarrow> fst (apply_option D e default_settings) = Ret ()"

lemma apply_option_accepted:
  "option_accepted D e \<longleftrightarrow> (\<exists>t. apply_option D e s = (Ret (), t))"
  by (cases e) (auto simp: option_accepted_def apply_option_def Let_def set_bool_run split: sum.split)

lemma ApplyOptions_accepted:
  "(\<exists>t. ApplyOptions D es s = (Ret (), t)) \<longleftrightarrow> (\<forall>e \<in> set es. option_accepted D e)"
proof (induction es arbitrary: s)
  case (Cons e es)
  have "(\<exists>t. ApplyOptions D (e # es) s = (Ret (), t)) \<longleftrightarrow>
      (\<exists>u. apply_option D e s = (Ret (), u) \<and> (\<exists>t. ApplyOptions D es u = (Ret (), t)))"
    by (auto simp: ApplyOptions_def bind_Ret_iff)
  with Cons.IH apply_option_accepted [of D e s] show ?case by auto
qed (simp add: ApplyOptions_def)

lemma read_Inr_iff:
  "read_bool D setting name bupd s = Inr t \<longleftrightarrow>
     (case setting name of None \<Rightarrow> t = s | Some v \<Rightarrow> (\<exists>b. GetBool D v = Inr b \<and> t = bupd b s))"
  "read_int D setting name iupd s = Inr t \<longleftrightarrow>
     (case setting name of None \<Rightarrow> t = s | Some v \<Rightarrow> (\<exists>n. GetInt64 D v = Inr n \<and> t = iupd n s))"
  "read_text D setting name tupd s = Inr t \<longleftrightarrow>
     (case setting name of None \<Rightarrow> t = s | Some v \<Rightarrow> t = tupd (ToString D v) s)"
  by (auto simp: read_bool_def read_int_def read_text_def bindE_Inr_iff split: option.splits)

lemma run_readers_invariant:
  assumes "\<And>r s t. r \<in> set rs \<Longrightarrow> P s \<Longrightarrow> r s = Inr t \<Longrightarrow> P t"
    and "P s" and "run_readers rs s = Inr t"
  shows "P t"
  using assms
proof (induction rs arbitrary: s)
  case (Cons r rs)
  from Cons.prems(3) obtain u where "r s = Inr u" and u: "run_readers rs u = Inr t"
    by (auto simp: bindE_Inr_iff)
  with Cons.prems(1,2) have "P u" by auto
  from Cons.IH [OF _ this u] Cons.prems(1) show ?case by auto
qed simp

lemma setting_readers_ok:
  "r \<in> set (setting_readers D setting) \<Longrightarrow> settings_ok s \<Longrightarrow> r s = Inr t \<Longrightarrow> settings_ok t"
  unfolding setting_readers_def
  by (auto simp: read_Inr_iff settings_ok_def at_least_one_pos split: option.splits)

lemma read_registered:
  assumes "setting name = Some v"
  shows "read_bool D setting name bupd s = bindE (GetBool D v) (\<lambda>b. Inr (bupd b s))"
    and "read_int D setting name iupd s = bindE (GetInt64 D v) (\<lambda>n. Inr (iupd n s))"
    and "read_text D setting name tupd s = Inr (tupd (ToString D v) s)"
  using assms by (simp_all add: read_bool_def read_int_def read_text_def)

definition all_registered :: "(string \<Rightarrow> 'v option) \<Rightarrow> bool" where
  "all_registered setting \<longleftrightarrow> list_all (\<lambda>(name, _, _). setting name \<noteq> None) extension_options"

definition sample_setting :: "string \<Rightarrow> val option" where
  "sample_setting name = (case map_of extension_options name of
     None \<Rightarrow> None
   | Some (_, BooleanDefault b) \<Rightarrow> Some (VBool b)
   | Some (_, UbigintDefault n) \<Rightarrow> Some (VInt (int n))
   | Some (_, VarcharDefault t) \<Rightarrow> Some (VStr t))"

lemma fields_agree:
  assumes "set_from D field k w" and "mset es = mset fs"
    and "distinct (map (option_key D) es)" and "distinct (map (option_key D) fs)"
    and "ApplyOptions D es s = (Ret (), t)" and "ApplyOptions D fs s = (Ret (), u)"
  shows "field t = field u"
  using field_after_ApplyOptions [OF assms(1,3,5)] field_after_ApplyOptions [OF assms(1,4,6)]
    option_value_perm [OF assms(2,3)] by simp

section \<open>Properties\<close>

text \<open>C29: \<open>ApplyOptions\<close> visits a hash map, so in no fixed order; as long as no two option
  names agree up to case, the order does not matter: any other order accepts the same options
  and ends with the same settings.\<close>

theorem ApplyOptions_order:
  assumes perm: "mset es = mset fs" and dist: "distinct (map (option_key D) es)"
    and run: "ApplyOptions D es s = (Ret (), t)"
  shows "ApplyOptions D fs s = (Ret (), t)"
proof -
  have "\<forall>e \<in> set fs. option_accepted D e"
    using run ApplyOptions_accepted [of D es s] mset_eq_setD [OF perm] by auto
  then obtain u where u: "ApplyOptions D fs s = (Ret (), u)"
    using ApplyOptions_accepted [of D fs s] by blast
  have dist': "distinct (map (option_key D) fs)"
    using dist perm by (metis mset_eq_imp_distinct_iff mset_map)
  have "t = u"
    by (rule OracleSettings.equality)
      (rule set_from_fields [THEN fields_agree, OF perm dist dist' run u] | simp)+
  with u show ?thesis by simp
qed

theorem ApplyOptions_order_witness:
  "ApplyOptions duckdb_ref [(''array_size'', VInt 10), (''Enable_Pushdown'', VBool False)] default_settings
     = (Ret (), default_settings\<lparr>array_size := 10, enable_pushdown := False\<rparr>)"
proof -
  have 1: "mset [(''Enable_Pushdown'', VBool False), (''array_size'', VInt 10)] =
      mset [(''array_size'', VInt 10), (''Enable_Pushdown'', VBool False)]" by simp
  have low: "map to_lower ''Enable_Pushdown'' = ''enable_pushdown''" "map to_lower ''array_size'' = ''array_size''"
    by code_simp+
  have key: "option_key duckdb_ref (''Enable_Pushdown'', v) = ''enable_pushdown''"
    "option_key duckdb_ref (''array_size'', v) = ''array_size''" for v
    by (simp_all only: option_key_def fst_conv duckdb_ref_simps low)
  have 2: "distinct (map (option_key duckdb_ref) [(''Enable_Pushdown'', VBool False), (''array_size'', VInt 10)])"
    by (simp add: key)
  have 3: "ApplyOptions duckdb_ref [(''Enable_Pushdown'', VBool False), (''array_size'', VInt 10)] default_settings
     = (Ret (), default_settings\<lparr>array_size := 10, enable_pushdown := False\<rparr>)"
    by (simp add: ApplyOptions_def apply_option_def Let_def bind_def set_bool_run low
        at_least_one_def max_one_def to_idx_def del: list.map)
  show ?thesis by (rule ApplyOptions_order [OF 1 2 3])
qed

text \<open>C27: Whatever options are given, and even when one of them is rejected half way, the
  settings keep at least one row to prefetch, one row per array and one connection; and what
  \<open>GetOracleSettings\<close> makes of them for a scan keeps this too.\<close>

theorem settings_bounds:
  assumes "settings_ok s"
  shows "settings_ok (snd (ApplyOptions D es s)) \<and>
    (GetOracleSettings D setting (Some (snd (ApplyOptions D es s))) = Inr t \<longrightarrow> settings_ok t)"
proof -
  have 1: "settings_ok (snd (ApplyOptions D es s))"
    using ApplyOptions_ok [of D es] assms by (simp add: moves_def ok_kept_def)
  moreover have "settings_ok t"
    if "GetOracleSettings D setting (Some (snd (ApplyOptions D es s))) = Inr t"
  proof -
    from that have "run_readers (setting_readers D setting) (snd (ApplyOptions D es s)) = Inr t"
      by (simp add: GetOracleSettings_def)
    then show ?thesis
      by (rule run_readers_invariant [where P = settings_ok, OF _ 1, rotated]) (rule setting_readers_ok)
  qed
  ultimately show ?thesis by blast
qed


theorem settings_bounds_witness:
  "settings_ok (snd (ApplyOptions duckdb_ref [(''prefetch_rows'', VInt 0), (''array_size'', VStr ''x'')]
     default_settings))"
  using settings_bounds [OF settings_ok_default] by blast

text \<open>A negative number of rows is not brought up to one: \<open>prefetch_rows\<close> (and the array
  size and the connection limit alike) takes the value modulo 2 to the 64, a huge one, while a
  negative \<open>prefetch_memory\<close> becomes zero.\<close>

theorem negative_rows_wrap:
  assumes "GetInt64 D v = Inr n" and "- (2 ^ 63) \<le> n" and "n < 0" and "Lower D name = ''prefetch_rows''"
  shows "\<exists>t. apply_option D (name, v) s = (Ret (), t) \<and> uint (prefetch_rows t) = 2 ^ 64 + n \<and>
    zero_if_negative n = 0"
proof -
  have w: "uint (to_idx n) = 2 ^ 64 + n"
  proof -
    have "n mod 2 ^ 64 = (n + 2 ^ 64) mod 2 ^ 64" by simp
    also have "\<dots> = n + 2 ^ 64" using assms(2,3) by (intro mod_pos_pos_trivial) simp_all
    finally show ?thesis by (simp add: to_idx_def unsigned_of_int take_bit_eq_mod)
  qed
  then have "1 < to_idx n" using assms(2,3) by (simp add: word_less_def)
  with w assms show ?thesis
    by (simp add: apply_option_def set_bool_run at_least_one_def max_one_def zero_if_negative_def)
qed

theorem negative_rows_wrap_witness:
  "\<exists>t. apply_option duckdb_ref (''prefetch_rows'', VInt (-5)) default_settings = (Ret (), t) \<and>
     uint (prefetch_rows t) = 18446744073709551611"
proof -
  have "map to_lower ''prefetch_rows'' = ''prefetch_rows''" by code_simp
  then show ?thesis
    using negative_rows_wrap [of duckdb_ref "VInt (-5)" "-5" "''prefetch_rows''" default_settings]
    by auto
qed

text \<open>C28: The session settings win over the options of \<open>ATTACH\<close>: DuckDB finds a value for every
  option the extension registered (at least its default), and then \<open>GetOracleSettings\<close> takes from the
  attached database only the four settings that have no session option.\<close>

theorem session_settings_override:
  assumes "all_registered setting"
    and "GetOracleSettings D setting (Some s) = Inr t" and "GetOracleSettings D setting None = Inr u"
  shows "t = u\<lparr>try_native_lobs := try_native_lobs s, lob_max_size := lob_max_size s,
    vector_to_list := vector_to_list s, enable_type_conversion := enable_type_conversion s\<rparr>"
proof -
  from assms(1) obtain v1 v2 v3 v4 v5 v6 v7 v8 v9 v10 v11 v12 where v:
    "setting ''oracle_enable_pushdown'' = Some v1" "setting ''oracle_prefetch_rows'' = Some v2"
    "setting ''oracle_prefetch_memory'' = Some v3" "setting ''oracle_array_size'' = Some v4"
    "setting ''oracle_connection_cache'' = Some v5" "setting ''oracle_connection_limit'' = Some v6"
    "setting ''oracle_debug_show_queries'' = Some v7" "setting ''oracle_lazy_schema_loading'' = Some v8"
    "setting ''oracle_metadata_object_types'' = Some v9"
    "setting ''oracle_metadata_result_limit'' = Some v10"
    "setting ''oracle_use_current_schema'' = Some v11" "setting ''oracle_enable_spatial_types'' = Some v12"
    unfolding all_registered_def extension_options_def by auto
  note r = read_registered [where setting = setting, OF v(1)]
    read_registered [where setting = setting, OF v(2)] read_registered [where setting = setting, OF v(3)]
    read_registered [where setting = setting, OF v(4)] read_registered [where setting = setting, OF v(5)] read_registered [where setting = setting, OF v(6)]
    read_registered [where setting = setting, OF v(7)] read_registered [where setting = setting, OF v(8)] read_registered [where setting = setting, OF v(9)]
    read_registered [where setting = setting, OF v(10)] read_registered [where setting = setting, OF v(11)] read_registered [where setting = setting, OF v(12)]
  show ?thesis
    using assms(2,3)
    by (clarsimp simp: GetOracleSettings_def setting_readers_def r bindE_Inr_iff
        intro!: OracleSettings.equality)
qed

theorem session_settings_override_witness:
  "GetOracleSettings duckdb_ref sample_setting (Some (default_settings\<lparr>prefetch_rows := 10\<rparr>))
     = Inr (default_settings\<lparr>prefetch_rows := 1024\<rparr>)"
proof -
  have reg: "all_registered sample_setting"
    by (simp add: all_registered_def extension_options_def sample_setting_def)
  have run: "GetOracleSettings duckdb_ref sample_setting st = Inr
      ((case st of Some s \<Rightarrow> s | None \<Rightarrow> default_settings)
       \<lparr>enable_pushdown := True, prefetch_rows := 1024, prefetch_memory := 0, array_size := 256,
        connection_cache := True, connection_limit := 8, debug_show_queries := False,
        lazy_schema_loading := True,
        metadata_object_types := ''TABLE,VIEW,SYNONYM,MATERIALIZED VIEW'',
        metadata_result_limit := 10000, use_current_schema := True, enable_spatial_types := True\<rparr>)"
    for st
    by (simp add: GetOracleSettings_def setting_readers_def sample_setting_def extension_options_def
        read_registered at_least_one_def zero_if_negative_def max_one_def to_idx_def)
  show ?thesis
    using session_settings_override [OF reg run run]
    unfolding run by (simp add: default_settings_def)
qed

end
