(* ===== verification/ConnectionPool.thy ===== *)
theory ConnectionPool
  imports ConnectionContext Settings
begin

text \<open>
  The pool of sessions (\<open>OracleConnectionPool\<close>, \<open>OracleConnectionHandle\<close> and
  \<open>OracleConnectionManager::Acquire\<close>, \<open>Clear\<close> in \<open>oracle_connection_manager.cpp\<close>). What the
  code does to a pool under its lock are functions on \<open>Pool\<close>; they are used twice, in the
  operations of one thread on the whole process (\<open>Acquire\<close>, \<open>release_handle\<close>, \<open>Clear\<close>), and
  in \<open>pool_step\<close>, the interleaving of any number of threads on one pool, in which a thread
  may be notified, wake up or time out at any moment. Time is not modelled: in \<open>Acquire\<close>,
  \<open>wakeups\<close> is the number of times the waiting thread wakes before its deadline.

  The locale \<open>slot_pool\<close> is the contract of the pool operations; its lemmas say how the
  number of sessions in use changes, and both uses rest on them.
\<close>

section \<open>Operations under the pool's lock\<close>

datatype slot = Reuse nat | Reserve | Full

definition new_pool :: Pool where
  "new_pool = \<lparr> idle = [], total = 0, limit = 8, refs = 1 \<rparr>"

definition raise_limit :: "idx_t \<Rightarrow> Pool \<Rightarrow> Pool" where
  "raise_limit wanted p = (if wanted > limit p then p\<lparr>limit := wanted\<rparr> else p)"

definition take_slot :: "Pool \<Rightarrow> slot \<times> Pool" where
  "take_slot p =
     (if idle p \<noteq> [] then (Reuse (last (idle p)), p\<lparr>idle := butlast (idle p)\<rparr>)
      else if total p < limit p then (Reserve, p\<lparr>total := total p + 1\<rparr>)
      else (Full, p))"

definition rollback_slot :: "Pool \<Rightarrow> Pool" where
  "rollback_slot p = p\<lparr>total := total p - 1\<rparr>"

definition give_back :: "nat \<Rightarrow> Pool \<Rightarrow> Pool" where
  "give_back cid p = p\<lparr>idle := idle p @ [cid]\<rparr>"

section \<open>The contract of the operations\<close>

text \<open>\<open>free\<close> are the sessions that wait in the pool, \<open>size\<close> counts the sessions and the
  reservations, \<open>cap\<close> is the limit.\<close>

locale slot_pool =
  fixes acquire :: "'p \<Rightarrow> slot \<times> 'p"
    and give :: "nat \<Rightarrow> 'p \<Rightarrow> 'p"
    and undo :: "'p \<Rightarrow> 'p"
    and widen :: "idx_t \<Rightarrow> 'p \<Rightarrow> 'p"
    and free :: "'p \<Rightarrow> nat list"
    and size :: "'p \<Rightarrow> nat"
    and cap :: "'p \<Rightarrow> nat"
  assumes acquire_Reuse: "acquire p = (Reuse c, q) \<Longrightarrow>
      free p = free q @ [c] \<and> size q = size p \<and> cap q = cap p"
    and acquire_Reserve: "acquire p = (Reserve, q) \<Longrightarrow>
      free p = [] \<and> free q = [] \<and> size p < cap p \<and> size q = Suc (size p) \<and> cap q = cap p"
    and acquire_Full: "acquire p = (Full, q) \<Longrightarrow> q = p \<and> free p = [] \<and> cap p \<le> size p"
    and give_back: "free (give c p) = free p @ [c] \<and> size (give c p) = size p \<and> cap (give c p) = cap p"
    and undo: "0 < size p \<Longrightarrow> free (undo p) = free p \<and> Suc (size (undo p)) = size p \<and> cap (undo p) = cap p"
    and widen: "free (widen n p) = free p \<and> size (widen n p) = size p \<and> cap p \<le> cap (widen n p) \<and>
      unat n \<le> cap (widen n p)"
begin

text \<open>The accounts of a pool of which \<open>busy\<close> sessions or reservations are with their users.\<close>

lemma acquire_accounts:
  assumes "acquire p = (sl, q)" and "size p = length (free p) + busy" and "size p \<le> cap p"
  shows "size q = length (free q) + (if sl = Full then busy else Suc busy)" and "size q \<le> cap q"
  using assms acquire_Reuse [of p _ q] acquire_Reserve [of p q] acquire_Full [of p q]
  by (cases sl; auto)+

lemma give_accounts:
  assumes "size p = length (free p) + Suc busy" and "size p \<le> cap p"
  shows "size (give c p) = length (free (give c p)) + busy" and "size (give c p) \<le> cap (give c p)"
  using assms give_back [of c p] by simp_all

lemma undo_accounts:
  assumes "size p = length (free p) + Suc busy" and "size p \<le> cap p"
  shows "size (undo p) = length (free (undo p)) + busy" and "size (undo p) \<le> cap (undo p)"
  using assms undo [of p] by auto

lemma widen_accounts:
  assumes "size p = length (free p) + busy" and "size p \<le> cap p"
  shows "size (widen n p) = length (free (widen n p)) + busy" and "size (widen n p) \<le> cap (widen n p)"
  using assms widen [of n p] by auto

text \<open>A pool turns a thread away only when every session it may have is with a user.\<close>

lemma Full_iff_busy:
  assumes "acquire p = (sl, q)" and "size p = length (free p) + busy" and "size p \<le> cap p"
  shows "sl = Full \<longleftrightarrow> busy = cap p"
  using assms acquire_Reuse [of p _ q] acquire_Reserve [of p q] acquire_Full [of p q]
  by (cases sl) auto

text \<open>How many more sessions the pool could hand out.\<close>

lemma available_changes:
  assumes "size p \<le> cap p"
  shows "acquire p = (Full, q) \<Longrightarrow> length (free q) + (cap q - size q) = 0"
    and "acquire p = (sl, q) \<Longrightarrow> sl \<noteq> Full \<Longrightarrow>
      Suc (length (free q) + (cap q - size q)) = length (free p) + (cap p - size p)"
    and "length (free (give c p)) + (cap (give c p) - size (give c p)) =
      Suc (length (free p) + (cap p - size p))"
    and "0 < size p \<Longrightarrow> length (free (undo p)) + (cap (undo p) - size (undo p)) =
      Suc (length (free p) + (cap p - size p))"
  using assms acquire_Reuse [of p _ q] acquire_Reserve [of p q] acquire_Full [of p q]
    give_back [of c p] undo [of p]
  by (auto, cases sl, auto)

text \<open>The sessions themselves: taking and giving back neither loses nor doubles one.\<close>

lemma acquire_sessions: "acquire p = (Reuse c, q) \<Longrightarrow> mset (free p) = add_mset c (mset (free q))"
  using acquire_Reuse [of p c q] by simp

lemma give_sessions: "mset (free (give c p)) = add_mset c (mset (free p))"
  using give_back [of c p] by simp

end

lemma unat_plus_one: "x < (y :: idx_t) \<Longrightarrow> unat (x + 1) = Suc (unat x)"
proof -
  assume "x < y"
  then have "unat x < unat y" by (simp add: word_less_nat_alt)
  moreover have "unat y < 2 ^ 64" using unsigned_less [of y, where ?'a = nat] by simp
  ultimately have "unat x + 1 < 2 ^ 64" by linarith
  then show ?thesis by (simp add: unat_word_ariths)
qed

lemma unat_minus_one: "0 < unat (x :: idx_t) \<Longrightarrow> Suc (unat (x - 1)) = unat x"
proof -
  assume "0 < unat x"
  then have "1 \<le> x" by (simp add: word_le_nat_alt)
  then have "unat (x - 1) = unat x - unat (1 :: idx_t)" by (rule unat_sub)
  with \<open>0 < unat x\<close> show ?thesis by simp
qed

interpretation pool: slot_pool take_slot give_back rollback_slot raise_limit idle
  "\<lambda>p. unat (total p)" "\<lambda>p. unat (limit p)"
proof
  fix p q c n
  show "take_slot p = (Reuse c, q) \<Longrightarrow>
      idle p = idle q @ [c] \<and> unat (total q) = unat (total p) \<and> unat (limit q) = unat (limit p)"
    by (auto simp: take_slot_def split: if_splits)
  show "take_slot p = (Reserve, q) \<Longrightarrow> idle p = [] \<and> idle q = [] \<and> unat (total p) < unat (limit p) \<and>
      unat (total q) = Suc (unat (total p)) \<and> unat (limit q) = unat (limit p)"
    by (auto simp: take_slot_def word_less_nat_alt unat_plus_one split: if_splits)
  show "take_slot p = (Full, q) \<Longrightarrow> q = p \<and> idle p = [] \<and> unat (limit p) \<le> unat (total p)"
    by (auto simp: take_slot_def word_less_nat_alt split: if_splits)
  show "idle (give_back c p) = idle p @ [c] \<and> unat (total (give_back c p)) = unat (total p) \<and>
      unat (limit (give_back c p)) = unat (limit p)"
    by (simp add: give_back_def)
  show "0 < unat (total p) \<Longrightarrow> idle (rollback_slot p) = idle p \<and>
      Suc (unat (total (rollback_slot p))) = unat (total p) \<and>
      unat (limit (rollback_slot p)) = unat (limit p)"
    by (simp add: rollback_slot_def unat_minus_one)
  show "idle (raise_limit n p) = idle p \<and> unat (total (raise_limit n p)) = unat (total p) \<and>
      unat (limit p) \<le> unat (limit (raise_limit n p)) \<and> unat n \<le> unat (limit (raise_limit n p))"
    by (auto simp: raise_limit_def word_less_nat_alt)
qed

section \<open>The operations of one thread\<close>

text \<open>\<open>pools[connection_string]\<close> with the pool constructed at the first use.\<close>

definition registry_pool :: "string \<Rightarrow> (('w, 'z) mgr_scheme, nat) cpp" where
  "registry_pool cs = bind (gets pools) (\<lambda>ps. case map_of ps cs of
     Some pid \<Rightarrow> return pid
   | None \<Rightarrow> bind (gets next_pool) (\<lambda>pid.
       bind (modify (\<lambda>s. s\<lparr>next_pool := Suc pid, pool_heap := (pool_heap s)(pid \<mapsto> new_pool),
         pools := (cs, pid) # pools s\<rparr>)) (\<lambda>_. return pid)))"

definition the_pool_of :: "nat \<Rightarrow> ('w, 'z) mgr_scheme \<Rightarrow> Pool" where
  "the_pool_of pid s = (case pool_heap s pid of Some p \<Rightarrow> p | None \<Rightarrow> new_pool)"

definition put_pool :: "nat \<Rightarrow> Pool \<Rightarrow> (('w, 'z) mgr_scheme, unit) cpp" where
  "put_pool pid p = modify (\<lambda>s. s\<lparr>pool_heap := (pool_heap s)(pid \<mapsto> p)\<rparr>)"

definition with_pool :: "nat \<Rightarrow> (Pool \<Rightarrow> Pool) \<Rightarrow> (('w, 'z) mgr_scheme, unit) cpp" where
  "with_pool pid f = bind (gets (the_pool_of pid)) (\<lambda>p. put_pool pid (f p))"

text \<open>A new \<open>OracleConnectionHandle\<close>: one more reference to its pool.\<close>

definition make_handle :: "nat option \<Rightarrow> nat \<Rightarrow> (('w, 'z) mgr_scheme, nat) cpp" where
  "make_handle pid cid =
     bind (case pid of Some q \<Rightarrow> with_pool q (\<lambda>p. p\<lparr>refs := Suc (refs p)\<rparr>) | None \<Rightarrow> return ()) (\<lambda>_.
     bind (gets next_handle) (\<lambda>hid.
     bind (modify (\<lambda>s. s\<lparr>next_handle := Suc hid,
       handles := (hid, \<lparr>h_pool = pid, h_ctx = cid\<rparr>) # handles s\<rparr>)) (\<lambda>_.
     return hid)))"

definition pool_timeout :: exn where
  "pool_timeout = IOException ''Oracle connection pool timeout waiting for available session''"

text \<open>The loop of \<open>Acquire\<close>: \<open>n\<close> wakeups are left before the deadline.\<close>

fun acquire_loop ::
  "'w rt \<Rightarrow> handle option \<Rightarrow> string \<Rightarrow> nat \<Rightarrow> nat \<Rightarrow> (('w, 'z) mgr_scheme, nat) cpp" where
  "acquire_loop rt env cs pid n =
     bind (gets (the_pool_of pid)) (\<lambda>p. case take_slot p of
       (Reuse cid, q) \<Rightarrow> bind (put_pool pid q) (\<lambda>_. make_handle (Some pid) cid)
     | (Reserve, q) \<Rightarrow> bind (put_pool pid q) (\<lambda>_.
         bind (try_catch (CreateConnection rt env cs)
                 (\<lambda>e. bind (with_pool pid rollback_slot) (\<lambda>_. throw e))) (\<lambda>cid.
         make_handle (Some pid) cid))
     | (Full, q) \<Rightarrow> (case n of 0 \<Rightarrow> throw pool_timeout | Suc m \<Rightarrow> acquire_loop rt env cs pid m))"

text \<open>\<open>Instance()\<close> is part of every use of the manager.\<close>

definition Acquire :: "'w rt \<Rightarrow> string \<Rightarrow> OracleSettings \<Rightarrow> (('w, 'z) mgr_scheme, nat) cpp" where
  "Acquire rt cs st =
     bind (Instance rt) (\<lambda>env.
     if \<not> connection_cache st then
       bind (CreateConnection rt env cs) (\<lambda>cid. make_handle None cid)
     else
       bind (registry_pool cs) (\<lambda>pid.
       bind (with_pool pid (raise_limit (connection_limit st))) (\<lambda>_.
       acquire_loop rt env cs pid (wakeups rt))))"

text \<open>A reference to a pool is dropped; the last one destroys the pool and its idle sessions.\<close>

definition drop_pool_ref :: "'w rt \<Rightarrow> nat \<Rightarrow> (('w, 'z) mgr_scheme, unit) cpp" where
  "drop_pool_ref rt pid =
     bind (gets (the_pool_of pid)) (\<lambda>p.
     if refs p \<le> 1 then
       bind (for_each (idle p) (destroy_ctx rt)) (\<lambda>_.
       modify (\<lambda>s. s\<lparr>pool_heap := (pool_heap s)(pid := None)\<rparr>))
     else put_pool pid (p\<lparr>refs := refs p - 1\<rparr>))"

text \<open>The last reference to a handle goes: \<open>~OracleConnectionHandle\<close>, then its members.\<close>

definition release_handle :: "'w rt \<Rightarrow> nat \<Rightarrow> (('w, 'z) mgr_scheme, unit) cpp" where
  "release_handle rt hid =
     bind (gets handles) (\<lambda>hs. case map_of hs hid of
       None \<Rightarrow> return ()
     | Some h \<Rightarrow>
         bind (modify (\<lambda>s. s\<lparr>handles := filter (\<lambda>e. fst e \<noteq> hid) (handles s)\<rparr>)) (\<lambda>_.
         case h_pool h of
           Some pid \<Rightarrow> bind (with_pool pid (give_back (h_ctx h))) (\<lambda>_. drop_pool_ref rt pid)
         | None \<Rightarrow> destroy_ctx rt (h_ctx h)))"

text \<open>\<open>Clear()\<close>: the registry gives up its references.\<close>

definition Clear :: "'w rt \<Rightarrow> (('w, 'z) mgr_scheme, unit) cpp" where
  "Clear rt =
     bind (gets pools) (\<lambda>ps.
     bind (modify (\<lambda>s. s\<lparr>pools := []\<rparr>)) (\<lambda>_.
     for_each (map snd ps) (drop_pool_ref rt)))"

end
