(* ===== verification/PoolThreads.thy ===== *)
theory PoolThreads
  imports ConnectionPool
begin

text \<open>
  Threads that share one connection pool: \<open>OracleConnectionManager::Acquire\<close> and the destructor
  of \<open>OracleConnectionHandle\<close>, cut at the points where the pool's lock is released. A thread is
  outside, asleep on the condition variable (with or without a pending notification), creating
  the connection it has reserved a slot for, or holding a session. Each rule of \<open>pool_step\<close>
  is one critical section and uses the pool operations of \<open>ConnectionPool\<close>.
\<close>

section \<open>The interleaving\<close>

datatype tstate = Outside | Waiting bool | Creating | Holding nat

record pool_sys =
  the_pool :: Pool
  threads :: "tstate list"
  fresh :: nat

text \<open>The body of the loop of \<open>Acquire\<close> for thread \<open>i\<close>.\<close>

definition serve :: "nat \<Rightarrow> slot \<times> Pool \<Rightarrow> pool_sys \<Rightarrow> pool_sys" where
  "serve i r y = y\<lparr>the_pool := snd r, threads := (threads y)[i := (case fst r of
     Reuse c \<Rightarrow> Holding c | Reserve \<Rightarrow> Creating | Full \<Rightarrow> Waiting False)]\<rparr>"

text \<open>\<open>cv.notify_one()\<close> wakes one of the threads that are asleep and not yet notified.\<close>

inductive notify_one :: "tstate list \<Rightarrow> tstate list \<Rightarrow> bool" where
  notified: "j < length ts \<Longrightarrow> ts ! j = Waiting False \<Longrightarrow> notify_one ts (ts[j := Waiting True])"
| nobody: "Waiting False \<notin> set ts \<Longrightarrow> notify_one ts ts"

text \<open>What a step does: enter \<open>Acquire\<close> with a connection limit, wake up (notified or not), give up
  at the deadline, finish or fail the creation of a connection, give a session back.\<close>

datatype label =
    Enter nat idx_t | Wake nat | Timeout nat | Created nat | CreateFailed nat | Release nat

inductive pool_step :: "label \<Rightarrow> pool_sys \<Rightarrow> pool_sys \<Rightarrow> bool" where
  enter: "i < length (threads y) \<Longrightarrow> threads y ! i = Outside \<Longrightarrow>
     pool_step (Enter i n) y (serve i (take_slot (raise_limit n (the_pool y))) y)"
| wake: "i < length (threads y) \<Longrightarrow> threads y ! i = Waiting b \<Longrightarrow>
     pool_step (Wake i) y (serve i (take_slot (the_pool y)) y)"
| timeout: "i < length (threads y) \<Longrightarrow> threads y ! i = Waiting b \<Longrightarrow>
     pool_step (Timeout i) y (y\<lparr>threads := (threads y)[i := Outside]\<rparr>)"
| created: "i < length (threads y) \<Longrightarrow> threads y ! i = Creating \<Longrightarrow>
     pool_step (Created i) y (y\<lparr>threads := (threads y)[i := Holding (fresh y)], fresh := Suc (fresh y)\<rparr>)"
| create_failed: "i < length (threads y) \<Longrightarrow> threads y ! i = Creating \<Longrightarrow>
     notify_one ((threads y)[i := Outside]) ts \<Longrightarrow>
     pool_step (CreateFailed i) y (y\<lparr>the_pool := rollback_slot (the_pool y), threads := ts\<rparr>)"
| release: "i < length (threads y) \<Longrightarrow> threads y ! i = Holding c \<Longrightarrow>
     notify_one ((threads y)[i := Outside]) ts \<Longrightarrow>
     pool_step (Release i) y (y\<lparr>the_pool := give_back c (the_pool y), threads := ts\<rparr>)"

inductive_cases pool_stepE: "pool_step l y z"
inductive_cases notify_oneE: "notify_one ts us"

definition start_sys :: "nat \<Rightarrow> pool_sys" where
  "start_sys n = \<lparr> the_pool = new_pool, threads = replicate n Outside, fresh = 0 \<rparr>"

text \<open>\<open>pool_run P ls y z\<close>: the steps \<open>ls\<close> lead from \<open>y\<close> to \<open>z\<close>, and each satisfies \<open>P\<close>.\<close>

inductive pool_run ::
  "(pool_sys \<Rightarrow> label \<Rightarrow> bool) \<Rightarrow> label list \<Rightarrow> pool_sys \<Rightarrow> pool_sys \<Rightarrow> bool" for P where
  stop: "pool_run P [] y y"
| go: "pool_run P ls y z \<Longrightarrow> P z l \<Longrightarrow> pool_step l z u \<Longrightarrow> pool_run P (ls @ [l]) y u"

definition any_step :: "pool_sys \<Rightarrow> label \<Rightarrow> bool" where
  "any_step y l \<longleftrightarrow> True"

section \<open>Counting\<close>

definition is_busy :: "tstate \<Rightarrow> bool" where
  "is_busy t \<longleftrightarrow> (case t of Creating \<Rightarrow> True | Holding _ \<Rightarrow> True | _ \<Rightarrow> False)"

definition count :: "('a \<Rightarrow> bool) \<Rightarrow> 'a list \<Rightarrow> nat" where
  "count p xs = length (filter p xs)"

lemma count_update:
  "i < length xs \<Longrightarrow>
   count p (xs[i := x]) + (if p (xs ! i) then 1 else 0) = count p xs + (if p x then 1 else 0)"
proof (induction xs arbitrary: i)
  case (Cons a xs)
  then show ?case by (cases i) (auto simp: count_def)
qed simp

lemma count_replicate [simp]: "\<not> p x \<Longrightarrow> count p (replicate n x) = 0"
  by (simp add: count_def)

lemma count_zero: "count p xs = 0 \<longleftrightarrow> (\<forall>x \<in> set xs. \<not> p x)"
  by (simp add: count_def filter_empty_conv)

text \<open>The sessions that threads hold.\<close>

definition held_by :: "tstate \<Rightarrow> nat multiset" where
  "held_by t = (case t of Holding c \<Rightarrow> {#c#} | _ \<Rightarrow> {#})"

definition held :: "tstate list \<Rightarrow> nat multiset" where
  "held ts = (\<Sum>t \<leftarrow> ts. held_by t)"

lemma held_update: "i < length ts \<Longrightarrow> held (ts[i := t]) + held_by (ts ! i) = held ts + held_by t"
proof (induction ts arbitrary: i)
  case (Cons a ts)
  then show ?case by (cases i) (auto simp: held_def ac_simps)
qed simp

lemma is_busy_simps [simp]:
  "\<not> is_busy Outside" "\<not> is_busy (Waiting b)" "is_busy Creating" "is_busy (Holding c)"
  by (simp_all add: is_busy_def)

lemma held_by_simps [simp]:
  "held_by Outside = {#}" "held_by (Waiting b) = {#}" "held_by Creating = {#}" "held_by (Holding c) = {#c#}"
  by (simp_all add: held_by_def)

lemma notify_one_counts:
  assumes "notify_one ts us"
  shows "count is_busy us = count is_busy ts \<and> held us = held ts \<and> length us = length ts"
  using assms
proof (cases rule: notify_one.cases)
  case (notified j)
  then show ?thesis
    using count_update [of j ts is_busy "Waiting True"] held_update [of j ts "Waiting True"] by auto
qed auto

lemma held_Outside [simp]: "held (replicate n Outside) = {#}"
  by (induction n) (simp_all add: held_def)

section \<open>Safety\<close>

definition sessions :: "pool_sys \<Rightarrow> nat multiset" where
  "sessions y = mset (idle (the_pool y)) + held (threads y)"

text \<open>The accounts of the pool agree with its threads; the limit is at least the default; no session
  is in two places; and the sessions are the first \<open>fresh\<close> numbers.\<close>

definition pool_sound :: "pool_sys \<Rightarrow> bool" where
  "pool_sound y \<longleftrightarrow>
     unat (total (the_pool y)) = length (idle (the_pool y)) + count is_busy (threads y) \<and>
     unat (total (the_pool y)) \<le> unat (limit (the_pool y)) \<and>
     8 \<le> unat (limit (the_pool y)) \<and>
     (\<forall>c. Multiset.count (sessions y) c \<le> 1) \<and> (\<forall>c \<in># sessions y. c < fresh y)"

lemma pool_sound_start: "pool_sound (start_sys n)"
  by (simp add: pool_sound_def start_sys_def new_pool_def sessions_def)

lemma serve_sound:
  assumes sound: "pool_sound y" and i: "i < length (threads y)" "\<not> is_busy (threads y ! i)"
    and p: "idle p = idle (the_pool y)" "total p = total (the_pool y)" "limit (the_pool y) \<le> limit p"
  shows "pool_sound (serve i (take_slot p) y)"
proof -
  obtain sl q where take: "take_slot p = (sl, q)" by fastforce
  let ?t = "case sl of Reuse c \<Rightarrow> Holding c | Reserve \<Rightarrow> Creating | Full \<Rightarrow> Waiting False"
  have lim: "unat (limit (the_pool y)) \<le> unat (limit p)" using p(3) by (simp add: word_le_nat_alt)
  have acc: "unat (total p) = length (idle p) + count is_busy (threads y)" "unat (total p) \<le> unat (limit p)"
    using sound p lim by (simp_all add: pool_sound_def)
  have b: "count is_busy ((threads y)[i := ?t]) = (if sl = Full then count is_busy (threads y)
      else Suc (count is_busy (threads y)))"
    using count_update [OF i(1), of is_busy ?t] i(2) by (cases sl) auto
  have nb: "held_by (threads y ! i) = {#}" using i(2) by (cases "threads y ! i") auto
  have h: "mset (idle q) + held ((threads y)[i := ?t]) = sessions y"
    using held_update [OF i(1), of ?t] nb pool.acquire_Reuse [of p _ q] pool.acquire_Reserve [of p q]
      pool.acquire_Full [of p q] take p(1)
    by (cases sl) (auto simp: sessions_def)
  have q: "unat (limit p) \<le> unat (limit q)"
    using pool.acquire_Reuse [of p _ q] pool.acquire_Reserve [of p q] pool.acquire_Full [of p q] take
    by (cases sl) auto
  show ?thesis
    using pool.acquire_accounts [OF take acc] b h q lim sound
    by (simp add: pool_sound_def serve_def take sessions_def)
qed


lemma pool_step_sound:
  assumes "pool_step l y z" and sound: "pool_sound y"
  shows "pool_sound z"
  using assms(1)
proof (cases rule: pool_step.cases)
  case (enter i n)
  then show ?thesis
    using serve_sound [OF sound, of i "raise_limit n (the_pool y)"]
    by (auto simp: raise_limit_def)
next
  case (wake i b)
  then show ?thesis using serve_sound [OF sound, of i "the_pool y"] by auto
next
  case (timeout i b)
  then show ?thesis
    using sound count_update [of i "threads y" is_busy Outside] held_update [of i "threads y" Outside]
    by (auto simp: pool_sound_def sessions_def)
next
  case (created i)
  let ?ts = "(threads y)[i := Holding (fresh y)]"
  have h: "held ?ts = add_mset (fresh y) (held (threads y))"
    using held_update [of i "threads y" "Holding (fresh y)"] created by simp
  have b: "count is_busy ?ts = count is_busy (threads y)"
    using count_update [of i "threads y" is_busy "Holding (fresh y)"] created by simp
  have new: "Multiset.count (sessions y) (fresh y) = 0"
    using sound by (auto simp: pool_sound_def not_in_iff [symmetric])
  show ?thesis
    using sound created h b new by (auto simp: pool_sound_def sessions_def less_Suc_eq)
next
  case (create_failed i ts)
  have b: "count is_busy (threads y) = Suc (count is_busy ts)" "held ts = held (threads y)"
    using notify_one_counts [OF create_failed(5)] create_failed
      count_update [of i "threads y" is_busy Outside] held_update [of i "threads y" Outside] by auto
  have acc: "unat (total (the_pool y)) = length (idle (the_pool y)) + Suc (count is_busy ts)"
    "unat (total (the_pool y)) \<le> unat (limit (the_pool y))"
    using sound b by (simp_all add: pool_sound_def)
  then have "0 < unat (total (the_pool y))" by simp
  from pool.undo [OF this] pool.undo_accounts [OF acc] b sound create_failed show ?thesis
    by (simp add: pool_sound_def sessions_def)
next
  case (release i c ts)
  have b: "count is_busy (threads y) = Suc (count is_busy ts)" "held (threads y) = add_mset c (held ts)"
    using notify_one_counts [OF release(5)] release
      count_update [of i "threads y" is_busy Outside] held_update [of i "threads y" Outside] by auto
  have acc: "unat (total (the_pool y)) = length (idle (the_pool y)) + Suc (count is_busy ts)"
    "unat (total (the_pool y)) \<le> unat (limit (the_pool y))"
    using sound b by (simp_all add: pool_sound_def)
  from pool.give_accounts [OF acc, of c] pool.give_back [of c "the_pool y"] b sound release show ?thesis
    by (simp add: pool_sound_def sessions_def)
qed

lemma pool_run_sound: "pool_run P ls y z \<Longrightarrow> pool_sound y \<Longrightarrow> pool_sound z"
  by (induction rule: pool_run.induct) (auto intro: pool_step_sound)

section \<open>No lost wakeup\<close>

text \<open>Sessions that could be handed out, and threads that have been told so.\<close>

definition available :: "Pool \<Rightarrow> nat" where
  "available p = length (idle p) + (unat (limit p) - unat (total p))"

definition told :: "pool_sys \<Rightarrow> nat" where
  "told y = count ((=) (Waiting True)) (threads y)"

definition no_lost_wakeup :: "pool_sys \<Rightarrow> bool" where
  "no_lost_wakeup y \<longleftrightarrow> (Waiting False \<in> set (threads y) \<longrightarrow> available (the_pool y) \<le> told y)"

text \<open>The steps that keep it: no thread asks for a higher limit than the pool has, and only a thread
  that has not been notified gives up.\<close>

definition careful :: "pool_sys \<Rightarrow> label \<Rightarrow> bool" where
  "careful y l \<longleftrightarrow> (case l of
     Enter i n \<Rightarrow> n \<le> limit (the_pool y)
   | Timeout i \<Rightarrow> threads y ! i = Waiting False
   | _ \<Rightarrow> True)"

lemma waiting_update:
  "Waiting False \<in> set (ts[i := t]) \<Longrightarrow> t \<noteq> Waiting False \<Longrightarrow> Waiting False \<in> set ts"
  using set_update_subset_insert [of ts i t] by auto

lemma serve_no_lost_wakeup:
  assumes "no_lost_wakeup y" and i: "i < length (threads y)" "\<not> is_busy (threads y ! i)"
    and le: "unat (total (the_pool y)) \<le> unat (limit (the_pool y))"
  shows "no_lost_wakeup (serve i (take_slot (the_pool y)) y)"
proof -
  obtain sl q where take: "take_slot (the_pool y) = (sl, q)" by fastforce
  show ?thesis
  proof (cases "sl = Full")
    case True
    then show ?thesis
      using pool.available_changes(1) [OF le] take
      by (simp add: no_lost_wakeup_def serve_def available_def)
  next
    case False
    let ?t = "case sl of Reuse c \<Rightarrow> Holding c | Reserve \<Rightarrow> Creating | Full \<Rightarrow> Waiting False"
    have t: "?t \<noteq> Waiting b" for b using False by (cases sl) auto
    have "told y \<le> Suc (count ((=) (Waiting True)) ((threads y)[i := ?t]))"
      using count_update [OF i(1), of "(=) (Waiting True)" ?t] by (auto simp: told_def split: if_splits)
    moreover have "Suc (available q) = available (the_pool y)"
      using pool.available_changes(2) [OF le take False] by (simp add: available_def)
    ultimately show ?thesis
      using assms(1) waiting_update [OF _ t] by (auto simp: no_lost_wakeup_def serve_def take told_def)
  qed
qed

lemma notify_one_told:
  assumes "notify_one ts us" and "Waiting False \<in> set us"
  shows "Waiting False \<in> set ts \<and>
    count ((=) (Waiting True)) us = Suc (count ((=) (Waiting True)) ts)"
  using assms
proof (cases rule: notify_one.cases)
  case (notified j)
  then show ?thesis
    using count_update [of j ts "(=) (Waiting True)" "Waiting True"] nth_mem [of j ts] by auto
qed auto

lemma leave_told:
  assumes "i < length ts" and "is_busy (ts ! i)"
  shows "count ((=) (Waiting True)) (ts[i := Outside]) = count ((=) (Waiting True)) ts"
proof -
  have "ts ! i \<noteq> Waiting True" using assms(2) by auto
  then show ?thesis
    using count_update [OF assms(1), of "(=) (Waiting True)" Outside] by simp
qed

lemma careful_step:
  assumes "pool_step l y z" and "careful y l" and sound: "pool_sound y" and "no_lost_wakeup y"
  shows "no_lost_wakeup z"
  using assms(1)
proof (cases rule: pool_step.cases)
  case (enter i n)
  have "raise_limit n (the_pool y) = the_pool y"
    using assms(2) enter by (auto simp: careful_def raise_limit_def)
  then show ?thesis
    using serve_no_lost_wakeup [OF assms(4), of i] sound enter by (simp add: pool_sound_def)
next
  case (wake i b)
  then show ?thesis
    using serve_no_lost_wakeup [OF assms(4), of i] sound by (simp add: pool_sound_def)
next
  case (timeout i b)
  then have "threads y ! i = Waiting False" using assms(2) by (simp add: careful_def)
  then show ?thesis
    using assms(4) timeout waiting_update [of "threads y" i Outside]
      count_update [of i "threads y" "(=) (Waiting True)" Outside]
    by (auto simp: no_lost_wakeup_def told_def)
next
  case (created i)
  then show ?thesis
    using assms(4) waiting_update [of "threads y" i "Holding (fresh y)"]
      count_update [of i "threads y" "(=) (Waiting True)" "Holding (fresh y)"]
    by (auto simp: no_lost_wakeup_def told_def)
next
  case (create_failed i ts)
  have le: "unat (total (the_pool y)) \<le> unat (limit (the_pool y))" "0 < unat (total (the_pool y))"
    using sound count_zero [of is_busy "threads y"] create_failed nth_mem [of i "threads y"]
    by (auto simp: pool_sound_def intro!: gr0I)
  show ?thesis
    using assms(4) create_failed pool.available_changes(4) [OF le] leave_told [of i "threads y"]
      notify_one_told [OF create_failed(5)] waiting_update [of "threads y" i Outside]
    by (auto simp: no_lost_wakeup_def told_def available_def)
next
  case (release i c ts)
  have le: "unat (total (the_pool y)) \<le> unat (limit (the_pool y))" using sound by (simp add: pool_sound_def)
  show ?thesis
    using assms(4) release pool.available_changes(3) [OF le, of c] leave_told [of i "threads y"]
      notify_one_told [OF release(5)] waiting_update [of "threads y" i Outside]
    by (auto simp: no_lost_wakeup_def told_def available_def)
qed

lemma pool_run_careful:
  "pool_run careful ls y z \<Longrightarrow> pool_sound y \<Longrightarrow> no_lost_wakeup y \<Longrightarrow> pool_sound z \<and> no_lost_wakeup z"
  by (induction rule: pool_run.induct) (auto intro: pool_step_sound careful_step)

section \<open>Running a schedule\<close>

text \<open>Schedules can be executed: \<open>notify_one\<close> then picks the first thread that is asleep.\<close>

fun notify_first :: "tstate list \<Rightarrow> tstate list" where
  "notify_first [] = []"
| "notify_first (t # ts) = (if t = Waiting False then Waiting True # ts else t # notify_first ts)"

lemma notify_one_Cons: "notify_one ts us \<Longrightarrow> t \<noteq> Waiting False \<Longrightarrow> notify_one (t # ts) (t # us)"
proof (induction rule: notify_one.induct)
  case (notified j ts)
  then show ?case using notify_one.notified [of "Suc j" "t # ts"] by simp
qed (auto intro: notify_one.nobody)

lemma notify_first: "notify_one ts (notify_first ts)"
  by (induction ts) (auto intro: notify_one.nobody notify_one_Cons
      notify_one.notified [of 0 "Waiting False # ts" for ts, simplified])

definition thread :: "pool_sys \<Rightarrow> nat \<Rightarrow> tstate option" where
  "thread y i = (if i < length (threads y) then Some (threads y ! i) else None)"

fun do_step :: "label \<Rightarrow> pool_sys \<Rightarrow> pool_sys option" where
  "do_step (Enter i n) y = (case thread y i of
     Some Outside \<Rightarrow> Some (serve i (take_slot (raise_limit n (the_pool y))) y) | _ \<Rightarrow> None)"
| "do_step (Wake i) y = (case thread y i of
     Some (Waiting b) \<Rightarrow> Some (serve i (take_slot (the_pool y)) y) | _ \<Rightarrow> None)"
| "do_step (Timeout i) y = (case thread y i of
     Some (Waiting b) \<Rightarrow> Some (y\<lparr>threads := (threads y)[i := Outside]\<rparr>) | _ \<Rightarrow> None)"
| "do_step (Created i) y = (case thread y i of
     Some Creating \<Rightarrow> Some (y\<lparr>threads := (threads y)[i := Holding (fresh y)], fresh := Suc (fresh y)\<rparr>)
   | _ \<Rightarrow> None)"
| "do_step (CreateFailed i) y = (case thread y i of
     Some Creating \<Rightarrow> Some (y\<lparr>the_pool := rollback_slot (the_pool y),
       threads := notify_first ((threads y)[i := Outside])\<rparr>) | _ \<Rightarrow> None)"
| "do_step (Release i) y = (case thread y i of
     Some (Holding c) \<Rightarrow> Some (y\<lparr>the_pool := give_back c (the_pool y),
       threads := notify_first ((threads y)[i := Outside])\<rparr>) | _ \<Rightarrow> None)"

lemma thread_Some: "thread y i = Some t \<longleftrightarrow> i < length (threads y) \<and> threads y ! i = t"
  by (auto simp: thread_def)

lemma do_step_sound: "do_step l y = Some z \<Longrightarrow> pool_step l y z"
  by (cases l) (auto simp: thread_Some split: option.splits tstate.splits
      intro: pool_step.intros notify_first)

fun run_steps :: "(pool_sys \<Rightarrow> label \<Rightarrow> bool) \<Rightarrow> label list \<Rightarrow> pool_sys \<Rightarrow> pool_sys option" where
  "run_steps P [] y = Some y"
| "run_steps P (l # ls) y =
     (if P y l then (case do_step l y of Some z \<Rightarrow> run_steps P ls z | None \<Rightarrow> None) else None)"

lemma pool_run_Cons:
  assumes "pool_run P ls z u" and "P y l" and "pool_step l y z"
  shows "pool_run P (l # ls) y u"
  using assms
proof (induction rule: pool_run.induct)
  case (stop z)
  then show ?case using pool_run.go [OF pool_run.stop] by fastforce
next
  case (go ls z v l' u)
  then show ?case using pool_run.go [of P "l # ls" y v l' u] by simp
qed

lemma run_steps_sound: "run_steps P ls y = Some z \<Longrightarrow> pool_run P ls y z"
  by (induction ls arbitrary: y)
    (auto intro: pool_run.stop pool_run_Cons do_step_sound split: if_splits option.splits)

section \<open>Properties\<close>

text \<open>C3: Whatever any number of threads do with a pool, in any order, the pool's accounts stay
  right: \<open>total\<close> counts the idle sessions and those that threads hold or are creating, it never
  passes the limit, the limit never falls below eight, and no session is in two places at once (idle twice, held
  by two threads, or idle and held).\<close>

theorem pool_safety:
  assumes "pool_run any_step ls (start_sys n) y"
  shows "unat (total (the_pool y)) = length (idle (the_pool y)) + count is_busy (threads y) \<and>
     total (the_pool y) \<le> limit (the_pool y) \<and> 8 \<le> limit (the_pool y) \<and>
     Multiset.count (mset (idle (the_pool y)) + held (threads y)) c \<le> 1"
  using pool_run_sound [OF assms pool_sound_start]
  by (simp_all add: pool_sound_def sessions_def word_le_nat_alt)

definition short_schedule :: "label list" where
  "short_schedule = [Enter 0 1, Created 0, Enter 1 1, CreateFailed 1, Release 0, Enter 1 1]"

theorem pool_safety_witness:
  "\<exists>y. run_steps any_step short_schedule (start_sys 2) = Some y \<and>
     unat (total (the_pool y)) = 1 \<and> held (threads y) = {#0#} \<and> 8 \<le> limit (the_pool y)"
proof -
  let ?y = "\<lparr>the_pool = \<lparr>idle = [], total = 1, limit = 8, refs = 1\<rparr>, threads = [Outside, Holding 0],
    fresh = 1\<rparr>"
  have run: "run_steps any_step short_schedule (start_sys 2) = Some ?y"
    by code_simp
  show ?thesis
    using run pool_safety [OF run_steps_sound [OF run]] by (simp add: held_def count_def)
qed

text \<open>C20: No wakeup is lost as long as no thread raises the limit of the pool it enters and no thread
  that has been notified gives up: while a thread sleeps without a notification, at least as
  many threads have been notified as the pool could serve.\<close>

theorem waiting_threads_are_woken:
  assumes "pool_run careful ls (start_sys n) y" and "Waiting False \<in> set (threads y)"
  shows "length (idle (the_pool y)) + (unat (limit (the_pool y)) - unat (total (the_pool y)))
    \<le> count ((=) (Waiting True)) (threads y)"
proof -
  have "no_lost_wakeup (start_sys n)" by (simp add: no_lost_wakeup_def start_sys_def)
  then show ?thesis
    using pool_run_careful [OF assms(1) pool_sound_start] assms(2)
    by (simp add: no_lost_wakeup_def available_def told_def)
qed

definition crowd :: "nat \<Rightarrow> label list" where
  "crowd n = concat (map (\<lambda>i. [Enter i 8, Created i]) [0..<8]) @ map (\<lambda>i. Enter i 8) [8..<8 + n] @ [Release 0]"

theorem waiting_threads_are_woken_witness:
  "\<exists>y. run_steps careful (crowd 2) (start_sys 10) = Some y \<and> Waiting False \<in> set (threads y) \<and>
     1 \<le> count ((=) (Waiting True)) (threads y)"
proof -
  let ?y = "\<lparr>the_pool = \<lparr>idle = [0], total = 8, limit = 8, refs = 1\<rparr>, threads = [Outside, Holding 1,
    Holding 2, Holding 3, Holding 4, Holding 5, Holding 6, Holding 7, Waiting True, Waiting False], fresh = 8\<rparr>"
  have run: "run_steps careful (crowd 2) (start_sys 10) = Some ?y" by code_simp
  show ?thesis
    using run waiting_threads_are_woken [OF run_steps_sound [OF run]] by simp
qed

text \<open>The steps of a pool to which nothing comes back and in which no thread wakes for no reason.\<close>

definition no_return :: "pool_sys \<Rightarrow> label \<Rightarrow> bool" where
  "no_return y l \<longleftrightarrow> (case l of
     Release i \<Rightarrow> False | CreateFailed i \<Rightarrow> False | Wake i \<Rightarrow> threads y ! i = Waiting True | _ \<Rightarrow> True)"

lemma no_return_step:
  assumes "pool_step l y z" and "no_return y l" and "Waiting True \<notin> set (threads y)"
  shows "Waiting True \<notin> set (threads z) \<and> length (threads z) = length (threads y) \<and>
    (\<forall>j < length (threads y). threads y ! j = Waiting False \<longrightarrow> threads z ! j = Waiting False \<or> l = Timeout j)"
  using assms(1)
proof (cases rule: pool_step.cases)
  case (wake i b)
  then show ?thesis using assms(2,3) nth_mem [of i "threads y"] by (auto simp: no_return_def)
qed (use assms(2,3) set_update_subset_insert in
  \<open>fastforce simp: no_return_def serve_def nth_list_update split: slot.splits dest: subsetD\<close>)+

lemma no_return_run:
  assumes "pool_run no_return ls y z" and "Waiting True \<notin> set (threads y)"
  shows "Waiting True \<notin> set (threads z) \<and> length (threads z) = length (threads y) \<and>
    (\<forall>j < length (threads y). threads y ! j = Waiting False \<longrightarrow> threads z ! j = Waiting False \<or> Timeout j \<in> set ls)"
  using assms
proof (induction rule: pool_run.induct)
  case (go ls y z l u)
  then show ?case using no_return_step [OF go.hyps(3,2)] by auto
qed simp

text \<open>C21: Without those conditions wakeups are lost. When the only notified thread reaches its deadline before it runs, the
  pool keeps the idle session or free slot that the thread was told of; and whatever happens then, as long as nothing comes
  back to the pool and no thread wakes for no reason, no thread is notified, and each thread that slept sleeps on until
  its own deadline.\<close>

theorem notified_timeout_strands_sleepers:
  assumes "i < length (threads y)" and "threads y ! i = Waiting True"
    and "\<forall>j < length (threads y). j \<noteq> i \<longrightarrow> threads y ! j \<noteq> Waiting True"
    and "pool_step (Timeout i) y z" and "pool_run no_return ls z u"
  shows "the_pool z = the_pool y \<and> Waiting True \<notin> set (threads u) \<and>
    (\<forall>j < length (threads y). threads y ! j = Waiting False \<longrightarrow> threads u ! j = Waiting False \<or> Timeout j \<in> set ls)"
proof -
  have z: "z = y\<lparr>threads := (threads y)[i := Outside]\<rparr>" using assms(4) by (auto elim: pool_stepE)
  have "threads z ! j \<noteq> Waiting True" if "j < length (threads y)" for j
    using assms(1,3) that by (cases "j = i") (simp_all add: z)
  then have none: "Waiting True \<notin> set (threads z)" by (auto simp: in_set_conv_nth z)
  have stay: "threads z ! j = threads y ! j" if "threads y ! j = Waiting False" for j
    using that assms(2) z by (cases "j = i") simp_all
  show ?thesis using no_return_run [OF assms(5) none] stay z by simp
qed

text \<open>Eight sessions are out, two threads sleep, one session comes back: the thread that is told of it gives up, and the
  other one sleeps on beside the idle session, also while a new thread comes and takes it.\<close>

theorem notified_timeout_strands_sleepers_witness:
  "\<exists>y z u. run_steps careful (crowd 2) (start_sys 11) = Some y \<and> do_step (Timeout 8) y = Some z \<and>
     run_steps no_return [Enter 10 8] z = Some u \<and> idle (the_pool z) = [0] \<and> threads z ! 9 = Waiting False \<and> threads u ! 9 = Waiting False"
proof -
  let ?y = "\<lparr>the_pool = \<lparr>idle = [0], total = 8, limit = 8, refs = 1\<rparr>, threads = [Outside, Holding 1,
    Holding 2, Holding 3, Holding 4, Holding 5, Holding 6, Holding 7, Waiting True, Waiting False, Outside], fresh = 8\<rparr>"
  let ?z = "?y\<lparr>threads := [Outside, Holding 1, Holding 2, Holding 3, Holding 4, Holding 5, Holding 6, Holding 7, Outside,
    Waiting False, Outside]\<rparr>"
  let ?u = "\<lparr>the_pool = \<lparr>idle = [], total = 8, limit = 8, refs = 1\<rparr>, threads = [Outside, Holding 1,
    Holding 2, Holding 3, Holding 4, Holding 5, Holding 6, Holding 7, Outside, Waiting False, Holding 0], fresh = 8\<rparr>"
  have runs: "run_steps careful (crowd 2) (start_sys 11) = Some ?y" "do_step (Timeout 8) ?y = Some ?z"
    "run_steps no_return [Enter 10 8] ?z = Some ?u" by code_simp+
  have "threads ?y ! j \<noteq> Waiting True" if "j < length (threads ?y)" "j \<noteq> 8" for j
    using that by (simp add: less_Suc_eq) (elim disjE, simp_all)
  then have "the_pool ?z = the_pool ?y \<and> Waiting True \<notin> set (threads ?u) \<and>
      (\<forall>j < length (threads ?y). threads ?y ! j = Waiting False \<longrightarrow> threads ?u ! j = Waiting False \<or> Timeout j \<in> set [Enter 10 8])"
    using notified_timeout_strands_sleepers [OF _ _ _ do_step_sound [OF runs(2)] run_steps_sound [OF runs(3)]] by simp
  then show ?thesis using runs by simp
qed

end
