(* ===== verification/ManagerInvariant.thy ===== *)
theory ManagerInvariant
  imports ConnectionPool
begin

text \<open>
  The well-formedness of the connection manager's state and its preservation by \<open>Acquire\<close>,
  \<open>release_handle\<close> (the destructor of a handle) and \<open>Clear\<close>: the use counts of the pools are
  right, so that a pool is destroyed with its last user and never before; every session that is idle
  or in a handle is alive and connected; and no session is in two places.
\<close>

section \<open>The invariant\<close>

definition busy_with :: "nat \<Rightarrow> ('w, 'z) mgr_scheme \<Rightarrow> nat" where
  "busy_with pid s = length (filter (\<lambda>e. h_pool (snd e) = Some pid) (handles s))"

text \<open>\<open>R\<close> lists the references to pools other than those of handles.\<close>

definition pool_ok :: "nat list \<Rightarrow> nat \<Rightarrow> Pool \<Rightarrow> ('w, 'z) mgr_scheme \<Rightarrow> bool" where
  "pool_ok R pid p s \<longleftrightarrow>
     unat (total p) = length (idle p) + busy_with pid s \<and>
     length (idle p) + busy_with pid s \<le> unat (limit p) \<and> 8 \<le> unat (limit p) \<and> refs p = length (filter ((=) pid) R) + busy_with pid s \<and> pid < next_pool s"

definition pools_ok :: "nat list \<Rightarrow> ('w, 'z) mgr_scheme \<Rightarrow> bool" where
  "pools_ok R s \<longleftrightarrow>
     (\<forall>pid p. pool_heap s pid = Some p \<longrightarrow> pool_ok R pid p s) \<and>
     (\<forall>pid. pid \<in> set R \<or> 0 < busy_with pid s \<longrightarrow> pool_heap s pid \<noteq> None) \<and>
     (\<forall>e \<in> set (handles s). fst e < next_handle s)"

definition in_handles :: "('w, 'z) mgr_scheme \<Rightarrow> nat set" where
  "in_handles s = (\<lambda>e. h_ctx (snd e)) ` set (handles s)"

definition idle_in :: "nat \<Rightarrow> ('w, 'z) mgr_scheme \<Rightarrow> nat list" where
  "idle_in pid s = (case pool_heap s pid of Some p \<Rightarrow> idle p | None \<Rightarrow> [])"

definition places_ok :: "('w, 'z) mgr_scheme \<Rightarrow> bool" where
  "places_ok s \<longleftrightarrow>
     distinct (map fst (handles s)) \<and> distinct (map (\<lambda>e. h_ctx (snd e)) (handles s)) \<and>
     (\<forall>pid. distinct (idle_in pid s) \<and> set (idle_in pid s) \<inter> in_handles s = {}) \<and>
     (\<forall>pid pid'. pid \<noteq> pid' \<longrightarrow> set (idle_in pid s) \<inter> set (idle_in pid' s) = {})"

definition alive :: "('w, 'z) mgr_scheme \<Rightarrow> nat \<Rightarrow> bool" where
  "alive s cid \<longleftrightarrow> cid < next_ctx s \<and> (\<exists>c. ctxs s cid = Some c \<and> connected c)"

definition sessions_alive :: "('w, 'z) mgr_scheme \<Rightarrow> bool" where
  "sessions_alive s \<longleftrightarrow>
     (\<forall>cid \<in> in_handles s. alive s cid) \<and> (\<forall>pid. \<forall>cid \<in> set (idle_in pid s). alive s cid)"

definition mgr_ok :: "nat list \<Rightarrow> ('w, 'z) mgr_scheme \<Rightarrow> bool" where
  "mgr_ok R s \<longleftrightarrow> pools_ok R s \<and> places_ok s \<and> sessions_alive s"

text \<open>The invariant of a process at rest: the registry holds one reference for each of its entries.\<close>

definition mgr_inv :: "('w, 'z) mgr_scheme \<Rightarrow> bool" where
  "mgr_inv s \<longleftrightarrow> mgr_ok (map snd (pools s)) s"

lemma mgr_inv_init: "mgr_inv (init_mgr w)"
  by (simp add: mgr_inv_def mgr_ok_def init_mgr_def pools_ok_def places_ok_def sessions_alive_def
      in_handles_def idle_in_def busy_with_def)

section \<open>How the parts of the state matter\<close>

lemma busy_with_upd [simp]:
  "busy_with x (s\<lparr>pool_heap := h\<rparr>) = busy_with x s" "busy_with x (s\<lparr>next_pool := n\<rparr>) = busy_with x s"
  "busy_with x (s\<lparr>pools := ps\<rparr>) = busy_with x s" "busy_with x (s\<lparr>next_handle := n\<rparr>) = busy_with x s"
  "busy_with x (s\<lparr>ctxs := cs\<rparr>) = busy_with x s" "busy_with x (s\<lparr>server := w\<rparr>) = busy_with x s"
  "busy_with x (s\<lparr>trace := tr\<rparr>) = busy_with x s"
  by (simp_all add: busy_with_def)

lemma in_handles_upd [simp]:
  "in_handles (s\<lparr>pool_heap := h\<rparr>) = in_handles s" "in_handles (s\<lparr>next_pool := n\<rparr>) = in_handles s"
  "in_handles (s\<lparr>pools := ps\<rparr>) = in_handles s" "in_handles (s\<lparr>next_handle := n\<rparr>) = in_handles s"
  "in_handles (s\<lparr>ctxs := cs\<rparr>) = in_handles s" "in_handles (s\<lparr>server := w\<rparr>) = in_handles s"
  "in_handles (s\<lparr>trace := tr\<rparr>) = in_handles s"
  by (simp_all add: in_handles_def)

lemma idle_in_upd [simp]:
  "idle_in x (s\<lparr>next_pool := n\<rparr>) = idle_in x s" "idle_in x (s\<lparr>pools := ps\<rparr>) = idle_in x s"
  "idle_in x (s\<lparr>next_handle := n\<rparr>) = idle_in x s" "idle_in x (s\<lparr>handles := hs\<rparr>) = idle_in x s"
  "idle_in x (s\<lparr>ctxs := cs\<rparr>) = idle_in x s" "idle_in x (s\<lparr>server := w\<rparr>) = idle_in x s"
  "idle_in x (s\<lparr>trace := tr\<rparr>) = idle_in x s"
  "idle_in x (s\<lparr>pool_heap := m(pid := v)\<rparr>) =
     (if x = pid then (case v of Some p \<Rightarrow> idle p | None \<Rightarrow> []) else idle_in x (s\<lparr>pool_heap := m\<rparr>))"
  by (simp_all add: idle_in_def)

lemma alive_upd [simp]:
  "alive (s\<lparr>next_pool := n\<rparr>) = alive s" "alive (s\<lparr>pools := ps\<rparr>) = alive s"
  "alive (s\<lparr>next_handle := n\<rparr>) = alive s" "alive (s\<lparr>handles := hs\<rparr>) = alive s"
  "alive (s\<lparr>pool_heap := h\<rparr>) = alive s" "alive (s\<lparr>server := w\<rparr>) = alive s"
  "alive (s\<lparr>trace := tr\<rparr>) = alive s"
  by (simp_all add: alive_def fun_eq_iff)

lemma mgr_ok_cong:
  assumes ok: "mgr_ok R s" and same: "pool_heap t = pool_heap s" "handles t = handles s"
    "next_pool t = next_pool s" "next_handle t = next_handle s"
    and live: "\<And>cid. alive s cid \<Longrightarrow> alive t cid"
  shows "mgr_ok R t"
proof -
  have eq: "busy_with pid t = busy_with pid s" "in_handles t = in_handles s" "idle_in pid t = idle_in pid s" for pid
    by (simp_all add: busy_with_def in_handles_def idle_in_def same)
  have "pools_ok R t" using ok by (simp add: mgr_ok_def pools_ok_def pool_ok_def eq same)
  moreover have "places_ok t" using ok by (simp add: mgr_ok_def places_ok_def eq same)
  moreover have "sessions_alive t" using ok live by (simp add: mgr_ok_def sessions_alive_def eq)
  ultimately show ?thesis by (simp add: mgr_ok_def)
qed

lemma mgr_ok_pool:
  assumes "mgr_ok R s" and "pool_heap s pid = Some p"
  shows "pool_ok R pid p s" "distinct (idle p)" "set (idle p) \<inter> in_handles s = {}"
    "x \<noteq> pid \<Longrightarrow> set (idle p) \<inter> set (idle_in x s) = {}" "c \<in> set (idle p) \<Longrightarrow> alive s c"
proof -
  have here: "idle_in pid s = idle p" using assms(2) by (simp add: idle_in_def)
  show "pool_ok R pid p s" using assms by (simp add: mgr_ok_def pools_ok_def)
  show "distinct (idle p)" "set (idle p) \<inter> in_handles s = {}"
    using assms(1) unfolding mgr_ok_def places_ok_def here [symmetric] by blast+
  show "x \<noteq> pid \<Longrightarrow> set (idle p) \<inter> set (idle_in x s) = {}"
    using assms(1) unfolding mgr_ok_def places_ok_def here [symmetric] by blast
  show "c \<in> set (idle p) \<Longrightarrow> alive s c"
    using assms(1) unfolding mgr_ok_def sessions_alive_def here [symmetric] by blast
qed

text \<open>One more handle, on pool \<open>pid\<close>, which becomes \<open>q\<close>.\<close>

lemma pools_ok_add:
  assumes "pools_ok R s" and "pool_heap s pid = Some p"
    and q: "unat (total q) = length (idle q) + Suc (busy_with pid s)" "unat (total q) \<le> unat (limit q)"
      "8 \<le> unat (limit q)" "refs q = Suc (refs p)"
  shows "pools_ok R (s\<lparr>pool_heap := (pool_heap s)(pid \<mapsto> q), next_handle := Suc (next_handle s),
    handles := (next_handle s, \<lparr>h_pool = Some pid, h_ctx = cid\<rparr>) # handles s\<rparr>)"
  using assms by (auto simp: pools_ok_def pool_ok_def busy_with_def less_Suc_eq)

lemma pools_ok_add_plain:
  assumes "pools_ok R s"
  shows "pools_ok R (s\<lparr>next_handle := Suc (next_handle s),
    handles := (next_handle s, \<lparr>h_pool = None, h_ctx = cid\<rparr>) # handles s\<rparr>)"
  using assms by (auto simp: pools_ok_def pool_ok_def busy_with_def less_Suc_eq)

lemma add_handle_ok:
  assumes ok: "mgr_ok R s" and p: "pool_heap s pid = Some p"
    and q: "unat (total q) = length (idle q) + Suc (busy_with pid s)" "unat (total q) \<le> unat (limit q)"
      "8 \<le> unat (limit q)" "refs q = Suc (refs p)"
    and idle: "set (idle q) \<subseteq> set (idle p)" "distinct (idle q)" "cid \<notin> set (idle q)"
    and cid: "cid \<notin> in_handles s" "\<And>pid'. pid' \<noteq> pid \<Longrightarrow> cid \<notin> set (idle_in pid' s)" "alive s cid"
  shows "mgr_ok R (s\<lparr>pool_heap := (pool_heap s)(pid \<mapsto> q), next_handle := Suc (next_handle s),
    handles := (next_handle s, \<lparr>h_pool = Some pid, h_ctx = cid\<rparr>) # handles s\<rparr>)" (is "mgr_ok R ?t")
proof -
  have eq: "in_handles ?t = insert cid (in_handles s)"
    "idle_in pid' ?t = (if pid' = pid then idle q else idle_in pid' s)"
    "alive ?t = alive s" for pid'
    by (auto simp: in_handles_def idle_in_def alive_def fun_eq_iff)
  have old: "pools_ok R s" "places_ok s" "sessions_alive s" using ok by (simp_all add: mgr_ok_def)
  have sub: "set (idle q) \<subseteq> set (idle_in pid s)" using idle(1) p by (simp add: idle_in_def)
  have "pools_ok R ?t" by (rule pools_ok_add [OF old(1) p q])
  moreover have "places_ok ?t"
  proof -
    have "next_handle s \<notin> fst ` set (handles s)" using old(1) by (fastforce simp: pools_ok_def)
    moreover have "cid \<notin> (\<lambda>e. h_ctx (snd e)) ` set (handles s)" using cid(1) by (simp add: in_handles_def)
    ultimately have "distinct (map fst (handles ?t))" "distinct (map (\<lambda>e. h_ctx (snd e)) (handles ?t))"
      using old(2) by (auto simp: places_ok_def)
    moreover have "distinct (idle_in x ?t) \<and> set (idle_in x ?t) \<inter> in_handles ?t = {}" for x
    proof -
      have "distinct (idle_in x s)" "set (idle_in x s) \<inter> in_handles s = {}"
        using old(2) by (simp_all add: places_ok_def)
      then show ?thesis unfolding eq using sub idle(2,3) cid(2) [of x] by (cases "x = pid") auto
    qed
    moreover have "set (idle_in x ?t) \<inter> set (idle_in y ?t) = {}" if "x \<noteq> y" for x y
    proof -
      have "set (idle_in x s) \<inter> set (idle_in y s) = {}" using old(2) that by (simp add: places_ok_def)
      then show ?thesis unfolding eq using sub that by (cases "x = pid"; cases "y = pid") auto
    qed
    ultimately show ?thesis by (simp add: places_ok_def)
  qed
  moreover have "sessions_alive ?t"
    using old(3) sub cid(3) by (auto simp: sessions_alive_def eq)
  ultimately show ?thesis by (simp add: mgr_ok_def)
qed

lemma add_plain_handle_ok:
  assumes ok: "mgr_ok R s"
    and cid: "cid \<notin> in_handles s" "\<And>pid. cid \<notin> set (idle_in pid s)" "alive s cid"
  shows "mgr_ok R (s\<lparr>next_handle := Suc (next_handle s),
    handles := (next_handle s, \<lparr>h_pool = None, h_ctx = cid\<rparr>) # handles s\<rparr>)" (is "mgr_ok R ?t")
proof -
  have eq: "in_handles ?t = insert cid (in_handles s)" "idle_in pid ?t = idle_in pid s" "alive ?t = alive s" for pid
    by (auto simp: in_handles_def idle_in_def alive_def fun_eq_iff)
  have old: "pools_ok R s" "places_ok s" "sessions_alive s" using ok by (simp_all add: mgr_ok_def)
  have "next_handle s \<notin> fst ` set (handles s)" using old(1) by (fastforce simp: pools_ok_def)
  moreover have "cid \<notin> (\<lambda>e. h_ctx (snd e)) ` set (handles s)" using cid(1) by (simp add: in_handles_def)
  ultimately have "places_ok ?t" using old(2) cid(2) by (auto simp: places_ok_def eq)
  moreover have "sessions_alive ?t" using old(3) cid(3) by (simp add: sessions_alive_def eq)
  ultimately show ?thesis using pools_ok_add_plain [OF old(1)] by (simp add: mgr_ok_def)
qed

text \<open>A number no context has yet is in no place.\<close>

lemma not_alive_nowhere:
  "mgr_ok R s \<Longrightarrow> \<not> alive s cid \<Longrightarrow> cid \<notin> in_handles s \<and> cid \<notin> set (idle_in pid s)"
  by (auto simp: mgr_ok_def sessions_alive_def)

lemma take_slot_refs: "take_slot p = (sl, q) \<Longrightarrow> refs q = refs p"
  by (auto simp: take_slot_def split: if_splits)

section \<open>Creating and acquiring\<close>

lemma make_handle_run:
  "pool_heap s pid = Some q \<Longrightarrow> make_handle (Some pid) cid s = (Ret (next_handle s),
     s\<lparr>pool_heap := (pool_heap s)(pid \<mapsto> q\<lparr>refs := Suc (refs q)\<rparr>), next_handle := Suc (next_handle s),
       handles := (next_handle s, \<lparr>h_pool = Some pid, h_ctx = cid\<rparr>) # handles s\<rparr>)"
  "make_handle None cid s = (Ret (next_handle s), s\<lparr>next_handle := Suc (next_handle s),
       handles := (next_handle s, \<lparr>h_pool = None, h_ctx = cid\<rparr>) # handles s\<rparr>)"
  by (simp_all add: make_handle_def with_pool_def the_pool_of_def put_pool_def bind_def)

text \<open>What \<open>CreateConnection\<close> leaves as it was, and the context it makes.\<close>

lemma CreateConnection_keeps:
  assumes "CreateConnection rt env cs s = (r, t)"
  shows "pool_heap t = pool_heap s" "handles t = handles s" "next_pool t = next_pool s"
    "next_handle t = next_handle s" "pools t = pools s" "mgr_env t = mgr_env s" "environ t = environ s"
    "alive s cid \<Longrightarrow> alive t cid"
    "r = Ret cid \<Longrightarrow> alive t cid \<and> \<not> alive s cid"
proof -
  note frame = CreateConnection_frame(1) [OF assms]
  then show "pool_heap t = pool_heap s" "handles t = handles s" "next_pool t = next_pool s"
    "next_handle t = next_handle s" "pools t = pools s" "mgr_env t = mgr_env s" "environ t = environ s"
    by (auto simp: ctx_only_def)
  show "alive t cid" if "alive s cid" using frame that by (auto simp: ctx_only_def alive_def)
  show "alive t cid \<and> \<not> alive s cid" if "r = Ret cid"
  proof -
    have "cid = next_ctx s" using CreateConnection_frame(2) [OF assms that] .
    moreover have "\<exists>c. ctxs t cid = Some c \<and> connected c"
      using wp_RetD [OF wp_CreateConnection] assms that by blast
    ultimately show ?thesis using frame by (auto simp: ctx_only_def alive_def)
  qed
qed

lemma CreateConnection_ok:
  assumes "CreateConnection rt env cs s = (r, t)" and "mgr_ok R s"
  shows "mgr_ok R t"
  by (rule mgr_ok_cong [OF assms(2)]) (fact CreateConnection_keeps [OF assms(1)])+

definition env_only :: "('w, 'z) mgr_scheme \<Rightarrow> ('w, 'z) mgr_scheme \<Rightarrow> bool" where
  "env_only s t \<longleftrightarrow> (\<exists>w tr e. t = s\<lparr>server := w, trace := tr, mgr_env := e\<rparr>)"

interpretation env_only: state_preorder env_only
proof
  show "env_only s s" for s :: "('w, 'z) mgr_scheme"
    unfolding env_only_def by (intro exI [of _ "server s"] exI [of _ "trace s"] exI [of _ "mgr_env s"]) simp
  show "env_only s t \<Longrightarrow> env_only t u \<Longrightarrow> env_only s u" for s t u :: "('w, 'z) mgr_scheme"
    unfolding env_only_def by (elim exE) (rule exI, rule exI, rule exI, simp)
qed

lemma env_only_upd: "env_only s (s\<lparr>mgr_env := e\<rparr>)"
  unfolding env_only_def by (intro exI [of _ "server s"] exI [of _ "trace s"] exI [of _ e]) simp

lemma only_oci_env_only: "moves only_oci m \<Longrightarrow> moves env_only m"
proof (rule movesI)
  fix s r and t :: "('a, 'b) mgr_scheme"
  assume "moves only_oci m" and "m s = (r, t)"
  then obtain w tr where "t = s\<lparr>server := w, trace := tr\<rparr>" by (auto simp: only_oci_def dest!: movesD)
  then show "env_only s t"
    unfolding env_only_def by (intro exI [of _ w] exI [of _ tr] exI [of _ "mgr_env s"]) simp
qed

lemma Instance_moves: "moves env_only (Instance rt)"
proof -
  have set_env: "moves env_only (modify (\<lambda>s :: ('w, 'z) mgr_scheme. s\<lparr>mgr_env := e\<rparr>))" for e
    by (rule env_only.moves_modify) (rule env_only_upd)
  show ?thesis
    unfolding Instance_def
    by (intro env_only.moves_bind env_only.moves_gets)
      (auto split: option.splits intro!: env_only.moves_bind env_only.moves_return set_env
        only_oci_env_only [OF call_moves(2)] only_oci_env_only [OF CheckOCIError_moves(2)])
qed

lemma Instance_keeps:
  assumes "Instance rt s = (r, t)"
  shows "pool_heap t = pool_heap s" "handles t = handles s" "next_pool t = next_pool s"
    "next_handle t = next_handle s" "alive t = alive s" "pools t = pools s"
  using movesD [OF Instance_moves assms] by (auto simp: env_only_def alive_def fun_eq_iff)

lemma mgr_ok_put_pool:
  assumes "mgr_ok R s" and p: "pool_heap s pid = Some p"
    and q: "idle q = idle p" "total q = total p" "refs q = refs p" "unat (limit p) \<le> unat (limit q)"
  shows "mgr_ok R (s\<lparr>pool_heap := (pool_heap s)(pid \<mapsto> q)\<rparr>)" (is "mgr_ok R ?t")
proof -
  have eq: "busy_with x ?t = busy_with x s" "in_handles ?t = in_handles s" "idle_in x ?t = idle_in x s"
    "alive ?t = alive s" for x
    using p q(1) by (auto simp: busy_with_def in_handles_def idle_in_def alive_def fun_eq_iff)
  have "pool_ok R pid p s" using assms(1) p by (simp add: mgr_ok_def pools_ok_def)
  then have "pool_ok R pid q ?t" using q by (simp add: pool_ok_def eq)
  then have "pools_ok R ?t" using assms(1) by (auto simp: mgr_ok_def pools_ok_def pool_ok_def eq)
  then show ?thesis
    using assms(1) mgr_ok_pool(2-) [OF assms(1) p]
    by (auto simp: mgr_ok_def places_ok_def sessions_alive_def q(1) eq(2-))
qed

lemma registry_pool_ok:
  assumes inv: "mgr_inv s"
  shows "\<exists>pid t p. registry_pool cs s = (Ret pid, t) \<and> mgr_inv t \<and> handles t = handles s \<and>
    pool_heap t pid = Some p \<and> map_of (pools t) cs = Some pid"
proof (cases "map_of (pools s) cs")
  case (Some pid)
  then have "pid \<in> set (map snd (pools s))" by (force dest: map_of_SomeD)
  then obtain p where "pool_heap s pid = Some p"
    using inv by (fastforce simp: mgr_inv_def mgr_ok_def pools_ok_def)
  with Some inv show ?thesis by (simp add: registry_pool_def)
next
  case None
  let ?n = "next_pool s"
  let ?t = "s\<lparr>next_pool := Suc ?n, pool_heap := (pool_heap s)(?n \<mapsto> new_pool), pools := (cs, ?n) # pools s\<rparr>"
  have old: "pools_ok (map snd (pools s)) s" "places_ok s" "sessions_alive s"
    using inv by (simp_all add: mgr_inv_def mgr_ok_def)
  have free: "pool_heap s ?n = None"
  proof (rule ccontr)
    assume "pool_heap s ?n \<noteq> None"
    then obtain p where "pool_heap s ?n = Some p" by blast
    then show False using old(1) by (auto simp: pools_ok_def pool_ok_def)
  qed
  then have new: "?n \<notin> set (map snd (pools s))" "busy_with ?n s = 0"
    using old(1) unfolding pools_ok_def by (blast, meson gr0I)
  have eq: "busy_with x ?t = busy_with x s" "in_handles ?t = in_handles s" "idle_in x ?t = idle_in x s"
    "alive ?t = alive s" for x
    using free by (auto simp: busy_with_def in_handles_def idle_in_def alive_def fun_eq_iff new_pool_def)
  have "filter ((=) ?n) (map snd (pools s)) = []" using new(1) by (auto simp: filter_empty_conv)
  then have "pool_ok (?n # map snd (pools s)) ?n new_pool ?t"
    using new(2) by (simp add: pool_ok_def eq new_pool_def)
  moreover have "pool_ok (?n # map snd (pools s)) pid p ?t" if "pool_heap s pid = Some p" "pid \<noteq> ?n" for pid p
    using old(1) that by (force simp: pools_ok_def pool_ok_def eq)
  ultimately have "pools_ok (?n # map snd (pools s)) ?t"
    using old(1) by (auto simp: pools_ok_def eq)
  then have "mgr_inv ?t"
    using old(2,3) free by (auto simp: mgr_inv_def mgr_ok_def places_ok_def sessions_alive_def eq new_pool_def)
  then show ?thesis using None by (simp add: registry_pool_def)
qed

text \<open>What \<open>Acquire\<close> promises: the invariant, and in the end a new handle on a live session of
  the pool, or an error and no handle.\<close>

definition acquired :: "nat list \<Rightarrow> nat option \<Rightarrow> ('w, 'z) mgr_scheme \<Rightarrow> nat outcome \<Rightarrow> ('w, 'z) mgr_scheme \<Rightarrow> bool" where
  "acquired R pid s r t \<longleftrightarrow> mgr_ok R t \<and> pools t = pools s \<and>
     (case r of
       Ret hid \<Rightarrow> \<exists>cid. handles t = (hid, \<lparr>h_pool = pid, h_ctx = cid\<rparr>) # handles s \<and> alive t cid
     | _ \<Rightarrow> handles t = handles s)"

lemma acquire_full:
  "take_slot (the_pool_of pid s) = (Full, q) \<Longrightarrow> acquire_loop rt env cs pid n s = (Throw pool_timeout, s)"
  by (induction n) simp_all

lemma acquire_reuse:
  "take_slot (the_pool_of pid s) = (Reuse cid, q) \<Longrightarrow>
   acquire_loop rt env cs pid n s = make_handle (Some pid) cid (s\<lparr>pool_heap := (pool_heap s)(pid \<mapsto> q)\<rparr>)"
  by (cases n) (simp_all add: put_pool_def)

lemma acquire_reserve:
  "take_slot (the_pool_of pid s) = (Reserve, q) \<Longrightarrow>
   acquire_loop rt env cs pid n s = bind (try_catch (CreateConnection rt env cs)
      (\<lambda>e. bind (with_pool pid rollback_slot) (\<lambda>_. throw e))) (make_handle (Some pid))
      (s\<lparr>pool_heap := (pool_heap s)(pid \<mapsto> q)\<rparr>)"
  by (cases n) (simp_all add: put_pool_def)

declare acquire_loop.simps [simp del]

lemma acquire_reuse_ok:
  assumes ok: "mgr_ok R s" and p: "pool_heap s pid = Some p" and take: "take_slot p = (Reuse cid, q)"
  shows "acquired R (Some pid) s (Ret (next_handle s)) (s\<lparr>pool_heap := (pool_heap s)(pid \<mapsto> q\<lparr>refs := Suc (refs q)\<rparr>),
    next_handle := Suc (next_handle s), handles := (next_handle s, \<lparr>h_pool = Some pid, h_ctx = cid\<rparr>) # handles s\<rparr>)"
proof -
  note old = mgr_ok_pool [OF ok p]
  have q: "idle p = idle q @ [cid]" "unat (total q) = unat (total p)" "unat (limit q) = unat (limit p)"
    "refs q = refs p"
    using pool.acquire_Reuse [OF take] take_slot_refs [OF take] by simp_all
  have "mgr_ok R (s\<lparr>pool_heap := (pool_heap s)(pid \<mapsto> q\<lparr>refs := Suc (refs q)\<rparr>),
    next_handle := Suc (next_handle s), handles := (next_handle s, \<lparr>h_pool = Some pid, h_ctx = cid\<rparr>) # handles s\<rparr>)"
    using old(1-3) old(4) [of _] old(5) [of cid] q by (intro add_handle_ok [OF ok p]) (auto simp: pool_ok_def)
  then show ?thesis using old(5) [of cid] q(1) by (simp add: acquired_def alive_def)
qed

lemma acquire_create_ok:
  assumes ok: "mgr_ok R s" and p: "pool_heap s pid = Some p" and take: "take_slot p = (Reserve, q)"
    and run: "CreateConnection rt env cs (s\<lparr>pool_heap := (pool_heap s)(pid \<mapsto> q)\<rparr>) = (Ret cid, t)"
  shows "acquired R (Some pid) s (Ret (next_handle s)) (t\<lparr>pool_heap := (pool_heap t)(pid \<mapsto> q\<lparr>refs := Suc (refs q)\<rparr>),
    next_handle := Suc (next_handle t), handles := (next_handle t, \<lparr>h_pool = Some pid, h_ctx = cid\<rparr>) # handles t\<rparr>)"
proof -
  let ?u = "t\<lparr>pool_heap := pool_heap s\<rparr>"
  note keep = CreateConnection_keeps [OF run]
  have live: "alive s x \<Longrightarrow> alive ?u x" for x using keep(8) [of x] by (simp add: alive_def)
  have ok': "mgr_ok R ?u" by (rule mgr_ok_cong [OF ok]) (simp_all add: keep live)
  have cid: "alive ?u cid" "\<not> alive s cid" using keep(9) [of cid] by (simp_all add: alive_def)
  have "cid \<notin> in_handles s" "\<And>x. cid \<notin> set (idle_in x s)" using not_alive_nowhere [OF ok cid(2)] by auto
  then have new: "cid \<notin> in_handles ?u" "cid \<notin> set (idle_in x ?u)" for x
    using keep by (simp_all add: in_handles_def idle_in_def)
  have q: "idle p = []" "idle q = []" "unat (total q) = Suc (unat (total p))"
    "unat (limit q) = unat (limit p)" "unat (total p) < unat (limit p)" "refs q = refs p"
    using pool.acquire_Reserve [OF take] take_slot_refs [OF take] by simp_all
  have "pool_ok R pid p ?u" using ok' p by (simp add: mgr_ok_def pools_ok_def)
  then have "mgr_ok R (?u\<lparr>pool_heap := (pool_heap ?u)(pid \<mapsto> q\<lparr>refs := Suc (refs q)\<rparr>),
      next_handle := Suc (next_handle ?u), handles := (next_handle ?u, \<lparr>h_pool = Some pid, h_ctx = cid\<rparr>) # handles ?u\<rparr>)"
    using q new cid by (intro add_handle_ok [OF ok', of pid p]) (auto simp: pool_ok_def p)
  then show ?thesis using keep cid(1) by (simp add: acquired_def alive_def)
qed

lemma acquire_loop_ok:
  assumes ok: "mgr_ok R s" and p: "pool_heap s pid = Some p"
    and run: "acquire_loop rt env cs pid n s = (r, t)"
  shows "acquired R (Some pid) s r t"
proof -
  obtain sl q where take: "take_slot p = (sl, q)" by fastforce
  have the: "the_pool_of pid s = p" using p by (simp add: the_pool_of_def)
  show ?thesis
  proof (cases sl)
    case (Reuse cid)
    then show ?thesis
      using run acquire_reuse_ok [OF ok p, of cid q] take
      by (simp add: acquire_reuse the make_handle_run)
  next
    case Full
    then show ?thesis using run acquire_full [of pid s q] ok take by (auto simp: the acquired_def)
  next
    case Reserve
    let ?s = "s\<lparr>pool_heap := (pool_heap s)(pid \<mapsto> q)\<rparr>"
    obtain r1 t1 where cr: "CreateConnection rt env cs ?s = (r1, t1)" by fastforce
    note keep = CreateConnection_keeps [OF cr]
    have heap: "pool_heap t1 pid = Some q" by (simp add: keep)
    have undone: "acquired R (Some pid) s r1 (t1\<lparr>pool_heap := (pool_heap t1)(pid \<mapsto> rollback_slot q)\<rparr>)"
      if "\<And>x. r1 \<noteq> Ret x"
    proof -
      have "rollback_slot q = p" using Reserve take by (auto simp: take_slot_def rollback_slot_def split: if_splits)
      then have "mgr_ok R (t1\<lparr>pool_heap := (pool_heap t1)(pid \<mapsto> rollback_slot q)\<rparr>)"
        using keep(8) p by (intro mgr_ok_cong [OF ok]) (auto simp: keep alive_def)
      then show ?thesis using that by (cases r1) (auto simp: acquired_def keep)
    qed
    show ?thesis
    proof (cases r1)
      case (Ret cid)
      then have "(r, t) = (Ret (next_handle t1), t1\<lparr>pool_heap := (pool_heap t1)(pid \<mapsto> q\<lparr>refs := Suc (refs q)\<rparr>),
          next_handle := Suc (next_handle t1), handles := (next_handle t1, \<lparr>h_pool = Some pid, h_ctx = cid\<rparr>) # handles t1\<rparr>)"
        using run cr heap take Reserve
        by (simp add: acquire_reserve the bind_def try_catch_def make_handle_run)
      then show ?thesis using acquire_create_ok [OF ok p _ cr [unfolded Ret]] take Reserve keep by simp
    next
      case (Throw e)
      then have "(r, t) = (Throw e, t1\<lparr>pool_heap := (pool_heap t1)(pid \<mapsto> rollback_slot q)\<rparr>)"
        using run cr heap take Reserve
        by (simp add: acquire_reserve the bind_def try_catch_def with_pool_def put_pool_def)
          (simp add: the_pool_of_def)
      then show ?thesis using undone Throw by (simp add: acquired_def)
    next
      case Stuck
      then show ?thesis using endsD [OF CreateConnection_ends] cr by metis
    qed
  qed
qed

lemma with_pool_run:
  "pool_heap s pid = Some p \<Longrightarrow> with_pool pid f s = (Ret (), s\<lparr>pool_heap := (pool_heap s)(pid \<mapsto> f p)\<rparr>)"
  by (simp add: with_pool_def the_pool_of_def put_pool_def)

lemma standalone_ok:
  assumes ok: "mgr_ok R s" and run: "bind (CreateConnection rt env cs) (make_handle None) s = (r, t)"
  shows "acquired R None s r t"
proof -
  obtain r1 t1 where cr: "CreateConnection rt env cs s = (r1, t1)" by fastforce
  note keep = CreateConnection_keeps [OF cr] and ok1 = CreateConnection_ok [OF cr ok]
  show ?thesis
  proof (cases r1)
    case (Ret cid)
    then have cid: "alive t1 cid" "\<not> alive s cid" using keep(9) by auto
    have "cid \<notin> in_handles s" "\<And>x. cid \<notin> set (idle_in x s)" using not_alive_nowhere [OF ok cid(2)] by auto
    then have "cid \<notin> in_handles t1" "\<And>x. cid \<notin> set (idle_in x t1)"
      using keep by (simp_all add: in_handles_def idle_in_def)
    from add_plain_handle_ok [OF ok1 this cid(1)] show ?thesis
      using run cr Ret keep cid(1) by (auto simp: bind_def make_handle_run acquired_def alive_def)
  qed (use run cr ok1 keep in \<open>auto simp: bind_def acquired_def\<close>)
qed

lemma Acquire_ok:
  assumes inv: "mgr_inv s" and run: "Acquire rt cs st s = (r, t)"
  shows "mgr_inv t \<and> (case r of
     Ret hid \<Rightarrow> \<exists>h. handles t = (hid, h) # handles s \<and> alive t (h_ctx h) \<and>
       h_pool h = (if connection_cache st then map_of (pools t) cs else None) \<and>
       (connection_cache st \<longrightarrow> map_of (pools t) cs \<noteq> None)
   | _ \<Rightarrow> handles t = handles s)"
proof -
  obtain r1 s1 where inst: "Instance rt s = (r1, s1)" by fastforce
  note same = Instance_keeps [OF inst]
  have ok1: "mgr_inv s1"
    using inv same unfolding mgr_inv_def by (auto intro: mgr_ok_cong [of "map snd (pools s)" s])
  show ?thesis
  proof (cases r1)
    case (Ret env)
    show ?thesis
    proof (cases "connection_cache st")
      case False
      have "bind (CreateConnection rt env cs) (make_handle None) s1 = (r, t)"
        using run inst Ret False by (simp add: Acquire_def bind_Ret)
      with ok1 have "acquired (map snd (pools s1)) None s1 r t" by (auto simp: mgr_inv_def intro: standalone_ok)
      then show ?thesis using same False
        by (cases r) (auto simp: acquired_def mgr_inv_def)
    next
      case True
      obtain pid s2 p where reg: "registry_pool cs s1 = (Ret pid, s2)" "mgr_inv s2" "handles s2 = handles s1"
          "pool_heap s2 pid = Some p" "map_of (pools s2) cs = Some pid"
        using registry_pool_ok [OF ok1] by blast
      let ?q = "raise_limit (connection_limit st) p"
      let ?s3 = "s2\<lparr>pool_heap := (pool_heap s2)(pid \<mapsto> ?q)\<rparr>"
      have "acquire_loop rt env cs pid (wakeups rt) ?s3 = (r, t)"
        using run inst Ret True reg(1,4) by (simp add: Acquire_def bind_Ret with_pool_run)
      moreover have "mgr_ok (map snd (pools s2)) ?s3"
        using reg(2) pool.widen [of "connection_limit st" p] unfolding mgr_inv_def
        by (intro mgr_ok_put_pool [OF _ reg(4)]) (auto simp: raise_limit_def)
      ultimately have "acquired (map snd (pools s2)) (Some pid) ?s3 r t" by (auto intro: acquire_loop_ok)
      then show ?thesis using True reg(3,5) same
        by (cases r) (auto simp: acquired_def mgr_inv_def)
    qed
  qed (use run inst ok1 same in \<open>auto simp: Acquire_def bind_def\<close>)
qed

section \<open>Giving back\<close>

text \<open>The contexts in \<open>cs\<close> are destroyed.\<close>

lemma destroy_all_run:
  "\<exists>w tr. for_each cs (destroy_ctx rt) s =
     (Ret (), s\<lparr>server := w, trace := tr, ctxs := (\<lambda>x. if x \<in> set cs then None else ctxs s x)\<rparr>)"
proof (induction cs arbitrary: s)
  case Nil
  show ?case by (intro exI [of _ "server s"] exI [of _ "trace s"]) simp
next
  case (Cons c cs)
  obtain w tr where 1: "destroy_ctx rt c s = (Ret (), s\<lparr>server := w, trace := tr, ctxs := (ctxs s)(c := None)\<rparr>)"
    using destroy_ctx_run [of rt c s] by blast
  let ?t = "s\<lparr>server := w, trace := tr, ctxs := (ctxs s)(c := None)\<rparr>"
  obtain w' tr' where "for_each cs (destroy_ctx rt) ?t =
      (Ret (), ?t\<lparr>server := w', trace := tr', ctxs := (\<lambda>x. if x \<in> set cs then None else ctxs ?t x)\<rparr>)"
    using Cons.IH [of ?t] by blast
  moreover have "(\<lambda>x. if x \<in> set cs then None else ctxs ?t x) = (\<lambda>x. if x \<in> set (c # cs) then None else ctxs s x)"
    by auto
  ultimately have "for_each (c # cs) (destroy_ctx rt) s = (Ret (), s\<lparr>server := w', trace := tr',
      ctxs := (\<lambda>x. if x \<in> set (c # cs) then None else ctxs s x)\<rparr>)"
    using 1 by (simp add: bind_Ret)
  then show ?case by blast
qed

lemma drop_pool_ref_ok:
  assumes ok: "mgr_ok (pid # R) s"
  shows "\<exists>t. drop_pool_ref rt pid s = (Ret (), t) \<and> mgr_ok R t \<and> handles t = handles s \<and> pools t = pools s"
proof -
  have old: "pools_ok (pid # R) s" "places_ok s" "sessions_alive s" using ok by (simp_all add: mgr_ok_def)
  obtain p where p: "pool_heap s pid = Some p" using old(1) by (auto simp: pools_ok_def)
  note pok = mgr_ok_pool [OF ok p]
  have the: "the_pool_of pid s = p" using p by (simp add: the_pool_of_def)
  have others: "pool_ok R x q s" if "pool_heap s x = Some q" "x \<noteq> pid" for x q
    using mgr_ok_pool(1) [OF ok that(1)] that(2) by (simp add: pool_ok_def)
  show ?thesis
  proof (cases "refs p \<le> 1")
    case False
    let ?q = "p\<lparr>refs := refs p - 1\<rparr>"
    let ?t = "s\<lparr>pool_heap := (pool_heap s)(pid \<mapsto> ?q)\<rparr>"
    have run: "drop_pool_ref rt pid s = (Ret (), ?t)"
      using False by (simp add: drop_pool_ref_def the put_pool_def)
    have "pool_ok R pid ?q ?t" using pok(1) by (simp add: pool_ok_def)
    then have "pools_ok R ?t" using others old(1) by (auto simp: pools_ok_def pool_ok_def)
    moreover have "idle_in x ?t = idle_in x s" "alive ?t = alive s" for x
      using p by (auto simp: idle_in_def alive_def fun_eq_iff)
    ultimately have "mgr_ok R ?t" using old by (simp add: mgr_ok_def places_ok_def sessions_alive_def)
    with run show ?thesis by simp
  next
    case True
    have none: "pid \<notin> set R" "busy_with pid s = 0"
      using True pok(1) by (auto simp: pool_ok_def filter_empty_conv)
    obtain w tr where destroyed: "for_each (idle p) (destroy_ctx rt) s = (Ret (), s\<lparr>server := w, trace := tr,
        ctxs := (\<lambda>x. if x \<in> set (idle p) then None else ctxs s x)\<rparr>)"
      using destroy_all_run [of "idle p" rt s] by blast
    let ?t = "s\<lparr>server := w, trace := tr, ctxs := (\<lambda>x. if x \<in> set (idle p) then None else ctxs s x),
        pool_heap := (pool_heap s)(pid := None)\<rparr>"
    have run: "drop_pool_ref rt pid s = (Ret (), ?t)"
      using True destroyed by (simp add: drop_pool_ref_def the bind_Ret)
    have idle: "idle_in x ?t = (if x = pid then [] else idle_in x s)" for x by (simp add: idle_in_def)
    have live: "alive ?t x" if "alive s x" "x \<notin> set (idle p)" for x using that by (auto simp: alive_def)
    have "pools_ok R ?t"
      using others old(1) none by (auto simp: pools_ok_def pool_ok_def)
    moreover have "places_ok ?t" using old(2) by (simp add: places_ok_def idle)
    moreover have "sessions_alive ?t"
      using old(3) pok(3) pok(4) live unfolding sessions_alive_def idle by (auto split: if_splits) blast+
    ultimately show ?thesis using run by (simp add: mgr_ok_def)
  qed
qed

lemma length_filter_remove:
  assumes "distinct (map fst hs)" and "(k, x) \<in> set hs"
  shows "length (filter P hs) = length (filter P (filter (\<lambda>e. fst e \<noteq> k) hs)) + (if P (k, x) then 1 else 0)"
  using assms
proof (induction hs)
  case (Cons e hs)
  show ?case
  proof (cases "e = (k, x)")
    case True
    then have "filter (\<lambda>e. fst e \<noteq> k) hs = hs" using Cons.prems(1) by (force simp: filter_id_conv)
    with True show ?thesis by simp
  next
    case False
    then have "(k, x) \<in> set hs" "fst e \<noteq> k" using Cons.prems by (auto simp: image_iff)
    then show ?thesis using Cons by simp
  qed
qed simp

text \<open>A handle is taken out of the list of handles; its session and its reference are then in the
  hands of the caller.\<close>

lemma take_out:
  assumes ok: "mgr_ok R s" and h: "map_of (handles s) hid = Some h"
  defines "t \<equiv> s\<lparr>handles := filter (\<lambda>e. fst e \<noteq> hid) (handles s)\<rparr>"
  shows "busy_with pid s = busy_with pid t + (if h_pool h = Some pid then 1 else 0)"
    and "in_handles s = insert (h_ctx h) (in_handles t)" and "h_ctx h \<notin> in_handles t"
    and "h_ctx h \<notin> set (idle_in x s)" and "alive s (h_ctx h)" and "places_ok t" and "sessions_alive t"
    and "idle_in x t = idle_in x s"
proof -
  have old: "places_ok s" "sessions_alive s" using ok by (simp_all add: mgr_ok_def)
  have mem: "(hid, h) \<in> set (handles s)" using h by (rule map_of_SomeD)
  have d: "distinct (map fst (handles s))" "distinct (map (\<lambda>e. h_ctx (snd e)) (handles s))"
    using old(1) by (simp_all add: places_ok_def)
  show "busy_with pid s = busy_with pid t + (if h_pool h = Some pid then 1 else 0)"
    using length_filter_remove [OF d(1) mem, of "\<lambda>e. h_pool (snd e) = Some pid"]
    by (simp add: busy_with_def t_def del: filter_filter)
  have only: "e = (hid, h)" if "e \<in> set (handles s)" "fst e = hid" for e
    using that mem d(1) by (simp add: distinct_map inj_on_def)
  have "set (handles s) = insert (hid, h) {e \<in> set (handles s). fst e \<noteq> hid}"
    using mem only by blast
  then have "in_handles s = (\<lambda>e. h_ctx (snd e)) ` insert (hid, h) {e \<in> set (handles s). fst e \<noteq> hid}"
    unfolding in_handles_def by simp
  then show ins: "in_handles s = insert (h_ctx h) (in_handles t)" by (simp add: in_handles_def t_def)
  have in_s: "h_ctx h \<in> in_handles s" using ins by simp
  show "h_ctx h \<notin> in_handles t"
  proof
    assume "h_ctx h \<in> in_handles t"
    then obtain e where e: "e \<in> set (handles s)" "fst e \<noteq> hid" "h_ctx (snd e) = h_ctx h"
      by (auto simp: in_handles_def t_def)
    then have "e = (hid, h)" using d(2) mem by (auto simp: distinct_map inj_on_def)
    with e(2) show False by simp
  qed
  have "set (idle_in x s) \<inter> in_handles s = {}" using old(1) by (simp add: places_ok_def)
  then show "h_ctx h \<notin> set (idle_in x s)" using in_s by blast
  show "alive s (h_ctx h)" using old(2) in_s by (simp add: sessions_alive_def)
  have idle: "idle_in y t = idle_in y s" for y by (simp add: idle_in_def t_def)
  then show "idle_in x t = idle_in x s" .
  have "distinct (map fst (handles t))" "distinct (map (\<lambda>e. h_ctx (snd e)) (handles t))"
    unfolding t_def using d by (simp_all add: distinct_map_filter)
  then show "places_ok t" using old(1) ins by (simp add: places_ok_def idle)
  have "alive t = alive s" by (simp add: alive_def t_def fun_eq_iff)
  then show "sessions_alive t" using old(2) ins by (simp add: sessions_alive_def idle)
qed

lemma release_plain_ok:
  assumes ok: "mgr_ok R s" and h: "map_of (handles s) hid = Some h" and np: "h_pool h = None"
  shows "\<exists>t. release_handle rt hid s = (Ret (), t) \<and> mgr_ok R t \<and> pools t = pools s \<and>
    handles t = filter (\<lambda>e. fst e \<noteq> hid) (handles s)"
proof -
  let ?u = "s\<lparr>handles := filter (\<lambda>e. fst e \<noteq> hid) (handles s)\<rparr>"
  note out = take_out [OF ok h]
  obtain w tr where run: "destroy_ctx rt (h_ctx h) ?u =
      (Ret (), ?u\<lparr>server := w, trace := tr, ctxs := (ctxs ?u)(h_ctx h := None)\<rparr>)" (is "_ = (Ret (), ?t)")
    using destroy_ctx_run [of rt "h_ctx h" ?u] by blast
  have eq: "busy_with x ?u = busy_with x s" "idle_in x ?t = idle_in x s" "in_handles ?t = in_handles ?u" for x
    using out(1) [of x] np by (simp_all add: idle_in_def in_handles_def)
  have live: "alive ?t x" if "alive s x" "x \<noteq> h_ctx h" for x using that by (simp add: alive_def)
  have "pools_ok R ?t" using ok by (auto simp: mgr_ok_def pools_ok_def pool_ok_def eq)
  moreover have "places_ok ?t"
    using out(6) out(8) by (simp add: places_ok_def eq)
  moreover have "sessions_alive ?t"
    using ok out(2-4) live unfolding mgr_ok_def sessions_alive_def eq by blast
  ultimately show ?thesis using run h np by (simp add: release_handle_def mgr_ok_def)
qed

lemma give_back_ok:
  assumes ok: "mgr_ok R s" and h: "map_of (handles s) hid = Some h" and hp: "h_pool h = Some pid"
    and p: "pool_heap s pid = Some p"
  shows "mgr_ok (pid # R) (s\<lparr>handles := filter (\<lambda>e. fst e \<noteq> hid) (handles s),
    pool_heap := (pool_heap s)(pid \<mapsto> give_back (h_ctx h) p)\<rparr>)" (is "mgr_ok _ ?t")
proof -
  let ?u = "s\<lparr>handles := filter (\<lambda>e. fst e \<noteq> hid) (handles s)\<rparr>"
  note out = take_out [OF ok h] and pok = mgr_ok_pool [OF ok p]
  have old: "pools_ok R s" "places_ok s" "sessions_alive s" using ok by (simp_all add: mgr_ok_def)
  have busy: "busy_with x s = busy_with x ?u + (if x = pid then 1 else 0)" for x
    using out(1) [of x] hp by simp
  have q: "idle (give_back (h_ctx h) p) = idle p @ [h_ctx h]"
    "unat (total (give_back (h_ctx h) p)) = unat (total p)" "unat (limit (give_back (h_ctx h) p)) = unat (limit p)"
    using pool.give_back [of "h_ctx h" p] by simp_all
  have idle: "idle_in x ?t = (if x = pid then idle p @ [h_ctx h] else idle_in x s)" for x
    using q(1) by (simp add: idle_in_def)
  have ins: "in_handles ?t = in_handles ?u" "alive ?t = alive s"
    by (simp_all add: in_handles_def alive_def fun_eq_iff)
  have new: "pool_ok (pid # R) pid (give_back (h_ctx h) p) ?t"
    using pok(1) busy [of pid] q by (simp add: pool_ok_def give_back_def)
  have others: "pool_ok (pid # R) x r ?t" if "pool_heap s x = Some r" "x \<noteq> pid" for x r
    using mgr_ok_pool(1) [OF ok that(1)] that(2) busy [of x] by (simp add: pool_ok_def)
  have there: "pool_heap s x \<noteq> None" if "x \<in> set (pid # R) \<or> 0 < busy_with x ?u" for x
    using old(1) that p busy [of x] by (cases "x = pid") (auto simp: pools_ok_def)
  have "pools_ok (pid # R) ?t"
    using new others there old(1) unfolding pools_ok_def by auto
  moreover have "places_ok ?t"
  proof -
    have 1: "distinct (idle_in x s) \<and> set (idle_in x s) \<inter> in_handles ?u = {}" for x
      using old(2) out(2) by (auto simp: places_ok_def)
    have here: "idle_in pid s = idle p" using p by (simp add: idle_in_def)
    have "distinct (idle_in x ?t) \<and> set (idle_in x ?t) \<inter> in_handles ?t = {}" for x
      unfolding idle ins using 1 [of x] 1 [of pid] out(3) out(4) [of pid] by (auto simp: here)
    moreover have "set (idle_in x ?t) \<inter> set (idle_in y ?t) = {}" if "x \<noteq> y" for x y
    proof -
      have "set (idle_in x s) \<inter> set (idle_in y s) = {}" using old(2) that by (simp add: places_ok_def)
      then show ?thesis unfolding idle using that out(4) [of x] out(4) [of y] here by auto
    qed
    ultimately show ?thesis using out(6) by (simp add: places_ok_def)
  qed
  moreover have "sessions_alive ?t"
    using old(3) out(2,5) pok(5) unfolding sessions_alive_def idle ins by auto
  ultimately show ?thesis by (simp add: mgr_ok_def)
qed

lemma drop_pool_ref_run: "\<exists>t. drop_pool_ref rt pid s = (Ret (), t)"
proof -
  obtain t where "for_each (idle (the_pool_of pid s)) (destroy_ctx rt) s = (Ret (), t)"
    using destroy_all_run [of "idle (the_pool_of pid s)" rt s] by blast
  then show ?thesis by (simp add: drop_pool_ref_def put_pool_def bind_Ret)
qed

text \<open>Releasing a handle always comes to an end.\<close>

lemma release_handle_run: "\<exists>t. release_handle rt hid s = (Ret (), t)"
proof -
  have destroy: "\<exists>t. destroy_ctx rt cid u = (Ret (), t)" for cid and u :: "('a, 'b) mgr_scheme"
    using destroy_ctx_run [of rt cid u] by blast
  have drop: "\<exists>t. drop_pool_ref rt pid u = (Ret (), t)" for pid and u :: "('a, 'b) mgr_scheme"
    by (rule drop_pool_ref_run)
  show ?thesis
    by (cases "map_of (handles s) hid")
      (auto simp: release_handle_def with_pool_def put_pool_def bind_assoc destroy drop split: option.split)
qed

lemma release_ok:
  assumes ok: "mgr_ok R s"
  shows "\<exists>t. release_handle rt hid s = (Ret (), t) \<and> mgr_ok R t \<and> pools t = pools s \<and>
    handles t = filter (\<lambda>e. fst e \<noteq> hid) (handles s)"
proof (cases "map_of (handles s) hid")
  case None
  then have "filter (\<lambda>e. fst e \<noteq> hid) (handles s) = handles s"
    by (auto simp: map_of_eq_None_iff filter_id_conv)
  with None ok show ?thesis by (simp add: release_handle_def)
next
  case (Some h)
  show ?thesis
  proof (cases "h_pool h")
    case None
    then show ?thesis using release_plain_ok [OF ok Some] by blast
  next
    case (Some pid)
    have h: "map_of (handles s) hid = Some h" by fact
    have "0 < busy_with pid s" using take_out(1) [OF ok h, of pid] Some by simp
    then obtain p where p: "pool_heap s pid = Some p" using ok by (fastforce simp: mgr_ok_def pools_ok_def)
    from drop_pool_ref_ok [OF give_back_ok [OF ok h Some p], of rt]
    show ?thesis using h Some p by (auto simp: release_handle_def with_pool_run bind_Ret)
  qed
qed

lemma Clear_ok:
  assumes inv: "mgr_inv s"
  shows "\<exists>t. Clear rt s = (Ret (), t) \<and> mgr_inv t \<and> pools t = [] \<and> handles t = handles s"
proof -
  have drop: "\<exists>t. for_each R (drop_pool_ref rt) u = (Ret (), t) \<and> mgr_ok [] t \<and> pools t = pools u \<and> handles t = handles u"
    if "mgr_ok R u" for R and u :: "('a, 'b) mgr_scheme"
    using that
  proof (induction R arbitrary: u)
    case (Cons pid R)
    then obtain t where "drop_pool_ref rt pid u = (Ret (), t)" "mgr_ok R t" "handles t = handles u" "pools t = pools u"
      using drop_pool_ref_ok by blast
    with Cons.IH [of t] show ?case by (auto simp: bind_Ret)
  qed simp
  have "mgr_ok (map snd (pools s)) (s\<lparr>pools := []\<rparr>)"
    using inv by (auto simp: mgr_inv_def alive_def intro: mgr_ok_cong)
  from drop [OF this] show ?thesis by (auto simp: Clear_def mgr_inv_def)
qed

lemma Instance_hit: "mgr_env s = Some env \<Longrightarrow> Instance rt s = (Ret env, s)"
  by (simp add: Instance_def)

lemma registry_hit: "map_of (pools s) cs = Some pid \<Longrightarrow> registry_pool cs s = (Ret pid, s)"
  by (simp add: registry_pool_def)

lemma Acquire_hit:
  assumes "mgr_env s = Some env" and "connection_cache st" and "map_of (pools s) cs = Some pid"
    and "pool_heap s pid = Some p"
  shows "Acquire rt cs st s = acquire_loop rt env cs pid (wakeups rt)
    (s\<lparr>pool_heap := (pool_heap s)(pid \<mapsto> raise_limit (connection_limit st) p)\<rparr>)"
proof -
  note i = Instance_hit [OF assms(1), of rt] and r = registry_hit [OF assms(3)]
    and w = with_pool_run [OF assms(4), of "raise_limit (connection_limit st)"]
  show ?thesis unfolding Acquire_def using assms(2) by (simp add: bind_def i r w)
qed

text \<open>With a working client library \<open>Acquire\<close> succeeds unless the pool is exhausted.\<close>

lemma Instance_returns: "healthy rt \<Longrightarrow> returns (Instance rt)"
  unfolding Instance_def
  apply (rule returns_bind, simp)
  subgoal for m by (cases m) (simp only: option.case, rule healthy_bind_call, auto)
  done

lemma make_handle_returns: "returns (make_handle pid cid)"
  by (auto simp: make_handle_def with_pool_def put_pool_def split: option.split)

lemma acquire_loop_returns:
  assumes "healthy rt" and "ParseOracleConnectionString cs = Inr x" and "fst (take_slot (the_pool_of pid s)) \<noteq> Full"
  shows "\<exists>hid t. acquire_loop rt env cs pid n s = (Ret hid, t)"
proof -
  obtain sl q where take: "take_slot (the_pool_of pid s) = (sl, q)" by fastforce
  show ?thesis
  proof (cases sl)
    case (Reuse cid)
    then show ?thesis using take acquire_reuse [of pid s cid q] returnsD [OF make_handle_returns] by simp
  next
    case Reserve
    have "returns (bind (try_catch (CreateConnection rt env cs)
        (\<lambda>e. bind (with_pool pid rollback_slot) (\<lambda>_. throw e))) (make_handle (Some pid)))"
      using CreateConnection_returns [OF assms(1,2)] make_handle_returns by blast
    then show ?thesis using Reserve take acquire_reserve [of pid s q] returnsD by fastforce
  qed (use assms(3) take in simp)
qed

lemma Acquire_room:
  assumes inv: "mgr_inv s" and rt: "healthy rt" and cs: "ParseOracleConnectionString cs = Inr x"
    and room: "\<And>pid p. connection_cache st \<Longrightarrow> map_of (pools s) cs = Some pid \<Longrightarrow> pool_heap s pid = Some p \<Longrightarrow>
      busy_with pid s < max (unat (limit p)) (unat (connection_limit st))"
  shows "\<exists>hid t. Acquire rt cs st s = (Ret hid, t)"
proof -
  obtain env s1 where inst: "Instance rt s = (Ret env, s1)" using returnsD [OF Instance_returns [OF rt]] by blast
  note same = Instance_keeps [OF inst]
  show ?thesis
  proof (cases "connection_cache st")
    case False
    have "returns (bind (CreateConnection rt env cs) (make_handle None))"
      using CreateConnection_returns [OF rt cs] make_handle_returns by blast
    then show ?thesis using False inst returnsD by (fastforce simp: Acquire_def bind_Ret)
  next
    case True
    have inv1: "mgr_inv s1"
      using inv same unfolding mgr_inv_def by (auto intro: mgr_ok_cong [of "map snd (pools s)" s])
    obtain pid s2 p where reg: "registry_pool cs s1 = (Ret pid, s2)" "mgr_inv s2" "handles s2 = handles s1"
        "pool_heap s2 pid = Some p" "map_of (pools s2) cs = Some pid"
      using registry_pool_ok [OF inv1] by blast
    let ?q = "raise_limit (connection_limit st) p"
    let ?s3 = "s2\<lparr>pool_heap := (pool_heap s2)(pid \<mapsto> ?q)\<rparr>"
    have ok: "pool_ok (map snd (pools s2)) pid p s2"
      using reg(2,4) mgr_ok_pool(1) by (simp add: mgr_inv_def)
    have busy: "busy_with pid s2 = busy_with pid s" using reg(3) same by (simp add: busy_with_def)
    have "busy_with pid s < max (unat (limit p)) (unat (connection_limit st))"
    proof (cases "map_of (pools s) cs")
      case (Some x)
      then show ?thesis using reg room [OF True, of x p] same by (auto simp: registry_pool_def)
    next
      case None
      then have p: "pid = next_pool s" "p = new_pool" using reg(1,4) same by (auto simp: registry_pool_def)
      have "busy_with pid s = 0"
      proof (rule ccontr)
        assume "busy_with pid s \<noteq> 0"
        then obtain r where "pool_heap s pid = Some r"
          using inv by (fastforce simp: mgr_inv_def mgr_ok_def pools_ok_def)
        then show False using inv mgr_ok_pool(1) p(1) by (fastforce simp: mgr_inv_def pool_ok_def)
      qed
      then show ?thesis by (simp add: p(2) new_pool_def)
    qed
    then have "fst (take_slot ?q) \<noteq> Full"
      using pool.Full_iff_busy [of ?q _ "snd (take_slot ?q)" "busy_with pid s"] ok busy
        pool.widen_accounts [of p "busy_with pid s" "connection_limit st"]
      by (auto simp: pool_ok_def take_slot_def raise_limit_def word_less_nat_alt split: if_splits)
    then have "fst (take_slot (the_pool_of pid ?s3)) \<noteq> Full" by (simp add: the_pool_of_def)
    from acquire_loop_returns [OF rt cs this] show ?thesis
      using inst reg(1,4) True by (simp add: Acquire_def bind_Ret with_pool_run)
  qed
qed

section \<open>Histories of the manager\<close>

text \<open>What the rest of the extension does with the manager, in any order; an exception of one
  operation does not stop the next.\<close>

datatype mgr_op = OpAcquire string OracleSettings | OpRelease nat | OpClear

definition run_op :: "'w rt \<Rightarrow> mgr_op \<Rightarrow> ('w, 'z) mgr_scheme \<Rightarrow> ('w, 'z) mgr_scheme" where
  "run_op rt op s = (case op of
     OpAcquire cs st \<Rightarrow> snd (Acquire rt cs st s)
   | OpRelease hid \<Rightarrow> snd (release_handle rt hid s)
   | OpClear \<Rightarrow> snd (Clear rt s))"

definition run_ops :: "'w rt \<Rightarrow> mgr_op list \<Rightarrow> ('w, 'z) mgr_scheme \<Rightarrow> ('w, 'z) mgr_scheme" where
  "run_ops rt ops s = fold (run_op rt) ops s"

lemma run_op_inv:
  assumes "mgr_inv s"
  shows "mgr_inv (run_op rt op s)"
proof (cases op)
  case (OpAcquire cs st)
  then show ?thesis
    using Acquire_ok [OF assms, of rt cs st "fst (Acquire rt cs st s)"] by (simp add: run_op_def)
next
  case (OpRelease hid)
  then show ?thesis
    using release_ok [OF assms [unfolded mgr_inv_def], of rt hid] by (auto simp: run_op_def mgr_inv_def)
next
  case OpClear
  then show ?thesis using Clear_ok [OF assms, of rt] by (auto simp: run_op_def)
qed

lemma run_ops_inv: "mgr_inv s \<Longrightarrow> mgr_inv (run_ops rt ops s)"
  unfolding run_ops_def by (induction ops arbitrary: s) (simp_all add: run_op_inv)

lemma release_then_acquire:
  assumes "mgr_inv s" and "mgr_env s = Some env" and "connection_cache st"
    and "map_of (handles s) hid = Some h" and "h_pool h = Some pid" and "map_of (pools s) cs = Some pid"
  shows "\<exists>t u hid'. release_handle rt hid s = (Ret (), t) \<and> Acquire rt cs st t = (Ret hid', u) \<and>
    map_of (handles u) hid' = Some h \<and> trace u = trace s"
proof -
  have ok: "mgr_ok (map snd (pools s)) s" using assms(1) by (simp add: mgr_inv_def)
  have "0 < busy_with pid s" using take_out(1) [OF ok assms(4), of pid] assms(5) by simp
  then obtain p where p: "pool_heap s pid = Some p" using ok by (fastforce simp: mgr_ok_def pools_ok_def)
  have "(cs, pid) \<in> set (pools s)" using assms(6) by (rule map_of_SomeD)
  then have "0 < length (filter ((=) pid) (map snd (pools s)))" by (force simp: filter_empty_conv)
  then have refs: "1 < refs p"
    using mgr_ok_pool(1) [OF ok p] \<open>0 < busy_with pid s\<close> unfolding pool_ok_def by linarith
  let ?q = "p\<lparr>idle := idle p @ [h_ctx h], refs := refs p - 1\<rparr>"
  let ?t = "s\<lparr>handles := filter (\<lambda>e. fst e \<noteq> hid) (handles s), pool_heap := (pool_heap s)(pid \<mapsto> ?q)\<rparr>"
  have rel: "release_handle rt hid s = (Ret (), ?t)"
    using assms(4,5) p refs
    by (simp add: release_handle_def with_pool_def the_pool_of_def put_pool_def give_back_def drop_pool_ref_def
        bind_def)
  let ?r = "raise_limit (connection_limit st) ?q"
  have take: "take_slot ?r = (Reuse (h_ctx h), ?r\<lparr>idle := idle p\<rparr>)"
    by (simp add: take_slot_def raise_limit_def)
  let ?u = "?t\<lparr>pool_heap := (pool_heap s)(pid \<mapsto> ?r)\<rparr>"
  have the: "the_pool_of pid ?u = ?r" by (simp add: the_pool_of_def)
  have "Acquire rt cs st ?t = acquire_loop rt env cs pid (wakeups rt) ?u"
    using Acquire_hit [of ?t env st cs pid ?q rt] assms(2,3,6) by simp
  also have "\<dots> = make_handle (Some pid) (h_ctx h) (?u\<lparr>pool_heap := (pool_heap ?u)(pid \<mapsto> ?r\<lparr>idle := idle p\<rparr>)\<rparr>)"
    using acquire_reuse [of pid ?u] take the by simp
  finally show ?thesis
    using rel assms(5) by (simp add: make_handle_run)
qed

section \<open>Properties\<close>

text \<open>C4: In every history of the manager the session of each handle is alive and connected and in no
  other handle; the pool of each handle still exists; and of every pool, \<open>total\<close> is the number of its idle and
  its busy sessions, within the limit, and the use count is what the registry and the handles hold.\<close>

theorem manager_invariant:
  "let s = run_ops rt ops (init_mgr w) in
     (\<forall>hid h. (hid, h) \<in> set (handles s) \<longrightarrow>
        (\<exists>c. ctxs s (h_ctx h) = Some c \<and> connected c) \<and>
        (\<forall>pid. h_pool h = Some pid \<longrightarrow> (\<exists>p. pool_heap s pid = Some p \<and> h_ctx h \<notin> set (idle p)))) \<and>
     distinct (map (\<lambda>e. h_ctx (snd e)) (handles s)) \<and>
     (\<forall>pid p. pool_heap s pid = Some p \<longrightarrow>
        unat (total p) = length (idle p) + busy_with pid s \<and> total p \<le> limit p \<and>
        refs p = length (filter (\<lambda>e. pid = snd e) (pools s)) + busy_with pid s)"
proof -
  let ?s = "run_ops rt ops (init_mgr w)"
  have inv: "mgr_ok (map snd (pools ?s)) ?s"
    using run_ops_inv [OF mgr_inv_init] by (simp add: mgr_inv_def)
  have 1: "\<exists>p. pool_heap ?s pid = Some p \<and> h_ctx h \<notin> set (idle p)"
    if mem: "(hid, h) \<in> set (handles ?s)" and hp: "h_pool h = Some pid" for hid h pid
  proof -
    have held: "h_ctx h \<in> in_handles ?s" using mem by (force simp: in_handles_def)
    have "filter (\<lambda>e. h_pool (snd e) = Some pid) (handles ?s) \<noteq> []"
      using mem hp unfolding filter_empty_conv by fastforce
    then have "0 < busy_with pid ?s" by (simp add: busy_with_def)
    then obtain p where "pool_heap ?s pid = Some p" using inv by (fastforce simp: mgr_ok_def pools_ok_def)
    then show ?thesis using mgr_ok_pool(3) [OF inv] held by blast
  qed
  have 2: "\<exists>c. ctxs ?s (h_ctx h) = Some c \<and> connected c" if mem: "(hid, h) \<in> set (handles ?s)" for hid h
  proof -
    have "h_ctx h \<in> in_handles ?s" using mem by (force simp: in_handles_def)
    then show ?thesis using inv by (auto simp: mgr_ok_def sessions_alive_def alive_def)
  qed
  have 3: "unat (total p) = length (idle p) + busy_with pid ?s \<and> total p \<le> limit p \<and>
      refs p = length (filter (\<lambda>e. pid = snd e) (pools ?s)) + busy_with pid ?s"
    if "pool_heap ?s pid = Some p" for pid p
    using mgr_ok_pool(1) [OF inv that] by (simp add: pool_ok_def word_le_nat_alt filter_map comp_def)
  have 4: "distinct (map (\<lambda>e. h_ctx (snd e)) (handles ?s))" using inv by (simp add: mgr_ok_def places_ok_def)
  show ?thesis
    unfolding Let_def using 1 2 3 4 by blast
qed

lemma sample_acquired:
  "\<exists>hid h. (hid, h) \<in> set (handles (run_ops (sample_rt (\<lambda>_. False))
     [OpAcquire ''scott/tiger@db'' default_settings] (init_mgr 0)))"
proof -
  have "ParseOracleConnectionString ''scott/tiger@db'' = Inr (''scott'', ''tiger'', ''db'')" by code_simp
  then obtain hid t where run: "Acquire (sample_rt (\<lambda>_. False)) ''scott/tiger@db'' default_settings (init_mgr 0) = (Ret hid, t)"
    using Acquire_room [OF mgr_inv_init sample_rt_healthy, of _ _ default_settings] by (fastforce simp: init_mgr_def)
  then obtain h where "handles t = (hid, h) # handles (init_mgr (0 :: nat))"
    using Acquire_ok [OF mgr_inv_init run] by auto
  then have "(hid, h) \<in> set (handles t)" by simp
  then show ?thesis unfolding run_ops_def run_op_def using run by auto
qed

theorem manager_invariant_witness:
  "\<exists>hid h c. (hid, h) \<in> set (handles (run_ops (sample_rt (\<lambda>_. False))
       [OpAcquire ''scott/tiger@db'' default_settings] (init_mgr 0))) \<and>
     ctxs (run_ops (sample_rt (\<lambda>_. False))
       [OpAcquire ''scott/tiger@db'' default_settings] (init_mgr 0)) (h_ctx h) = Some c \<and> connected c"
  using sample_acquired manager_invariant [of "sample_rt (\<lambda>_. False)"
      "[OpAcquire ''scott/tiger@db'' default_settings]" 0] unfolding Let_def by blast

text \<open>C18: A pool whose sessions are all in use gives none out: with the limit reached and no idle
  session, a cached \<open>Acquire\<close> throws the timeout after its last wakeup and changes nothing,
  however long it waits.\<close>

theorem exhausted_pool_times_out:
  assumes "mgr_inv s" and "mgr_env s = Some env" and "connection_cache st"
    and "map_of (pools s) cs = Some pid" and "pool_heap s pid = Some p"
    and "connection_limit st \<le> limit p" and "busy_with pid s = unat (limit p)"
  shows "Acquire rt cs st s = (Throw pool_timeout, s)"
proof -
  have ok: "pool_ok (map snd (pools s)) pid p s"
    using assms(1) mgr_ok_pool(1) [OF _ assms(5)] by (simp add: mgr_inv_def)
  have p: "the_pool_of pid s = p" by (simp add: the_pool_of_def assms(5))
  have "idle p = []" "\<not> total p < limit p"
    using ok assms(7) by (simp_all add: pool_ok_def word_less_nat_alt)
  then have full: "take_slot (the_pool_of pid s) = (Full, p)" by (simp add: take_slot_def p)
  have "raise_limit (connection_limit st) p = p" using assms(6) by (simp add: raise_limit_def)
  moreover have "s\<lparr>pool_heap := (pool_heap s)(pid \<mapsto> p)\<rparr> = s"
    using assms(5) by (simp add: fun_upd_idem)
  ultimately show ?thesis
    using acquire_full [OF full, of rt env cs "wakeups rt"] by (simp add: Acquire_hit [OF assms(2-5)])
qed

definition busy_state :: "nat mgr" where
  "busy_state = (init_mgr 0)\<lparr>mgr_env := Some (Some 0),
     ctxs := (\<lambda>_. Some (new_context\<lparr>connected := True\<rparr>)), next_ctx := 8,
     pools := [(''scott/tiger@db'', 0)], pool_heap := [0 \<mapsto> \<lparr>idle = [], total = 8, limit = 8, refs = 9\<rparr>],
     next_pool := 1, handles := map (\<lambda>i. (i, \<lparr>h_pool = Some 0, h_ctx = i\<rparr>)) [0..<8], next_handle := 8\<rparr>"

lemma busy_state_inv: "mgr_inv busy_state"
  by (auto simp: mgr_inv_def mgr_ok_def pools_ok_def pool_ok_def places_ok_def sessions_alive_def alive_def
      in_handles_def idle_in_def busy_with_def busy_state_def init_mgr_def comp_def filter_map
      split: if_splits option.splits)

theorem exhausted_pool_times_out_witness:
  "Acquire (sample_rt (\<lambda>_. False)) ''scott/tiger@db'' default_settings busy_state = (Throw pool_timeout, busy_state)"
  by (rule exhausted_pool_times_out [OF busy_state_inv, where env = "Some 0" and pid = 0 and
        p = "\<lparr>idle = [], total = 8, limit = 8, refs = 9\<rparr>"])
    (simp_all add: busy_state_def default_settings_def busy_with_def filter_map comp_def)

text \<open>C19: \<open>Acquire\<close> succeeds whenever it can: if the connection string is well formed and the client library
  does not fail, a handle is returned unless caching is on and every session up to the limit, as the settings
  may raise it, is in use.\<close>

theorem Acquire_succeeds:
  assumes "mgr_inv s" and "healthy rt" and "ParseOracleConnectionString cs = Inr x"
    and "\<not> connection_cache st \<or> map_of (pools s) cs = None \<or>
      (\<exists>pid p. map_of (pools s) cs = Some pid \<and> pool_heap s pid = Some p \<and>
        busy_with pid s < max (unat (limit p)) (unat (connection_limit st)))"
  shows "\<exists>hid h t. Acquire rt cs st s = (Ret hid, t) \<and> map_of (handles t) hid = Some h \<and>
    (\<exists>c. ctxs t (h_ctx h) = Some c \<and> connected c)"
proof -
  obtain hid t where run: "Acquire rt cs st s = (Ret hid, t)"
    using Acquire_room [OF assms(1-3), of st] assms(4) by fastforce
  then obtain h where "handles t = (hid, h) # handles s" "alive t (h_ctx h)"
    using Acquire_ok [OF assms(1) run] by auto
  then show ?thesis using run by (auto simp: alive_def)
qed

lemma sample_parses: "ParseOracleConnectionString ''scott/tiger@db'' = Inr (''scott'', ''tiger'', ''db'')"
  by code_simp

theorem Acquire_succeeds_witness:
  "\<exists>hid h t. Acquire (sample_rt (\<lambda>_. False)) ''scott/tiger@db'' default_settings (init_mgr 0) = (Ret hid, t) \<and>
    map_of (handles t) hid = Some h \<and> (\<exists>c. ctxs t (h_ctx h) = Some c \<and> connected c)"
  by (rule Acquire_succeeds [OF mgr_inv_init sample_rt_healthy sample_parses]) (simp add: init_mgr_def)

text \<open>C17: A session that was given back is the next one handed out, and no OCI call is made for it:
  releasing a handle of a registered pool and acquiring with the same connection string gives a new handle on
  the same session.\<close>

theorem released_session_is_reused:
  assumes "mgr_inv s" and "mgr_env s = Some env" and "connection_cache st"
    and "map_of (handles s) hid = Some h" and "h_pool h = Some pid" and "map_of (pools s) cs = Some pid"
  shows "\<exists>t u hid'. release_handle rt hid s = (Ret (), t) \<and> Acquire rt cs st t = (Ret hid', u) \<and>
    map_of (handles u) hid' = Some h \<and> trace u = trace s"
  using assms by (rule release_then_acquire)

theorem released_session_is_reused_witness:
  "\<exists>t u hid'. release_handle (sample_rt (\<lambda>_. False)) 3 busy_state = (Ret (), t) \<and>
    Acquire (sample_rt (\<lambda>_. False)) ''scott/tiger@db'' default_settings t = (Ret hid', u) \<and>
    map_of (handles u) hid' = Some \<lparr>h_pool = Some 0, h_ctx = 3\<rparr> \<and> trace u = []"
proof -
  have "mgr_env busy_state = Some (Some 0)" "connection_cache default_settings"
    "map_of (handles busy_state) 3 = Some \<lparr>h_pool = Some 0, h_ctx = 3\<rparr>"
    "map_of (pools busy_state) ''scott/tiger@db'' = Some 0" "trace busy_state = []"
    by (simp_all add: busy_state_def default_settings_def init_mgr_def upt_rec)
  then show ?thesis
    using released_session_is_reused [OF busy_state_inv, of "Some 0" default_settings 3
        "\<lparr>h_pool = Some 0, h_ctx = 3\<rparr>" 0 "''scott/tiger@db''" "sample_rt (\<lambda>_. False)"] by simp
qed

end
