(* ===== verification/Connection.thy ===== *)
theory Connection
  imports ManagerInvariant
begin

text \<open>
  \<open>OracleConnection\<close> and \<open>OracleResult\<close> (\<open>oracle_connection.cpp\<close>): the connection of a
  catalog or a transaction, which runs metadata queries and ends transactions. A connection
  is the number of its \<open>OracleConnectionHandle\<close>, or \<open>None\<close> before \<open>Connect\<close>; the object
  that owns it stores the new value.

  \<open>cursors_documented\<close> states how OCI cursors behave; under it \<open>Query\<close> returns exactly the
  names and the rows of the server's answer.
\<close>

section \<open>Results\<close>

record OracleResult =
  columns :: "string list"
  rows :: "string list list"

definition index_error :: exn where
  "index_error = InternalException ''OracleResult index out of range''"

definition GetString :: "OracleResult \<Rightarrow> nat \<Rightarrow> nat \<Rightarrow> exn + string" where
  "GetString res row col =
     (if length (rows res) \<le> row \<or> length (rows res ! row) \<le> col then Inl index_error
      else Inr (rows res ! row ! col))"

definition GetInt64_at :: "OracleResult \<Rightarrow> nat \<Rightarrow> nat \<Rightarrow> exn + int" where
  "GetInt64_at res row col = bindE (GetString res row col) stoll"

section \<open>Connections\<close>

type_synonym connection = "nat option"

definition Connect :: "'w rt \<Rightarrow> string \<Rightarrow> connection \<Rightarrow> (('w, 'z) mgr_scheme, connection) cpp" where
  "Connect rt cs conn = (case conn of
     Some hid \<Rightarrow> return (Some hid)
   | None \<Rightarrow> bind (Acquire rt cs default_settings) (\<lambda>hid. return (Some hid)))"

definition IsConnected :: "connection \<Rightarrow> bool" where
  "IsConnected conn \<longleftrightarrow> conn \<noteq> None"

text \<open>\<open>conn_handle->Get()\<close>\<close>

definition handle_ctx :: "nat \<Rightarrow> (('w, 'z) mgr_scheme, OracleContext) cpp" where
  "handle_ctx hid = gets (\<lambda>s. case map_of (handles s) hid of
     Some h \<Rightarrow> (case ctxs s (h_ctx h) of Some c \<Rightarrow> c | None \<Rightarrow> new_context)
   | None \<Rightarrow> new_context)"

text \<open>The names of the columns, one \<open>OCIParamGet\<close> and one \<open>OCIAttrGet\<close> for each.\<close>

definition column_name :: "'w rt \<Rightarrow> handle option \<Rightarrow> handle option \<Rightarrow> nat \<Rightarrow> (('w, 'z) ocist_scheme, string) cpp" where
  "column_name rt err stmt i =
     bind (checked rt (ParamGet stmt i) err ''OCIParamGet'') (\<lambda>p.
     bind (checked rt (AttrGetParam (out_handle p) ATTR_NAME) err ''OCI_ATTR_NAME'') (\<lambda>r.
     return (out_text r)))"

text \<open>What the buffers of column \<open>i\<close> hold after a fetch; they start as zeroes.\<close>

definition col_at :: "oci_reply \<Rightarrow> nat \<Rightarrow> col_mem" where
  "col_at r i = (if i < length (out_cols r) then out_cols r ! i else \<lparr>mem_bytes = [], mem_ind = [0], mem_len = [0]\<rparr>)"

definition cell_text :: "col_mem \<Rightarrow> string" where
  "cell_text m = (if hd (mem_ind m) = -1 then [] else take (unat (hd (mem_len m))) (mem_bytes m))"

definition row_text :: "nat \<Rightarrow> oci_reply \<Rightarrow> string list" where
  "row_text n r = map (\<lambda>i. cell_text (col_at r i)) [0..<n]"

fun fetch_rows ::
  "'w rt \<Rightarrow> nat \<Rightarrow> handle option \<Rightarrow> handle option \<Rightarrow> nat \<Rightarrow> string list list
    \<Rightarrow> (('w, 'z) ocist_scheme, string list list) cpp" where
  "fetch_rows rt 0 err stmt n acc = stuck"
| "fetch_rows rt (Suc k) err stmt n acc =
     bind (call rt (StmtFetch stmt 1)) (\<lambda>r.
     if status r = OCI_NO_DATA then return acc
     else bind (CheckOCIError rt (status r) err ''OCIStmtFetch2'') (\<lambda>_.
       fetch_rows rt k err stmt n (acc @ [row_text n r])))"

definition query_body ::
  "'w rt \<Rightarrow> OracleContext \<Rightarrow> handle option \<Rightarrow> string \<Rightarrow> (('w, 'z) ocist_scheme, OracleResult) cpp" where
  "query_body rt c stmt query =
     bind (check_call rt (StmtPrepare stmt query) (errhp c) ''OCIStmtPrepare'') (\<lambda>_.
     bind (check_call rt (StmtExecute (svchp c) stmt 0 OCI_DESCRIBE_ONLY) (errhp c) ''OCIStmtExecute describe'') (\<lambda>_.
     bind (checked rt (AttrGetStmt stmt ATTR_PARAM_COUNT) (errhp c) ''OCI_ATTR_PARAM_COUNT'') (\<lambda>pc.
     bind (map_each (column_name rt (errhp c) stmt) [1..<Suc (nat (out_num pc))]) (\<lambda>names.
     bind (check_call rt (StmtExecute (svchp c) stmt 0 OCI_DEFAULT) (errhp c) ''OCIStmtExecute fetch'') (\<lambda>_.
     bind (for_each [0..<nat (out_num pc)] (\<lambda>i.
             check_call rt (DefineByPos stmt (i + 1) 4096 SQLT_STR) (errhp c) ''OCIDefineByPos'')) (\<lambda>_.
     bind (fetch_rows rt (fuel rt) (errhp c) stmt (nat (out_num pc)) []) (\<lambda>rs.
     return \<lparr>columns = names, rows = rs\<rparr>)))))))"

text \<open>The deleter of the smart pointer that owns the statement.\<close>

definition free_stmt :: "'w rt \<Rightarrow> handle option \<Rightarrow> ('w, 'z) ocist_scheme \<Rightarrow> ('w, 'z) ocist_scheme" where
  "free_stmt rt h s = snd (run_if (h \<noteq> None) (invoke rt (HandleFree HTYPE_STMT h)) s)"

text \<open>A statement handle that is owned for the time of \<open>body\<close>.\<close>

definition with_statement ::
  "'w rt \<Rightarrow> OracleContext \<Rightarrow> string \<Rightarrow> (handle option \<Rightarrow> (('w, 'z) ocist_scheme, 'a) cpp) \<Rightarrow> (('w, 'z) ocist_scheme, 'a) cpp" where
  "with_statement rt c msg body =
     bind (checked rt (HandleAlloc HTYPE_STMT) (errhp c) msg) (\<lambda>r.
     scope_exit (body (out_handle r)) (free_stmt rt (out_handle r)))"

definition Query :: "'w rt \<Rightarrow> connection \<Rightarrow> string \<Rightarrow> (('w, 'z) mgr_scheme, OracleResult) cpp" where
  "Query rt conn query = (case conn of
     None \<Rightarrow> throw (IOException ''OracleConnection::Query called before Connect'')
   | Some hid \<Rightarrow>
       bind (handle_ctx hid) (\<lambda>c.
       with_statement rt c ''OCIHandleAlloc stmthp'' (\<lambda>h. query_body rt c h query)))"

definition Commit :: "'w rt \<Rightarrow> connection \<Rightarrow> (('w, 'z) mgr_scheme, unit) cpp" where
  "Commit rt conn = (case conn of
     None \<Rightarrow> throw (IOException ''OracleConnection::Commit called before Connect'')
   | Some hid \<Rightarrow> bind (handle_ctx hid) (\<lambda>c.
       check_call rt (TransCommit (svchp c)) (errhp c) ''OCITransCommit''))"

definition Rollback :: "'w rt \<Rightarrow> connection \<Rightarrow> (('w, 'z) mgr_scheme, unit) cpp" where
  "Rollback rt conn = (case conn of
     None \<Rightarrow> throw (IOException ''OracleConnection::Rollback called before Connect'')
   | Some hid \<Rightarrow> bind (handle_ctx hid) (\<lambda>c.
       check_call rt (TransRollback (svchp c)) (errhp c) ''OCITransRollback''))"

text \<open>\<open>~OracleConnection\<close>: the reference to the handle goes.\<close>

definition drop_connection :: "'w rt \<Rightarrow> connection \<Rightarrow> (('w, 'z) mgr_scheme, unit) cpp" where
  "drop_connection rt conn = (case conn of None \<Rightarrow> return () | Some hid \<Rightarrow> release_handle rt hid)"

section \<open>How cursors behave\<close>

text \<open>\<open>cur w h\<close> is the statement of handle \<open>h\<close> and the rows it has still to give; \<open>par w p\<close> the
  column name of a parameter handle; \<open>names\<close> and \<open>answer\<close> are the columns and the rows that
  the server gives for a query.\<close>

record 'w cursor_view =
  cur :: "'w \<Rightarrow> handle option \<Rightarrow> string \<times> col_mem list list"
  par :: "'w \<Rightarrow> handle option \<Rightarrow> string"
  names :: "string \<Rightarrow> string list"
  answer :: "string \<Rightarrow> col_mem list list"

definition keeps_cursors :: "oci_call \<Rightarrow> bool" where
  "keeps_cursors c \<longleftrightarrow> (case c of
     StmtExecute _ _ _ m \<Rightarrow> m = OCI_DESCRIBE_ONLY
   | AttrGetStmt _ _ \<Rightarrow> True | ParamGet _ _ \<Rightarrow> True | AttrGetParam _ _ \<Rightarrow> True | DefineByPos _ _ _ _ \<Rightarrow> True
   | _ \<Rightarrow> False)"

definition fetches_documented :: "'w rt \<Rightarrow> 'w cursor_view \<Rightarrow> bool" where
  "fetches_documented rt v \<longleftrightarrow> (\<forall>h w. case snd (cur v w h) of
        [] \<Rightarrow> status (fst (oci rt (StmtFetch h 1) w)) = OCI_NO_DATA \<and>
          cur v (snd (oci rt (StmtFetch h 1) w)) h = cur v w h
      | row # rest \<Rightarrow> ok_status (status (fst (oci rt (StmtFetch h 1) w))) \<and>
          out_cols (fst (oci rt (StmtFetch h 1) w)) = row \<and>
          cur v (snd (oci rt (StmtFetch h 1) w)) h = (fst (cur v w h), rest))"

definition names_documented :: "'w rt \<Rightarrow> 'w cursor_view \<Rightarrow> bool" where
  "names_documented rt v \<longleftrightarrow>
     (\<forall>h w. out_num (fst (oci rt (AttrGetStmt h ATTR_PARAM_COUNT) w)) = int (length (names v (fst (cur v w h))))) \<and>
     (\<forall>h i w. i < length (names v (fst (cur v w h))) \<longrightarrow>
        par v (snd (oci rt (ParamGet h (Suc i)) w)) (out_handle (fst (oci rt (ParamGet h (Suc i)) w))) =
          names v (fst (cur v w h)) ! i) \<and>
     (\<forall>p w. out_text (fst (oci rt (AttrGetParam p ATTR_NAME) w)) = par v w p)"

definition statements_documented :: "'w rt \<Rightarrow> 'w cursor_view \<Rightarrow> bool" where
  "statements_documented rt v \<longleftrightarrow>
     (\<forall>c w. (\<forall>h n. c \<noteq> StmtFetch h n) \<longrightarrow> ok_status (status (fst (oci rt c w)))) \<and>
     (\<forall>h q w. cur v (snd (oci rt (StmtPrepare h q) w)) h = (q, [])) \<and>
     (\<forall>c h w. keeps_cursors c \<longrightarrow> cur v (snd (oci rt c w)) h = cur v w h) \<and>
     (\<forall>svc h w. cur v (snd (oci rt (StmtExecute svc h 0 OCI_DEFAULT) w)) h =
        (fst (cur v w h), answer v (fst (cur v w h))))"

definition cursors_documented :: "'w rt \<Rightarrow> 'w cursor_view \<Rightarrow> bool" where
  "cursors_documented rt v \<longleftrightarrow> statements_documented rt v \<and> names_documented rt v \<and> fetches_documented rt v"

text \<open>The text of a row of the server's answer.\<close>

definition mem_text :: "nat \<Rightarrow> col_mem list \<Rightarrow> string list" where
  "mem_text n cs = map (\<lambda>i. cell_text (if i < length cs then cs ! i else \<lparr>mem_bytes = [], mem_ind = [0], mem_len = [0]\<rparr>)) [0..<n]"

lemma row_text_mem: "row_text n r = mem_text n (out_cols r)"
  by (simp add: row_text_def mem_text_def col_at_def)

text \<open>A failing \<open>OCIHandleAlloc\<close> leaves the pointer null.\<close>

definition alloc_documented :: "'w rt \<Rightarrow> bool" where
  "alloc_documented rt \<longleftrightarrow> (\<forall>ty w. ok_status (status (fst (oci rt (HandleAlloc ty) w))) \<or>
     out_handle (fst (oci rt (HandleAlloc ty) w)) = None)"

section \<open>Lemmas\<close>

definition cursor_is :: "'w cursor_view \<Rightarrow> handle option \<Rightarrow> string \<times> col_mem list list \<Rightarrow> ('w, 'z) ocist_scheme \<Rightarrow> bool" where
  "cursor_is v h x s \<longleftrightarrow> cur v (server s) h = x"

definition after :: "'w rt \<Rightarrow> oci_call \<Rightarrow> ('w, 'z) ocist_scheme \<Rightarrow> ('w, 'z) ocist_scheme" where
  "after rt c s = s\<lparr>server := snd (oci rt c (server s)), trace := trace s @ [(c, fst (oci rt c (server s)))]\<rparr>"

lemma server_after [simp]: "server (after rt c s) = snd (oci rt c (server s))"
  by (simp add: after_def)

lemma checked_run:
  "ok_status (status (fst (oci rt c (server s)))) \<Longrightarrow>
   checked rt c err msg s = (Ret (fst (oci rt c (server s))), after rt c s)"
  by (simp add: checked_def bind_def call_run after_def)

lemma yields_check_call:
  "ok_status (status (fst (oci rt c (server s)))) \<Longrightarrow> P (after rt c s) \<Longrightarrow> yields (check_call rt c err msg) () P s"
  by (simp add: yields_def check_call_def bind_def checked_run)

lemma statement_facts:
  assumes "cursors_documented rt v"
  shows "(\<And>h n. c \<noteq> StmtFetch h n) \<Longrightarrow> ok_status (status (fst (oci rt c w)))"
    and "cur v (snd (oci rt (StmtPrepare h q) w)) h = (q, [])"
    and "keeps_cursors c \<Longrightarrow> cur v (snd (oci rt c w)) h = cur v w h"
    and "cur v (snd (oci rt (StmtExecute svc h 0 OCI_DEFAULT) w)) h = (fst (cur v w h), answer v (fst (cur v w h)))"
  using assms by (simp_all add: cursors_documented_def statements_documented_def)

lemma name_facts:
  assumes "cursors_documented rt v"
  shows "out_num (fst (oci rt (AttrGetStmt h ATTR_PARAM_COUNT) w)) = int (length (names v (fst (cur v w h))))"
    and "i < length (names v (fst (cur v w h))) \<Longrightarrow>
      par v (snd (oci rt (ParamGet h (Suc i)) w)) (out_handle (fst (oci rt (ParamGet h (Suc i)) w))) =
        names v (fst (cur v w h)) ! i"
    and "out_text (fst (oci rt (AttrGetParam p ATTR_NAME) w)) = par v w p"
  using assms by (simp_all add: cursors_documented_def names_documented_def)

lemma fetch_facts:
  assumes "cursors_documented rt v"
  shows "snd (cur v w h) = [] \<Longrightarrow> status (fst (oci rt (StmtFetch h 1) w)) = OCI_NO_DATA \<and>
      cur v (snd (oci rt (StmtFetch h 1) w)) h = cur v w h"
    and "snd (cur v w h) = r # rs \<Longrightarrow> ok_status (status (fst (oci rt (StmtFetch h 1) w))) \<and>
      out_cols (fst (oci rt (StmtFetch h 1) w)) = r \<and> cur v (snd (oci rt (StmtFetch h 1) w)) h = (fst (cur v w h), rs)"
proof -
  have "case snd (cur v w h) of
        [] \<Rightarrow> status (fst (oci rt (StmtFetch h 1) w)) = OCI_NO_DATA \<and>
          cur v (snd (oci rt (StmtFetch h 1) w)) h = cur v w h
      | row # rest \<Rightarrow> ok_status (status (fst (oci rt (StmtFetch h 1) w))) \<and>
          out_cols (fst (oci rt (StmtFetch h 1) w)) = row \<and>
          cur v (snd (oci rt (StmtFetch h 1) w)) h = (fst (cur v w h), rest)"
    using assms unfolding cursors_documented_def fetches_documented_def by blast
  then show "snd (cur v w h) = [] \<Longrightarrow> status (fst (oci rt (StmtFetch h 1) w)) = OCI_NO_DATA \<and>
      cur v (snd (oci rt (StmtFetch h 1) w)) h = cur v w h"
    and "snd (cur v w h) = r # rs \<Longrightarrow> ok_status (status (fst (oci rt (StmtFetch h 1) w))) \<and>
      out_cols (fst (oci rt (StmtFetch h 1) w)) = r \<and> cur v (snd (oci rt (StmtFetch h 1) w)) h = (fst (cur v w h), rs)"
    by simp_all
qed

lemma yields_keep:
  assumes "cursors_documented rt v" and "cursor_is v h x s" and "keeps_cursors c"
  shows "yields (check_call rt c err msg) () (cursor_is v h x) s"
proof (rule yields_check_call)
  have "c \<noteq> StmtFetch h' n" for h' n using assms(3) by (auto simp: keeps_cursors_def)
  then show "ok_status (status (fst (oci rt c (server s))))" by (rule statement_facts(1) [OF assms(1)])
  show "cursor_is v h x (after rt c s)"
    using assms(2) statement_facts(3) [OF assms(1,3)] by (simp add: cursor_is_def)
qed

lemma yields_column_name:
  assumes doc: "cursors_documented rt v" and "cursor_is v h (q, rs) s" and "i < length (names v q)"
  shows "yields (column_name rt err h (Suc i)) (names v q ! i) (cursor_is v h (q, rs)) s"
proof -
  let ?c = "ParamGet h (Suc i)"
  let ?r = "fst (oci rt ?c (server s))"
  let ?a = "AttrGetParam (out_handle ?r) ATTR_NAME"
  let ?t = "after rt ?a (after rt ?c s)"
  have cur: "cur v (server s) h = (q, rs)" using assms(2) by (simp add: cursor_is_def)
  have keep: "keeps_cursors ?c" "keeps_cursors ?a" by (simp_all add: keeps_cursors_def)
  have ok: "ok_status (status (fst (oci rt ?c (server s))))" "ok_status (status (fst (oci rt ?a (server (after rt ?c s)))))"
    by (simp_all add: statement_facts(1) [OF doc])
  have "column_name rt err h (Suc i) s = (Ret (out_text (fst (oci rt ?a (server (after rt ?c s))))), ?t)"
    unfolding column_name_def by (simp add: bind_def checked_run [OF ok(1)] checked_run [OF ok(2)] del: server_after)
  moreover have "out_text (fst (oci rt ?a (server (after rt ?c s)))) = names v q ! i"
    using name_facts(2) [OF doc, of i "server s" h] assms(3) by (simp add: name_facts(3) [OF doc] cur)
  moreover have "cursor_is v h (q, rs) ?t"
    by (simp add: cursor_is_def statement_facts(3) [OF doc keep(1)] statement_facts(3) [OF doc keep(2)] cur)
  ultimately show ?thesis by (simp add: yields_def)
qed

lemma yields_names:
  assumes doc: "cursors_documented rt v" and "cursor_is v h (q, rs) s" and "k \<le> length (names v q)"
  shows "yields (map_each (column_name rt err h) [Suc k..<Suc (length (names v q))]) (drop k (names v q))
    (cursor_is v h (q, rs)) s"
  using assms(2,3)
proof (induction "length (names v q) - k" arbitrary: k s)
  case 0
  then show ?case by (simp add: yields_def)
next
  case (Suc m)
  then have k: "k < length (names v q)" by simp
  have rest: "yields (map_each (column_name rt err h) [Suc (Suc k)..<Suc (length (names v q))])
      (drop (Suc k) (names v q)) (cursor_is v h (q, rs)) t" if "cursor_is v h (q, rs) t" for t :: "('a, 'b) ocist_scheme"
    by (rule Suc.hyps(1)) (use Suc.hyps(2) that k in auto)
  have split: "[Suc k..<Suc (length (names v q))] = Suc k # [Suc (Suc k)..<Suc (length (names v q))]"
    using k by (simp add: upt_conv_Cons)
  show ?case
    unfolding split map_each.simps Cons_nth_drop_Suc [OF k, symmetric]
    by (intro yields_bind [OF yields_column_name [OF doc Suc.prems(1) k]] yields_bind [OF rest] yields_return)
qed

lemma yields_defines:
  assumes doc: "cursors_documented rt v" and "cursor_is v h x s"
  shows "yields (for_each js (\<lambda>i. check_call rt (DefineByPos h (i + 1) n ty) err msg)) () (cursor_is v h x) s"
  using assms(2)
proof (induction js arbitrary: s)
  case (Cons j js)
  have "keeps_cursors (DefineByPos h (j + 1) n ty)" by (simp add: keeps_cursors_def)
  from yields_bind [OF yields_keep [OF doc Cons.prems this] Cons.IH] show ?case by simp
qed (simp add: yields_def)

lemma yields_fetch:
  assumes doc: "cursors_documented rt v" and "cursor_is v h (q, rs) s" and "length rs < k"
  shows "yields (fetch_rows rt k err h n acc) (acc @ map (mem_text n) rs) (cursor_is v h (q, [])) s"
  using assms(2,3)
proof (induction rs arbitrary: s acc k)
  case Nil
  then obtain k' where k: "k = Suc k'" by (cases k) auto
  let ?c = "StmtFetch h 1"
  have cur: "cur v (server s) h = (q, [])" using Nil.prems(1) by (simp add: cursor_is_def)
  have st: "status (fst (oci rt ?c (server s))) = OCI_NO_DATA" using fetch_facts(1) [OF doc] by (simp add: cur)
  have "fetch_rows rt k err h n acc s = (Ret acc, after rt ?c s)"
    unfolding k fetch_rows.simps by (simp add: bind_def call_run after_def st del: One_nat_def)
  moreover have "cursor_is v h (q, []) (after rt ?c s)"
    using fetch_facts(1) [OF doc, of "server s" h] cur by (simp add: cursor_is_def)
  ultimately show ?case by (simp add: yields_def)
next
  case (Cons r rs)
  then obtain k' where k: "k = Suc k'" by (cases k) auto
  let ?c = "StmtFetch h 1"
  let ?r = "fst (oci rt ?c (server s))"
  have cur: "cur v (server s) h = (q, r # rs)" using Cons.prems(1) by (simp add: cursor_is_def)
  have f: "ok_status (status ?r)" "out_cols ?r = r" "cursor_is v h (q, rs) (after rt ?c s)"
    using fetch_facts(2) [OF doc, of "server s" h r rs] by (simp_all add: cur cursor_is_def)
  then have "status ?r \<noteq> OCI_NO_DATA" by auto
  then have "fetch_rows rt k err h n acc s = fetch_rows rt k' err h n (acc @ [mem_text n r]) (after rt ?c s)"
    unfolding k fetch_rows.simps using f by (simp add: bind_def call_run after_def row_text_mem del: One_nat_def)
  moreover have "yields (fetch_rows rt k' err h n (acc @ [mem_text n r])) ((acc @ [mem_text n r]) @ map (mem_text n) rs)
      (cursor_is v h (q, [])) (after rt ?c s)"
    using Cons.prems(2) k by (intro Cons.IH f(3)) simp
  ultimately show ?case by (simp add: yields_def)
qed

text \<open>The deleter and the rest of a query.\<close>

lemma free_stmt_only_oci: "only_oci s (free_stmt rt h s)"
  unfolding free_stmt_def by (rule only_oci.moves_run_if [OF invoke_moves(1), unfolded moves_def, rule_format])

lemma yields_query_body:
  assumes doc: "cursors_documented rt v" and fuel: "length (answer v query) < fuel rt"
  shows "yields (query_body rt c h query) \<lparr>columns = names v query,
    rows = map (mem_text (length (names v query))) (answer v query)\<rparr> (cursor_is v h (query, [])) s"
proof -
  let ?n = "length (names v query)"
  let ?pc = "\<lambda>s. fst (oci rt (AttrGetStmt h ATTR_PARAM_COUNT) (server s))"
  have 1: "yields (check_call rt (StmtPrepare h query) err msg) () (cursor_is v h (query, [])) s" for err msg
    by (rule yields_check_call) (simp_all add: statement_facts(1,2) [OF doc] cursor_is_def)
  have 2: "yields (check_call rt (StmtExecute svc h 0 OCI_DESCRIBE_ONLY) err msg) () (cursor_is v h (query, [])) t"
    if "cursor_is v h (query, []) t" for svc err msg and t :: "('a, 'b) ocist_scheme"
    using that by (rule yields_keep [OF doc]) (simp add: keeps_cursors_def)
  have 3: "yields (bind (checked rt (AttrGetStmt h ATTR_PARAM_COUNT) err msg) f) x P t"
    if cur: "cursor_is v h (query, []) t"
      and rest: "\<And>pc u. nat (out_num pc) = ?n \<Longrightarrow> cursor_is v h (query, []) u \<Longrightarrow> yields (f pc) x P u"
    for err msg f x P and t :: "('a, 'b) ocist_scheme"
  proof -
    have ok: "ok_status (status (?pc t))" by (simp add: statement_facts(1) [OF doc])
    have "keeps_cursors (AttrGetStmt h ATTR_PARAM_COUNT)" by (simp add: keeps_cursors_def)
    then have "cursor_is v h (query, []) (after rt (AttrGetStmt h ATTR_PARAM_COUNT) t)"
      using cur by (simp add: cursor_is_def statement_facts(3) [OF doc])
    moreover have "nat (out_num (?pc t)) = ?n" using cur by (simp add: name_facts(1) [OF doc] cursor_is_def)
    ultimately have "yields (f (?pc t)) x P (after rt (AttrGetStmt h ATTR_PARAM_COUNT) t)" by (intro rest)
    then show ?thesis by (simp add: yields_def bind_def checked_run [OF ok])
  qed
  have 4: "yields (map_each (column_name rt err h) [1..<Suc ?n]) (names v query) (cursor_is v h (query, [])) t"
    if "cursor_is v h (query, []) t" for err and t :: "('a, 'b) ocist_scheme"
    using yields_names [OF doc that, of 0 err] by simp
  have 5: "yields (check_call rt (StmtExecute svc h 0 OCI_DEFAULT) err msg) () (cursor_is v h (query, answer v query)) t"
    if "cursor_is v h (query, []) t" for svc err msg and t :: "('a, 'b) ocist_scheme"
    using that
    by (intro yields_check_call) (simp_all add: statement_facts(1) [OF doc] statement_facts(4) [OF doc] cursor_is_def)
  have 6: "yields (fetch_rows rt (fuel rt) err h ?n []) (map (mem_text ?n) (answer v query)) (cursor_is v h (query, [])) t"
    if "cursor_is v h (query, answer v query) t" for err and t :: "('a, 'b) ocist_scheme"
    using yields_fetch [OF doc that fuel, of err ?n "[]"] by simp
  show ?thesis
    unfolding query_body_def
    apply (rule yields_bind [OF 1])
    apply (rule yields_bind [OF 2], assumption)
    apply (erule 3)
    subgoal premises prems for t1 t2 pc t3
      unfolding prems(2)
      by (intro yields_bind [OF 4 [OF prems(3)]] yields_bind [OF 5] yields_bind [OF yields_defines [OF doc]]
          yields_bind [OF 6] yields_return)
    done
qed

text \<open>Accounting for the statement handle.\<close>

lemma wp_neutral:
  assumes "outstanding tr0 H s" and "neutral c" and "\<And>r t. outstanding tr0 H t \<Longrightarrow> Q r t"
    and "\<And>e t. outstanding tr0 H t \<Longrightarrow> E e t"
  shows "wp (checked rt c err msg) Q E s"
  unfolding checked_def wp_simps
  by (intro wp_call wp_CheckOCIError [where I = "outstanding tr0 H"] outstanding_neutral assms)
    (simp_all add: neutral_def)

lemma wp_neutral_call:
  assumes "outstanding tr0 H s" and "neutral c" and "\<And>t. outstanding tr0 H t \<Longrightarrow> Q () t"
    and "\<And>e t. outstanding tr0 H t \<Longrightarrow> E e t"
  shows "wp (check_call rt c err msg) Q E s"
  unfolding check_call_def wp_simps by (rule wp_neutral) (use assms in auto)

lemma wp_map_each:
  assumes "\<And>x s. I s \<Longrightarrow> wp (f x) (\<lambda>_. I) (\<lambda>_. I) s" and "I s"
  shows "wp (map_each f xs) (\<lambda>_. I) (\<lambda>_. I) s"
  using assms(2)
proof (induction xs arbitrary: s)
  case (Cons x xs)
  have "wp (f x) (\<lambda>_. wp (map_each f xs) (\<lambda>_. I) (\<lambda>_. I)) (\<lambda>_. I) s"
    by (rule wp_mono [OF assms(1) [OF Cons.prems]]) (use Cons.IH in auto)
  then show ?case unfolding map_each.simps wp_simps
    by (rule wp_mono) (auto elim: wp_mono)
qed (simp add: wp_simps)

lemma wp_fetch_rows:
  "outstanding tr0 H s \<Longrightarrow>
   wp (fetch_rows rt k err h n acc) (\<lambda>_. outstanding tr0 H) (\<lambda>_. outstanding tr0 H) s"
proof (induction k arbitrary: s acc)
  case (Suc k)
  have next_state: "outstanding tr0 H (s\<lparr>server := w, trace := trace s @ [(StmtFetch h 1, r)]\<rparr>)" for w r
    using Suc.prems by (rule outstanding_neutral) (simp add: neutral_def)
  show ?case
    unfolding fetch_rows.simps wp_simps
    by (rule wp_call)
      (auto simp: wp_simps simp del: One_nat_def intro!: next_state Suc.IH
        wp_CheckOCIError [where I = "outstanding tr0 H"] outstanding_neutral simp: neutral_def)
qed (simp add: wp_simps)

lemma wp_query_body:
  assumes "outstanding tr0 H s"
  shows "wp (query_body rt c h q) (\<lambda>_. outstanding tr0 H) (\<lambda>_. outstanding tr0 H) s"
proof -
  let ?I = "outstanding tr0 H"
  have names: "wp (map_each (column_name rt err h) js) (\<lambda>_. ?I) (\<lambda>_. ?I) t" if "?I t"
    for err js and t :: "('a, 'b) ocist_scheme"
    using that
    by (rule wp_map_each [rotated]) (auto simp: column_name_def wp_simps neutral_def intro!: wp_neutral)
  have defs: "wp (for_each js (\<lambda>i. check_call rt (DefineByPos h (i + 1) 4096 SQLT_STR) err msg)) (\<lambda>_. ?I) (\<lambda>_. ?I) t"
    if "?I t" for err msg js and t :: "('a, 'b) ocist_scheme"
    using that by (intro wp_for_each) (auto simp: neutral_def intro!: wp_neutral_call)
  show ?thesis
    unfolding query_body_def wp_simps
    using assms
    apply (rule wp_neutral_call, simp add: neutral_def)
     apply (rule wp_neutral_call, assumption, simp add: neutral_def)
      apply (rule wp_neutral, assumption, simp add: neutral_def)
       apply (rule wp_mono, erule names)
        apply (rule wp_neutral_call, assumption, simp add: neutral_def)
         apply (rule wp_mono, erule defs)
          apply (rule wp_mono, erule wp_fetch_rows)
           apply assumption+
    done
qed

lemma outstanding_freed:
  fixes u :: "('w, 'z) ocist_scheme"
  assumes "outstanding tr0 (H + field_handle HTYPE_STMT h) u"
  shows "outstanding tr0 H (free_stmt rt h u)"
proof (cases h)
  case (Some x)
  from outstanding_free [OF assms] Some show ?thesis
    by (simp add: free_stmt_def run_if_def invoke_def bind_def call_run)
qed (use assms in \<open>simp add: free_stmt_def run_if_def\<close>)

text \<open>The handle of \<open>with_statement\<close> is freed however the body ends.\<close>

lemma wp_with_statement:
  fixes s :: "('w, 'z) ocist_scheme"
  assumes alloc: "alloc_documented rt" and start: "outstanding tr0 H s"
    and body: "\<And>h u :: ('w, 'z) ocist_scheme. outstanding tr0 (H + field_handle HTYPE_STMT h) u \<Longrightarrow>
      wp (body h) (\<lambda>_. outstanding tr0 (H + field_handle HTYPE_STMT h)) (\<lambda>_. outstanding tr0 (H + field_handle HTYPE_STMT h)) u"
  shows "wp (with_statement rt c msg body) (\<lambda>_. outstanding tr0 H) (\<lambda>_. outstanding tr0 H) s"
proof -
  let ?a = "HandleAlloc HTYPE_STMT" and ?I = "outstanding tr0 H"
  have rest: "wp (scope_exit (body h) (free_stmt rt h)) (\<lambda>_. ?I) (\<lambda>_. ?I) u"
    if "outstanding tr0 (H + field_handle HTYPE_STMT h) u" for h and u :: "('w, 'z) ocist_scheme"
    unfolding wp_simps by (rule wp_mono [OF body [OF that]]) (simp_all add: outstanding_freed)
  obtain r1 w where oci: "oci rt ?a (server s) = (r1, w)" by fastforce
  let ?u = "s\<lparr>server := w, trace := trace s @ [(?a, r1)]\<rparr>"
  have u: "outstanding tr0 (H + field_handle HTYPE_STMT (out_handle r1)) ?u"
    using outstanding_alloc [OF start, of HTYPE_STMT r1 w] by simp
  have none: "out_handle r1 = None" if "\<not> ok_status (status r1)"
    using alloc that oci unfolding alloc_documented_def by (metis fst_conv)
  have chk: "wp (CheckOCIError rt (status r1) (errhp c) msg)
      (\<lambda>_. wp (scope_exit (body (out_handle r1)) (free_stmt rt (out_handle r1))) (\<lambda>_. ?I) (\<lambda>_. ?I)) (\<lambda>_. ?I) ?u"
    by (rule wp_CheckOCIError [where I = "outstanding tr0 (H + field_handle HTYPE_STMT (out_handle r1))"])
      (use u rest none in \<open>auto intro: outstanding_neutral simp: neutral_def\<close>)
  show ?thesis
    unfolding with_statement_def checked_def wp_bind
    by (simp add: wp_def [of "call rt ?a"] call_run oci, rule wp_mono [OF chk]) (simp_all add: wp_return)
qed

section \<open>A concrete server\<close>

text \<open>Every query has one column \<open>C\<close> and the rows that \<open>ans\<close> gives for it.\<close>

definition ok_reply :: oci_reply where
  "ok_reply = \<lparr> status = OCI_SUCCESS, out_handle = Some 0, out_num = 1, out_text = ''C'', out_sqlt = SQLT_CHR,
     out_cols = [] \<rparr>"

definition cursor_oci :: "(string \<Rightarrow> col_mem list list) \<Rightarrow> oci_call \<Rightarrow> (handle option \<Rightarrow> string \<times> col_mem list list)
    \<Rightarrow> oci_reply \<times> (handle option \<Rightarrow> string \<times> col_mem list list)" where
  "cursor_oci ans c f = (case c of
     StmtPrepare h q \<Rightarrow> (ok_reply, f(h := (q, [])))
   | StmtExecute svc h n m \<Rightarrow> (ok_reply, if m = OCI_DESCRIBE_ONLY then f else f(h := (fst (f h), ans (fst (f h)))))
   | StmtFetch h n \<Rightarrow> (case snd (f h) of
        [] \<Rightarrow> (ok_reply\<lparr>status := OCI_NO_DATA\<rparr>, f)
      | r # rs \<Rightarrow> (ok_reply\<lparr>out_cols := r\<rparr>, f(h := (fst (f h), rs))))
   | _ \<Rightarrow> (ok_reply, f))"

definition cursor_rt :: "(string \<Rightarrow> col_mem list list) \<Rightarrow> nat \<Rightarrow> (handle option \<Rightarrow> string \<times> col_mem list list) rt" where
  "cursor_rt ans k = \<lparr> oci = cursor_oci ans, wakeups = 0, fuel = k \<rparr>"

definition cursor_v :: "(string \<Rightarrow> col_mem list list) \<Rightarrow> (handle option \<Rightarrow> string \<times> col_mem list list) cursor_view" where
  "cursor_v ans = \<lparr> cur = (\<lambda>f h. f h), par = (\<lambda>_ _. ''C''), names = (\<lambda>_. [''C'']), answer = ans \<rparr>"

lemma ok_reply_simps [simp]:
  "status ok_reply = OCI_SUCCESS" "out_num ok_reply = 1" "out_text ok_reply = ''C''" "out_handle ok_reply = Some 0"
  by (simp_all add: ok_reply_def)

lemma cursor_rt_documented: "cursors_documented (cursor_rt ans k) (cursor_v ans)"
proof -
  have "statements_documented (cursor_rt ans k) (cursor_v ans)"
    by (auto simp: statements_documented_def cursor_rt_def cursor_v_def cursor_oci_def keeps_cursors_def
        split: oci_call.split)
  moreover have "names_documented (cursor_rt ans k) (cursor_v ans)"
    by (simp add: names_documented_def cursor_rt_def cursor_v_def cursor_oci_def)
  moreover have "fetches_documented (cursor_rt ans k) (cursor_v ans)"
    by (auto simp: fetches_documented_def cursor_rt_def cursor_v_def cursor_oci_def split: list.split)
  ultimately show ?thesis by (simp add: cursors_documented_def)
qed

definition text_cell :: "string \<Rightarrow> col_mem" where
  "text_cell s = \<lparr> mem_bytes = s, mem_ind = [0], mem_len = [of_nat (length s)] \<rparr>"

section \<open>What the layers above keep\<close>

text \<open>The operations of the manager and of connections do not touch the fields with which a
  later theory extends the state.\<close>

definition same_more :: "('w, 'z) mgr_scheme \<Rightarrow> ('w, 'z) mgr_scheme \<Rightarrow> bool" where
  "same_more s t \<longleftrightarrow> mgr.more t = mgr.more s"

interpretation same_more: state_preorder same_more
  by unfold_locales (auto simp: same_more_def)

lemma same_more_modify: "(\<And>s. mgr.more (f s) = mgr.more s) \<Longrightarrow> moves same_more (modify f)"
  by (rule same_more.moves_modify) (simp add: same_more_def)

lemmas same_more_intros =
  same_more.moves_bind same_more.moves_gets same_more.moves_return same_more.moves_throw same_more.moves_stuck
  same_more.moves_run_if same_more.moves_try_catch same_more.moves_for_each same_more_modify

lemma same_more_after: "moves same_more m \<Longrightarrow> m (f s) = (r, t) \<Longrightarrow> mgr.more (f s) = mgr.more s \<Longrightarrow> same_more s t"
  by (auto simp: same_more_def dest: movesD)

lemma only_oci_same_more: "moves only_oci m \<Longrightarrow> moves same_more m"
  by (rule movesI) (auto simp: only_oci_def same_more_def dest!: movesD)

lemma env_only_same_more: "moves env_only m \<Longrightarrow> moves same_more m"
  by (rule movesI) (auto simp: env_only_def same_more_def dest!: movesD)

lemma ctx_only_same_more: "moves (ctx_only cid) m \<Longrightarrow> moves same_more m"
  by (rule movesI) (auto simp: ctx_only_def same_more_def dest!: movesD)

lemma CreateConnection_same_more: "moves same_more (CreateConnection rt env cs)"
  by (rule movesI) (auto simp: ctx_only_def same_more_def dest!: CreateConnection_frame(1))

lemma with_pool_same_more: "moves same_more (with_pool pid f)" "moves same_more (put_pool pid p)"
  unfolding with_pool_def put_pool_def
  by (intro same_more.moves_bind same_more.moves_gets same_more_modify; simp)+

lemma make_handle_same_more: "moves same_more (make_handle pid cid)"
  unfolding make_handle_def by (auto intro!: same_more_intros with_pool_same_more split: option.split)

lemma acquire_loop_same_more: "moves same_more (acquire_loop rt env cs pid n)"
proof (rule movesI)
  fix s r t assume run: "acquire_loop rt env cs pid n s = (r, t)"
  obtain sl q where take: "take_slot (the_pool_of pid s) = (sl, q)" by fastforce
  let ?f = "\<lambda>s. s\<lparr>pool_heap := (pool_heap s)(pid \<mapsto> q)\<rparr>"
  show "same_more s t"
  proof (cases sl)
    case (Reuse cid)
    then have "make_handle (Some pid) cid (?f s) = (r, t)" using run take acquire_reuse [of pid s cid q] by simp
    then show ?thesis by (rule same_more_after [OF make_handle_same_more]) simp
  next
    case Reserve
    let ?m = "bind (try_catch (CreateConnection rt env cs)
        (\<lambda>e. bind (with_pool pid rollback_slot) (\<lambda>_. throw e))) (make_handle (Some pid))"
    have "moves same_more ?m"
      by (intro same_more_intros CreateConnection_same_more with_pool_same_more make_handle_same_more)
    moreover have "?m (?f s) = (r, t)" using Reserve run take acquire_reserve [of pid s q] by simp
    ultimately show ?thesis by (rule same_more_after) simp
  next
    case Full
    then show ?thesis using run take acquire_full [of pid s q] same_more.stay by simp
  qed
qed

lemma Acquire_same_more: "moves same_more (Acquire rt cs st)"
  unfolding Acquire_def registry_pool_def
  by (auto intro!: same_more_intros env_only_same_more [OF Instance_moves] CreateConnection_same_more
      make_handle_same_more with_pool_same_more acquire_loop_same_more split: option.split)

lemma drop_pool_ref_same_more: "moves same_more (drop_pool_ref rt pid)"
  unfolding drop_pool_ref_def
  by (auto intro!: same_more_intros ctx_only_same_more [OF destroy_ctx_moves] with_pool_same_more)

lemma release_handle_same_more: "moves same_more (release_handle rt hid)"
  unfolding release_handle_def
  by (auto intro!: same_more_intros with_pool_same_more drop_pool_ref_same_more
      ctx_only_same_more [OF destroy_ctx_moves] split: option.split)

lemma Connect_same_more: "moves same_more (Connect rt cs conn)"
  by (auto simp: Connect_def intro!: same_more_intros Acquire_same_more split: option.split)

lemmas only_oci_intros =
  only_oci.moves_bind only_oci.moves_gets only_oci.moves_return only_oci.moves_throw only_oci.moves_stuck
  only_oci.moves_map_each only_oci.moves_for_each only_oci.moves_scope_exit
  call_moves(2) CheckOCIError_moves(2) checked_moves(2) invoke_moves(2)

lemma fetch_rows_only_oci: "moves only_oci (fetch_rows rt k err h n acc)"
  by (induction k arbitrary: acc) (auto intro!: only_oci_intros)

lemma query_body_only_oci: "moves only_oci (query_body rt c h q)"
  unfolding query_body_def column_name_def by (intro only_oci_intros fetch_rows_only_oci)

lemma with_statement_only_oci: "(\<And>h. moves only_oci (body h)) \<Longrightarrow> moves only_oci (with_statement rt c msg body)"
  unfolding with_statement_def by (intro only_oci_intros free_stmt_only_oci)

lemma Query_only_oci: "moves only_oci (Query rt conn q)"
  unfolding Query_def handle_ctx_def
  by (auto intro!: only_oci_intros with_statement_only_oci query_body_only_oci split: option.split)

lemma transaction_end_only_oci: "moves only_oci (Commit rt conn)" "moves only_oci (Rollback rt conn)"
  unfolding Commit_def Rollback_def handle_ctx_def by (auto intro!: only_oci_intros split: option.split)

lemma drop_connection_same_more: "moves same_more (drop_connection rt conn)"
  by (auto simp: drop_connection_def intro!: same_more_intros release_handle_same_more split: option.split)

text \<open>A session of the manager that is held for the time of \<open>body\<close>: the local
  \<open>shared_ptr\<close> to its handle goes when the scope is left.\<close>

definition with_session ::
  "'w rt \<Rightarrow> string \<Rightarrow> OracleSettings \<Rightarrow> (OracleContext \<Rightarrow> (('w, 'z) mgr_scheme, 'a) cpp) \<Rightarrow> (('w, 'z) mgr_scheme, 'a) cpp" where
  "with_session rt cs st body =
     bind (Acquire rt cs st) (\<lambda>hid.
     scope_exit (bind (handle_ctx hid) body) (\<lambda>s. snd (release_handle rt hid s)))"

lemma only_oci_mgr:
  fixes s t :: "('w, 'z) mgr_scheme"
  assumes "only_oci s t"
  shows "mgr_inv t \<longleftrightarrow> mgr_inv s" "handles t = handles s" "pools t = pools s" "pool_heap t = pool_heap s"
    "mgr_env t = mgr_env s"
proof -
  obtain w tr where t: "t = s\<lparr>server := w, trace := tr\<rparr>" using assms unfolding only_oci_def by blast
  show "mgr_inv t \<longleftrightarrow> mgr_inv s"
    by (simp add: t mgr_inv_def mgr_ok_def pools_ok_def pool_ok_def places_ok_def sessions_alive_def alive_def
        in_handles_def idle_in_def busy_with_def)
  show "handles t = handles s" "pools t = pools s" "pool_heap t = pool_heap s" "mgr_env t = mgr_env s"
    by (simp_all add: t)
qed

lemma with_session_ok:
  assumes inv: "mgr_inv s" and body: "\<And>c. moves only_oci (body c)" and run: "with_session rt cs st body s = (r, t)"
    and "r \<noteq> Stuck"
  shows "mgr_inv t \<and> handles t = handles s"
proof -
  obtain r1 u where acq: "Acquire rt cs st s = (r1, u)" by fastforce
  note ok = Acquire_ok [OF inv acq]
  show ?thesis
  proof (cases r1)
    case (Ret hid)
    then obtain h where h: "handles u = (hid, h) # handles s" using ok by auto
    have "distinct (map fst (handles u))" using ok by (simp add: mgr_inv_def mgr_ok_def places_ok_def)
    then have fresh: "filter (\<lambda>e. fst e \<noteq> hid) (handles s) = handles s"
      using h by (force simp: filter_id_conv)
    obtain r2 v where b: "bind (handle_ctx hid) body u = (r2, v)" by fastforce
    have "moves only_oci (bind (handle_ctx hid) body)"
      unfolding handle_ctx_def by (intro only_oci.moves_bind only_oci.moves_gets body)
    note v = only_oci_mgr [OF movesD [OF this b]]
    have "mgr_inv v" using v(1) ok by simp
    then obtain w where w: "release_handle rt hid v = (Ret (), w)" "mgr_ok (map snd (pools v)) w" "pools w = pools v"
        "handles w = filter (\<lambda>e. fst e \<noteq> hid) (handles v)"
      using release_ok [of _ v rt hid] unfolding mgr_inv_def by blast
    have "t = w" using run acq Ret b w(1) assms(4) by (cases r2) (auto simp: with_session_def bind_def scope_exit_def)
    then show ?thesis using w(2-4) v(2) h fresh by (simp add: mgr_inv_def)
  qed (use run acq ok in \<open>auto simp: with_session_def bind_def\<close>)
qed

lemma with_session_same_more: "(\<And>c. moves same_more (body c)) \<Longrightarrow> moves same_more (with_session rt cs st body)"
proof -
  assume body: "\<And>c. moves same_more (body c)"
  have rel: "same_more s (snd (release_handle rt hid s))" for hid and s :: "('a, 'b) mgr_scheme"
    using release_handle_same_more [of rt hid] unfolding moves_def by blast
  show ?thesis
    unfolding with_session_def handle_ctx_def
    by (intro same_more_intros same_more.moves_scope_exit Acquire_same_more body rel)
qed

lemma Query_run:
  assumes "cursors_documented rt v" and "length (answer v query) < fuel rt"
  shows "\<exists>t. Query rt (Some hid) query s = (Ret \<lparr>columns = names v query,
    rows = map (mem_text (length (names v query))) (answer v query)\<rparr>, t)"
proof -
  let ?c = "case map_of (handles s) hid of
     Some h \<Rightarrow> (case ctxs s (h_ctx h) of Some c \<Rightarrow> c | None \<Rightarrow> new_context) | None \<Rightarrow> new_context"
  let ?a = "HandleAlloc HTYPE_STMT"
  have ok: "ok_status (status (fst (oci rt ?a (server s))))" by (simp add: statement_facts(1) [OF assms(1)])
  let ?h = "out_handle (fst (oci rt ?a (server s)))"
  obtain t where "query_body rt ?c ?h query (after rt ?a s) = (Ret \<lparr>columns = names v query,
      rows = map (mem_text (length (names v query))) (answer v query)\<rparr>, t)"
    using yields_query_body [OF assms, of ?c ?h "after rt ?a s"] by (auto simp: yields_def)
  then show ?thesis
    by (simp add: Query_def with_statement_def handle_ctx_def bind_def checked_run [OF ok] scope_exit_def)
qed

section \<open>Properties\<close>

text \<open>C8: \<open>Query\<close> returns the whole answer of the server, in order: on a client library whose cursors
  behave as documented, the result has the names of the columns of the query and, for each row of
  the answer, the text of its cells (null as the empty string), whatever the number of rows.\<close>

theorem Query_returns_all_rows:
  assumes "cursors_documented rt v" and "length (answer v query) < fuel rt"
  shows "\<exists>t. Query rt (Some hid) query s = (Ret \<lparr>columns = names v query,
    rows = map (mem_text (length (names v query))) (answer v query)\<rparr>, t)"
  using assms by (rule Query_run)

theorem Query_returns_all_rows_witness:
  "\<exists>t. Query (cursor_rt (\<lambda>_. [[text_cell ''EMP''], [text_cell ''DEPT'']]) 3) (Some 0) ''SELECT 1''
     (init_mgr (\<lambda>_. ([], []))) = (Ret \<lparr>columns = [''C''], rows = [[''EMP''], [''DEPT'']]\<rparr>, t)"
proof -
  let ?ans = "\<lambda>_. [[text_cell ''EMP''], [text_cell ''DEPT'']]"
  have "mem_text 1 [text_cell ''EMP''] = [''EMP'']" "mem_text 1 [text_cell ''DEPT''] = [''DEPT'']" by code_simp+
  then show ?thesis
    using Query_returns_all_rows [OF cursor_rt_documented [of ?ans 3], of "''SELECT 1''" 0 "init_mgr (\<lambda>_. ([], []))"]
    by (simp add: cursor_v_def cursor_rt_def)
qed

text \<open>C26: Whatever goes wrong in a query, its statement handle is freed: every handle that a call of
  \<open>Query\<close> allocates it has freed when it returns and when it throws.\<close>

theorem Query_frees_its_statement:
  assumes "alloc_documented rt" and "Query rt conn query s = (r, t)" and "r \<noteq> Stuck"
  shows "\<exists>tr. trace t = trace s @ tr \<and> allocated tr = freed tr"
proof -
  have start: "outstanding (trace s) {#} s" by (rule outstanding_start) simp
  have "wp (Query rt conn query) (\<lambda>_. outstanding (trace s) {#}) (\<lambda>_. outstanding (trace s) {#}) s"
  proof (cases conn)
    case (Some hid)
    show ?thesis
      unfolding Some Query_def handle_ctx_def option.case wp_bind wp_gets
      by (rule wp_with_statement [OF assms(1) start wp_query_body])
  qed (simp add: Query_def wp_simps start)
  with assms(2,3) show ?thesis by (cases r) (auto simp: wp_def outstanding_def)
qed

theorem Query_frees_its_statement_witness:
  "\<exists>e t tr. Query (sample_rt (\<lambda>c. c = StmtPrepare (Some 0) ''SELECT 1'')) (Some 0) ''SELECT 1'' (init_mgr 0) = (Throw e, t) \<and>
     trace t = tr \<and> allocated tr = freed tr"
proof -
  let ?rt = "sample_rt (\<lambda>c. c = StmtPrepare (Some 0) ''SELECT 1'')"
  have alloc: "alloc_documented ?rt" by (simp add: alloc_documented_def)
  have "fst (Query ?rt (Some 0) ''SELECT 1'' (init_mgr 0)) = Throw (IOException ''OCIStmtPrepare: (No Error Handle)'')"
    by (simp add: Query_def with_statement_def handle_ctx_def init_mgr_def query_body_def check_call_def checked_def bind_def call_run
        CheckOCIError_def new_context_def scope_exit_def)
  then obtain t where run: "Query ?rt (Some 0) ''SELECT 1'' (init_mgr 0) =
      (Throw (IOException ''OCIStmtPrepare: (No Error Handle)''), t)"
    by (metis prod.collapse)
  from Query_frees_its_statement [OF alloc run] run show ?thesis by (simp add: init_mgr_def)
qed

end
