(* ===== verification/CatalogState.thy ===== *)
theory CatalogState
  imports Connection "HOL-Library.AList"
begin

text \<open>
  \<open>OracleCatalogState\<close> (\<open>oracle_catalog_state.hpp\<close>, \<open>oracle_catalog.cpp\<close>): the state of an
  attached database, with its connection, its metadata caches and the detection of the current schema
  and of the server version, and the two global registries of states. A state is an entry of
  the store \<open>states\<close>; a \<open>weak_ptr\<close> is the number of an entry and has expired when the entry is
  gone. The queries that the methods send are functions of their own. A result row that is too short for
  an unchecked \<open>rows[0][i]\<close> reads as the empty string; the queries ask for the columns that are read.

  The locale \<open>memo\<close> is the contract of the three cached listings.
\<close>

section \<open>State\<close>

record OracleVersionInfo =
  major :: int
  minor :: int
  patch :: int
  supports_json_type :: bool
  supports_vector :: bool
  supports_vector_serialize :: bool

definition no_version :: OracleVersionInfo where
  "no_version = \<lparr> major = 0, minor = 0, patch = 0, supports_json_type = False, supports_vector = False,
     supports_vector_serialize = False \<rparr>"

record OracleCatalogState =
  settings :: OracleSettings
  connection_string :: string
  connection :: connection
  current_schema :: string
  version_info :: OracleVersionInfo
  version_detected :: bool
  schema_cache :: "string list"
  table_cache :: "(string \<times> string list) list"
  object_cache :: "(string \<times> string list) list"

definition new_state :: "string \<Rightarrow> OracleCatalogState" where
  "new_state cs = \<lparr> settings = default_settings, connection_string = cs, connection = None,
     current_schema = [], version_info = no_version, version_detected = False, schema_cache = [],
     table_cache = [], object_cache = [] \<rparr>"

lemma new_state_simps [simp]:
  "settings (new_state cs) = default_settings" "connection_string (new_state cs) = cs"
  "connection (new_state cs) = None" "current_schema (new_state cs) = []" "version_info (new_state cs) = no_version"
  "\<not> version_detected (new_state cs)" "schema_cache (new_state cs) = []" "table_cache (new_state cs) = []"
  "object_cache (new_state cs) = []"
  by (simp_all add: new_state_def)

text \<open>The process with its catalog states, the registry and the alias registry.\<close>

record 'w cat = "'w mgr" +
  states :: "nat \<Rightarrow> OracleCatalogState option"
  next_state :: nat
  registry :: "nat list"
  aliases :: "(string \<times> nat) list"

definition the_state :: "nat \<Rightarrow> ('w, 'z) cat_scheme \<Rightarrow> OracleCatalogState" where
  "the_state sid s = (case states s sid of Some st \<Rightarrow> st | None \<Rightarrow> new_state [])"

definition get_state :: "nat \<Rightarrow> (('w, 'z) cat_scheme, OracleCatalogState) cpp" where
  "get_state sid = gets (the_state sid)"

definition upd_state :: "nat \<Rightarrow> (OracleCatalogState \<Rightarrow> OracleCatalogState) \<Rightarrow> (('w, 'z) cat_scheme, unit) cpp" where
  "upd_state sid f = modify (\<lambda>s. s\<lparr>states := (states s)(sid \<mapsto> f (the_state sid s))\<rparr>)"

section \<open>Connection\<close>

definition reset_connection :: "'w rt \<Rightarrow> nat \<Rightarrow> (('w, 'z) cat_scheme, unit) cpp" where
  "reset_connection rt sid =
     bind (get_state sid) (\<lambda>st.
     bind (upd_state sid (\<lambda>st. st\<lparr>connection := None\<rparr>)) (\<lambda>_.
     drop_connection rt (connection st)))"

definition EnsureConnectionInternal :: "'w rt \<Rightarrow> nat \<Rightarrow> (('w, 'z) cat_scheme, unit) cpp" where
  "EnsureConnectionInternal rt sid =
     bind (get_state sid) (\<lambda>st.
     bind (run_if (\<not> connection_cache (settings st)) (reset_connection rt sid)) (\<lambda>_.
     bind (get_state sid) (\<lambda>st.
     if \<not> IsConnected (connection st) then
       bind (Connect rt (connection_string st) (connection st)) (\<lambda>c.
       upd_state sid (\<lambda>st. st\<lparr>connection := c\<rparr>))
     else return ())))"

definition state_query :: "'w rt \<Rightarrow> nat \<Rightarrow> string \<Rightarrow> (('w, 'z) cat_scheme, OracleResult) cpp" where
  "state_query rt sid query = bind (get_state sid) (\<lambda>st. Query rt (connection st) query)"

definition StateConnect :: "'w rt \<Rightarrow> nat \<Rightarrow> (('w, 'z) cat_scheme, unit) cpp" where
  "StateConnect rt sid = EnsureConnectionInternal rt sid"

definition StateQuery :: "'w rt \<Rightarrow> nat \<Rightarrow> string \<Rightarrow> (('w, 'z) cat_scheme, OracleResult) cpp" where
  "StateQuery rt sid query = bind (EnsureConnectionInternal rt sid) (\<lambda>_. state_query rt sid query)"

section \<open>Current schema and version\<close>

definition schema_query :: string where
  "schema_query = ''SELECT SYS_CONTEXT('USERENV', 'CURRENT_SCHEMA') FROM DUAL''"

definition cell :: "OracleResult \<Rightarrow> nat \<Rightarrow> nat \<Rightarrow> string" where
  "cell res i j = (if i < length (rows res) \<and> j < length (rows res ! i) then rows res ! i ! j else [])"

definition has_cell :: "OracleResult \<Rightarrow> bool" where
  "has_cell res \<longleftrightarrow> rows res \<noteq> [] \<and> rows res ! 0 \<noteq> []"

definition note_schema :: "nat \<Rightarrow> OracleResult \<Rightarrow> (('w, 'z) cat_scheme, unit) cpp" where
  "note_schema sid res = run_if (has_cell res) (upd_state sid (\<lambda>st. st\<lparr>current_schema := cell res 0 0\<rparr>))"

definition DetectCurrentSchema :: "'w rt \<Rightarrow> nat \<Rightarrow> (('w, 'z) cat_scheme, unit) cpp" where
  "DetectCurrentSchema rt sid =
     bind (get_state sid) (\<lambda>st.
     if current_schema st \<noteq> [] then return ()
     else bind (EnsureConnectionInternal rt sid) (\<lambda>_.
       try_catch (bind (state_query rt sid schema_query) (note_schema sid)) (\<lambda>_. return ())))"

text \<open>\<open>try { field = std::stoi(part); } catch (...) {}\<close>\<close>

definition stoi_or :: "int \<Rightarrow> string \<Rightarrow> int" where
  "stoi_or old part = (case stoi part of Inr n \<Rightarrow> n | Inl _ \<Rightarrow> old)"

definition parse_version :: "'v duckdb \<Rightarrow> string \<Rightarrow> OracleVersionInfo \<Rightarrow> OracleVersionInfo" where
  "parse_version D version_str vi =
     (if version_str = [] then vi
      else let parts = SplitChar D version_str (CHR ''.'');
               ma = (if 1 \<le> length parts then stoi_or (major vi) (parts ! 0) else major vi);
               mi = (if 2 \<le> length parts then stoi_or (minor vi) (parts ! 1) else minor vi);
               pa = (if 3 \<le> length parts then stoi_or (patch vi) (parts ! 2) else patch vi)
           in \<lparr> major = ma, minor = mi, patch = pa, supports_json_type = (21 \<le> ma),
                supports_vector = (23 \<le> ma), supports_vector_serialize = (23 < ma \<or> ma = 23 \<and> 4 \<le> mi) \<rparr>)"

definition version_body :: "'v duckdb \<Rightarrow> 'w rt \<Rightarrow> nat \<Rightarrow> (('w, 'z) cat_scheme, unit) cpp" where
  "version_body D rt sid =
     bind (state_query rt sid ''SELECT VERSION_FULL FROM V$INSTANCE'') (\<lambda>res.
     bind (if has_cell res then return (cell res 0 0)
           else bind (state_query rt sid ''SELECT VERSION FROM PRODUCT_COMPONENT_VERSION WHERE ROWNUM = 1'') (\<lambda>res.
             return (if has_cell res then cell res 0 0 else []))) (\<lambda>version_str.
     upd_state sid (\<lambda>st. st\<lparr>version_info := parse_version D version_str (version_info st)\<rparr>)))"

definition DetectOracleVersion :: "'v duckdb \<Rightarrow> 'w rt \<Rightarrow> nat \<Rightarrow> (('w, 'z) cat_scheme, unit) cpp" where
  "DetectOracleVersion D rt sid =
     bind (get_state sid) (\<lambda>st.
     if version_detected st then return ()
     else bind (EnsureConnectionInternal rt sid) (\<lambda>_.
       bind (try_catch (version_body D rt sid) (\<lambda>_. return ())) (\<lambda>_.
       upd_state sid (\<lambda>st. st\<lparr>version_detected := True\<rparr>))))"

definition GetVersionInfo :: "'v duckdb \<Rightarrow> 'w rt \<Rightarrow> nat \<Rightarrow> (('w, 'z) cat_scheme, OracleVersionInfo) cpp" where
  "GetVersionInfo D rt sid =
     bind (get_state sid) (\<lambda>st.
     bind (run_if (\<not> version_detected st) (DetectOracleVersion D rt sid)) (\<lambda>_.
     bind (get_state sid) (\<lambda>st. return (version_info st))))"

section \<open>Listings\<close>

text \<open>The first column of the rows that have one.\<close>

definition first_column :: "OracleResult \<Rightarrow> string list" where
  "first_column res = map hd (filter (\<lambda>row. row \<noteq> []) (rows res))"

definition all_schemas :: "'w rt \<Rightarrow> nat \<Rightarrow> (('w, 'z) cat_scheme, string list) cpp" where
  "all_schemas rt sid =
     bind (state_query rt sid ''SELECT username FROM all_users ORDER BY username'') (\<lambda>res.
     bind (upd_state sid (\<lambda>st. st\<lparr>schema_cache := schema_cache st @ first_column res\<rparr>)) (\<lambda>_.
     bind (get_state sid) (\<lambda>st. return (schema_cache st))))"

definition ListSchemas :: "'w rt \<Rightarrow> nat \<Rightarrow> (('w, 'z) cat_scheme, string list) cpp" where
  "ListSchemas rt sid =
     bind (get_state sid) (\<lambda>st.
     if schema_cache st \<noteq> [] then return (schema_cache st)
     else bind (EnsureConnectionInternal rt sid) (\<lambda>_.
       bind (get_state sid) (\<lambda>st.
       if lazy_schema_loading (settings st) then
         bind (run_if (current_schema st = []) (bind (state_query rt sid schema_query) (note_schema sid))) (\<lambda>_.
         bind (get_state sid) (\<lambda>st.
         if current_schema st \<noteq> [] then
           (let names = (if use_current_schema (settings st) then [''main''] else []) @ [current_schema st]
            in bind (upd_state sid (\<lambda>st. st\<lparr>schema_cache := schema_cache st @ names\<rparr>)) (\<lambda>_.
               bind (get_state sid) (\<lambda>st. return (schema_cache st))))
         else all_schemas rt sid))
       else all_schemas rt sid)))"

definition sql_literal :: "'v duckdb \<Rightarrow> string \<Rightarrow> string" where
  "sql_literal D s = ToSQLString D (StringVal D s)"

definition tables_query :: "'v duckdb \<Rightarrow> string \<Rightarrow> string" where
  "tables_query D schema =
     Format D ''SELECT table_name FROM all_tables WHERE owner = UPPER(%s) ORDER BY table_name'' [sql_literal D schema]"

definition ListTables :: "'v duckdb \<Rightarrow> 'w rt \<Rightarrow> nat \<Rightarrow> string \<Rightarrow> (('w, 'z) cat_scheme, string list) cpp" where
  "ListTables D rt sid schema =
     bind (get_state sid) (\<lambda>st. case map_of (table_cache st) schema of
       Some tables \<Rightarrow> return tables
     | None \<Rightarrow> bind (EnsureConnectionInternal rt sid) (\<lambda>_.
         if schema = [] then return []
         else bind (state_query rt sid (tables_query D schema)) (\<lambda>res.
           bind (upd_state sid (\<lambda>st. st\<lparr>table_cache := (schema, first_column res) # table_cache st\<rparr>)) (\<lambda>_.
           return (first_column res)))))"

definition object_key :: "string \<Rightarrow> string \<Rightarrow> string" where
  "object_key schema object_types = schema @ '':'' @ object_types"

definition quoted_types :: "'v duckdb \<Rightarrow> string \<Rightarrow> string" where
  "quoted_types D object_types =
     Join D (map (\<lambda>type. sql_literal D (Trim D type)) (SplitChar D object_types (CHR '',''))) '',''"

definition objects_query :: "'v duckdb \<Rightarrow> OracleSettings \<Rightarrow> string \<Rightarrow> string \<Rightarrow> string" where
  "objects_query D st schema object_types =
     (let query = Format D (''SELECT object_name FROM all_objects '' @
            ''WHERE owner = UPPER(%s) AND object_type IN (%s) '' @ ''ORDER BY object_name'')
            [sql_literal D schema, quoted_types D object_types]
      in if 0 < metadata_result_limit st then
           Format D ''SELECT * FROM (%s) WHERE ROWNUM <= %llu'' [query, to_string (unat (metadata_result_limit st))]
         else query)"

definition ListObjects :: "'v duckdb \<Rightarrow> 'w rt \<Rightarrow> nat \<Rightarrow> string \<Rightarrow> string \<Rightarrow> (('w, 'z) cat_scheme, string list) cpp" where
  "ListObjects D rt sid schema object_types =
     bind (get_state sid) (\<lambda>st. case map_of (object_cache st) (object_key schema object_types) of
       Some objects \<Rightarrow> return objects
     | None \<Rightarrow> bind (EnsureConnectionInternal rt sid) (\<lambda>_.
         bind (get_state sid) (\<lambda>st.
         bind (state_query rt sid (objects_query D (settings st) schema object_types)) (\<lambda>res.
         bind (upd_state sid (\<lambda>st. st\<lparr>object_cache := (object_key schema object_types, first_column res) # object_cache st\<rparr>)) (\<lambda>_.
         return (first_column res))))))"

section \<open>Lookups of single objects\<close>

definition synonym_query :: "'v duckdb \<Rightarrow> string \<Rightarrow> string \<Rightarrow> string" where
  "synonym_query D schema synonym_name =
     Format D (''SELECT table_owner, table_name FROM all_synonyms '' @ ''WHERE synonym_name = UPPER(%s) '' @
       ''AND (owner = UPPER(%s) OR owner = 'PUBLIC') '' @ ''ORDER BY CASE WHEN owner = UPPER(%s) THEN 0 ELSE 1 END'')
       [sql_literal D synonym_name, sql_literal D schema, sql_literal D schema]"

text \<open>The out parameter \<open>found\<close> is the option.\<close>

definition ResolveSynonym ::
  "'v duckdb \<Rightarrow> 'w rt \<Rightarrow> nat \<Rightarrow> string \<Rightarrow> string \<Rightarrow> (('w, 'z) cat_scheme, (string \<times> string) option) cpp" where
  "ResolveSynonym D rt sid schema synonym_name =
     bind (EnsureConnectionInternal rt sid) (\<lambda>_.
     bind (state_query rt sid (synonym_query D schema synonym_name)) (\<lambda>res.
     return (if rows res = [] then None else Some (cell res 0 0, cell res 0 1))))"

definition exists_query :: "'v duckdb \<Rightarrow> string \<Rightarrow> string \<Rightarrow> string \<Rightarrow> string" where
  "exists_query D schema object_name object_types =
     Format D (''SELECT 1 FROM all_objects '' @ ''WHERE owner = UPPER(%s) AND object_name = UPPER(%s) '' @
       ''AND object_type IN (%s)'') [sql_literal D schema, sql_literal D object_name, object_types]"

definition ObjectExists ::
  "'v duckdb \<Rightarrow> 'w rt \<Rightarrow> nat \<Rightarrow> string \<Rightarrow> string \<Rightarrow> string \<Rightarrow> (('w, 'z) cat_scheme, bool) cpp" where
  "ObjectExists D rt sid schema object_name object_types =
     bind (EnsureConnectionInternal rt sid) (\<lambda>_.
     bind (state_query rt sid (exists_query D schema object_name object_types)) (\<lambda>res.
     return (rows res \<noteq> [])))"

definition name_query :: "'v duckdb \<Rightarrow> string \<Rightarrow> string \<Rightarrow> string \<Rightarrow> string" where
  "name_query D schema object_name object_types =
     Format D (''SELECT object_name FROM all_objects '' @
       ''WHERE owner = UPPER(%s) AND UPPER(object_name) = UPPER(%s) '' @
       ''AND object_type IN (%s)'') [sql_literal D schema, sql_literal D object_name, object_types]"

definition GetObjectName ::
  "'v duckdb \<Rightarrow> 'w rt \<Rightarrow> nat \<Rightarrow> string \<Rightarrow> string \<Rightarrow> string \<Rightarrow> (('w, 'z) cat_scheme, string) cpp" where
  "GetObjectName D rt sid schema object_name object_types =
     bind (EnsureConnectionInternal rt sid) (\<lambda>_.
     bind (state_query rt sid (name_query D schema object_name object_types)) (\<lambda>res.
     return (if rows res \<noteq> [] then cell res 0 0 else [])))"

definition user_query :: "'v duckdb \<Rightarrow> string \<Rightarrow> string" where
  "user_query D name =
     Format D ''SELECT username FROM all_users WHERE UPPER(username) = UPPER(%s)'' [sql_literal D name]"

definition GetRealSchemaName :: "'v duckdb \<Rightarrow> 'w rt \<Rightarrow> nat \<Rightarrow> string \<Rightarrow> (('w, 'z) cat_scheme, string) cpp" where
  "GetRealSchemaName D rt sid name =
     bind (EnsureConnectionInternal rt sid) (\<lambda>_.
     bind (state_query rt sid (user_query D name)) (\<lambda>res.
     return (if rows res \<noteq> [] then cell res 0 0 else [])))"

section \<open>Caches and registries\<close>

definition cleared :: "OracleCatalogState \<Rightarrow> OracleCatalogState" where
  "cleared st = st\<lparr>schema_cache := [], table_cache := [], object_cache := [], current_schema := [],
     version_detected := False, version_info := no_version\<rparr>"

definition ClearCaches :: "'w rt \<Rightarrow> nat \<Rightarrow> (('w, 'z) cat_scheme, unit) cpp" where
  "ClearCaches rt sid = bind (upd_state sid cleared) (\<lambda>_. reset_connection rt sid)"

definition Register :: "nat \<Rightarrow> (('w, 'z) cat_scheme, unit) cpp" where
  "Register sid = modify (\<lambda>s. s\<lparr>registry := registry s @ [sid]\<rparr>)"

definition RegisterAlias :: "'v duckdb \<Rightarrow> nat \<Rightarrow> string \<Rightarrow> (('w, 'z) cat_scheme, unit) cpp" where
  "RegisterAlias D sid alias =
     bind (Register sid) (\<lambda>_.
     run_if (alias \<noteq> []) (modify (\<lambda>s. s\<lparr>aliases := AList.update (Lower D alias) sid (aliases s)\<rparr>)))"

fun clear_registry :: "'w rt \<Rightarrow> nat list \<Rightarrow> (('w, 'z) cat_scheme, nat list) cpp" where
  "clear_registry rt [] = return []"
| "clear_registry rt (sid # sids) =
     bind (gets (\<lambda>s. states s sid = None)) (\<lambda>expired.
     if expired then clear_registry rt sids
     else bind (ClearCaches rt sid) (\<lambda>_.
       bind (clear_registry rt sids) (\<lambda>rest. return (sid # rest))))"

definition ClearAllCaches :: "'w rt \<Rightarrow> (('w, 'z) cat_scheme, unit) cpp" where
  "ClearAllCaches rt =
     bind (gets registry) (\<lambda>sids.
     bind (clear_registry rt sids) (\<lambda>live. modify (\<lambda>s. s\<lparr>registry := live\<rparr>)))"

definition LookupByAlias :: "'v duckdb \<Rightarrow> string \<Rightarrow> (('w, 'z) cat_scheme, nat option) cpp" where
  "LookupByAlias D alias =
     bind (gets aliases) (\<lambda>al. case map_of al (Lower D alias) of
       None \<Rightarrow> return None
     | Some sid \<Rightarrow>
         bind (gets (\<lambda>s. states s sid = None)) (\<lambda>expired.
         if expired then
           bind (modify (\<lambda>s. s\<lparr>aliases := AList.delete (Lower D alias) al\<rparr>)) (\<lambda>_. return None)
         else return (Some sid)))"

section \<open>What an operation on one state keeps\<close>

lemma same_more_cat:
  fixes s t :: "('w, 'z) cat_scheme"
  assumes "same_more s t"
  shows "states t = states s" "next_state t = next_state s" "registry t = registry s" "aliases t = aliases s"
    "cat.more t = cat.more s"
  using assms by (cases s, cases t, simp add: same_more_def)+

lemma only_oci_cat:
  fixes s t :: "('w, 'z) cat_scheme"
  shows "only_oci s t \<Longrightarrow> same_more s t"
  by (auto simp: only_oci_def same_more_def)

text \<open>The settings and the connection string of state \<open>sid\<close>, the other states and the registries.\<close>

definition own_state :: "nat \<Rightarrow> ('w, 'z) cat_scheme \<Rightarrow> ('w, 'z) cat_scheme \<Rightarrow> bool" where
  "own_state sid s t \<longleftrightarrow> (\<forall>x. x \<noteq> sid \<longrightarrow> states t x = states s x) \<and>
     settings (the_state sid t) = settings (the_state sid s) \<and>
     connection_string (the_state sid t) = connection_string (the_state sid s) \<and>
     (states s sid \<noteq> None \<longrightarrow> states t sid \<noteq> None) \<and>
     next_state t = next_state s \<and> registry t = registry s \<and> aliases t = aliases s"

interpretation own_state: state_preorder "own_state sid" for sid
  by unfold_locales (auto simp: own_state_def)

lemma same_more_own: "moves same_more m \<Longrightarrow> moves (own_state sid) m"
  by (rule movesI) (auto simp: own_state_def the_state_def same_more_cat dest!: movesD)

lemma only_oci_own: "moves only_oci m \<Longrightarrow> moves (own_state sid) m"
  by (rule same_more_own) (rule only_oci_same_more)

lemma the_state_upd [simp]:
  "the_state x (s\<lparr>states := (states s)(sid \<mapsto> st)\<rparr>) = (if x = sid then st else the_state x s)"
  by (simp add: the_state_def)

lemma get_state_run [simp]: "get_state sid s = (Ret (the_state sid s), s)"
  by (simp add: get_state_def)

lemma bind_get_state [simp]: "bind (get_state sid) f s = f (the_state sid s) s"
  by (simp add: get_state_def)

lemma upd_state_run [simp]:
  "upd_state sid f s = (Ret (), s\<lparr>states := (states s)(sid \<mapsto> f (the_state sid s))\<rparr>)"
  by (simp add: upd_state_def)

lemma bind_upd_state [simp]:
  "bind (upd_state sid f) k s = k () (s\<lparr>states := (states s)(sid \<mapsto> f (the_state sid s))\<rparr>)"
  by (simp add: upd_state_def)

lemma upd_state_own:
  "(\<And>st. settings (f st) = settings st) \<Longrightarrow> (\<And>st. connection_string (f st) = connection_string st) \<Longrightarrow>
   moves (own_state sid) (upd_state sid f)"
  unfolding upd_state_def by (rule own_state.moves_modify) (simp add: own_state_def)

lemma get_state_own: "moves (own_state sid) (get_state sid)"
  unfolding get_state_def by (rule own_state.moves_gets)

lemmas own_state_intros =
  own_state.moves_bind own_state.moves_gets own_state.moves_return own_state.moves_throw own_state.moves_run_if
  own_state.moves_try_catch own_state.moves_for_each get_state_own upd_state_own

lemma reset_connection_own: "moves (own_state sid) (reset_connection rt sid)"
  unfolding reset_connection_def
  by (intro own_state_intros same_more_own [OF drop_connection_same_more]) simp_all

lemma EnsureConnectionInternal_own: "moves (own_state sid) (EnsureConnectionInternal rt sid)"
  unfolding EnsureConnectionInternal_def
  by (intro own_state_intros own_state.moves_if reset_connection_own same_more_own [OF Connect_same_more]) simp_all

lemma state_query_only_oci: "moves only_oci (state_query rt sid q)"
  unfolding state_query_def get_state_def by (intro only_oci_intros Query_only_oci)

lemma state_query_own: "moves (own_state sid) (state_query rt sid q)"
  by (rule only_oci_own) (rule state_query_only_oci)

lemma ClearCaches_own: "moves (own_state sid) (ClearCaches rt sid)"
  unfolding ClearCaches_def
  by (intro own_state_intros reset_connection_own) (simp_all add: cleared_def)

text \<open>A query leaves all catalog states alone.\<close>

lemma state_query_states: "state_query rt sid q s = (r, t) \<Longrightarrow> states t = states s"
  by (drule movesD [OF state_query_only_oci]) (intro same_more_cat(1) only_oci_cat)

lemma state_query_the_state: "state_query rt sid q s = (r, t) \<Longrightarrow> the_state x t = the_state x s"
  by (simp add: the_state_def state_query_states)

section \<open>Memoised listings\<close>

locale memo =
  fixes get :: "'k \<Rightarrow> 's \<Rightarrow> 'v option"
    and run :: "'k \<Rightarrow> ('s, 'v) cpp"
    and storable :: "'k \<Rightarrow> 'v \<Rightarrow> bool"
  assumes hit: "get k s = Some v \<Longrightarrow> run k s = (Ret v, s)"
    and store: "run k s = (Ret v, t) \<Longrightarrow> storable k v \<Longrightarrow> get k t = Some v"
begin

lemma run_again: "run k s = (Ret v, t) \<Longrightarrow> storable k v \<Longrightarrow> run k t = (Ret v, t)"
  by (rule hit) (rule store)

lemma run_many:
  "run k s = (Ret v, t) \<Longrightarrow> storable k v \<Longrightarrow> map_each run (replicate n k) t = (Ret (replicate n v), t)"
  by (induction n) (simp_all add: bind_Ret run_again)

end

interpretation tables: memo "\<lambda>schema s. map_of (table_cache (the_state sid s)) schema" "ListTables D rt sid"
    "\<lambda>schema _. schema \<noteq> []" for D rt sid
  by unfold_locales (auto simp: ListTables_def bind_Ret_iff split: option.splits if_splits)

interpretation objects: memo "\<lambda>(schema, types) s. map_of (object_cache (the_state sid s)) (object_key schema types)"
    "\<lambda>(schema, types). ListObjects D rt sid schema types" "\<lambda>_ _. True" for D rt sid
  by unfold_locales (auto simp: ListObjects_def bind_Ret_iff split: option.splits)

interpretation schemas: memo
    "\<lambda>_ :: unit. \<lambda>s. if schema_cache (the_state sid s) = [] then None else Some (schema_cache (the_state sid s))"
    "\<lambda>_. ListSchemas rt sid" "\<lambda>_ v. v \<noteq> []" for rt sid
proof unfold_locales
  fix s t :: "('a, 'b) cat_scheme" and v
  show "(if schema_cache (the_state sid s) = [] then None else Some (schema_cache (the_state sid s))) = Some v \<Longrightarrow>
      ListSchemas rt sid s = (Ret v, s)"
    by (auto simp: ListSchemas_def split: if_splits)
  have all: "all_schemas rt sid u = (Ret v, t) \<Longrightarrow> v = schema_cache (the_state sid t)" for u
    by (auto simp: all_schemas_def bind_Ret_iff)
  assume "ListSchemas rt sid s = (Ret v, t)" and "v \<noteq> []"
  then show "(if schema_cache (the_state sid t) = [] then None else Some (schema_cache (the_state sid t))) = Some v"
    by (auto simp: ListSchemas_def bind_Ret_iff Let_def split: if_splits dest!: all)
qed

section \<open>Clearing\<close>

lemma reset_connection_run:
  "\<exists>t. reset_connection rt sid s = (Ret (), t) \<and>
     states t = (states s)(sid \<mapsto> (the_state sid s)\<lparr>connection := None\<rparr>) \<and> registry t = registry s"
proof -
  let ?u = "s\<lparr>states := (states s)(sid \<mapsto> (the_state sid s)\<lparr>connection := None\<rparr>)\<rparr>"
  obtain t where t: "drop_connection rt (connection (the_state sid s)) ?u = (Ret (), t)"
    using release_handle_run [of rt _ ?u] by (cases "connection (the_state sid s)") (auto simp: drop_connection_def)
  note same = same_more_cat [OF movesD [OF drop_connection_same_more t]]
  show ?thesis using t same by (simp add: reset_connection_def)
qed

lemma ClearCaches_run:
  "\<exists>t. ClearCaches rt sid s = (Ret (), t) \<and>
     states t = (states s)(sid \<mapsto> (cleared (the_state sid s))\<lparr>connection := None\<rparr>) \<and> registry t = registry s"
  using reset_connection_run [of rt sid "s\<lparr>states := (states s)(sid \<mapsto> cleared (the_state sid s))\<rparr>"]
  by (auto simp: ClearCaches_def)

definition clear_if_live :: "nat list \<Rightarrow> (nat \<Rightarrow> OracleCatalogState option) \<Rightarrow> nat \<Rightarrow> OracleCatalogState option" where
  "clear_if_live sids m x = (if x \<in> set sids then map_option (\<lambda>st. (cleared st)\<lparr>connection := None\<rparr>) (m x) else m x)"

lemma cleared_twice: "cleared ((cleared st)\<lparr>connection := None\<rparr>)\<lparr>connection := None\<rparr> = (cleared st)\<lparr>connection := None\<rparr>"
  by (simp add: cleared_def)

lemma clear_registry_run:
  "\<exists>t. clear_registry rt sids s = (Ret (filter (\<lambda>x. states s x \<noteq> None) sids), t) \<and>
     states t = clear_if_live sids (states s) \<and> registry t = registry s"
proof (induction sids arbitrary: s)
  case Nil
  show ?case by (simp add: clear_if_live_def fun_eq_iff)
next
  case (Cons sid sids)
  show ?case
  proof (cases "states s sid")
    case None
    moreover have "clear_if_live (sid # sids) (states s) = clear_if_live sids (states s)"
      using None by (auto simp: clear_if_live_def fun_eq_iff)
    ultimately show ?thesis using Cons.IH [of s] by auto
  next
    case (Some st)
    then have the: "the_state sid s = st" by (simp add: the_state_def)
    obtain u where u: "ClearCaches rt sid s = (Ret (), u)"
        "states u = (states s)(sid \<mapsto> (cleared st)\<lparr>connection := None\<rparr>)" "registry u = registry s"
      using ClearCaches_run [of rt sid s] the by auto
    obtain t where t: "clear_registry rt sids u = (Ret (filter (\<lambda>x. states u x \<noteq> None) sids), t)"
        "states t = clear_if_live sids (states u)" "registry t = registry u"
      using Cons.IH [of u] by auto
    have live: "filter (\<lambda>x. states u x \<noteq> None) sids = filter (\<lambda>x. states s x \<noteq> None) sids"
      using u(2) Some by (auto intro: filter_cong)
    have "states t = clear_if_live (sid # sids) (states s)"
      using t(2) u(2) Some by (auto simp: clear_if_live_def fun_eq_iff cleared_twice)
    then show ?thesis using u t Some live by (simp add: bind_Ret)
  qed
qed

lemma ClearAllCaches_run:
  "\<exists>t. ClearAllCaches rt s = (Ret (), t) \<and> states t = clear_if_live (registry s) (states s) \<and>
     registry t = filter (\<lambda>x. states s x \<noteq> None) (registry s)"
  using clear_registry_run [of rt "registry s" s] by (auto simp: ClearAllCaches_def bind_Ret)

section \<open>Version detection\<close>

definition flags_ok :: "OracleVersionInfo \<Rightarrow> bool" where
  "flags_ok vi \<longleftrightarrow> (supports_json_type vi \<longleftrightarrow> 21 \<le> major vi) \<and> (supports_vector vi \<longleftrightarrow> 23 \<le> major vi) \<and>
     (supports_vector_serialize vi \<longleftrightarrow> 23 < major vi \<or> major vi = 23 \<and> 4 \<le> minor vi)"

lemma flags_ok_no_version: "flags_ok no_version"
  by (simp add: flags_ok_def no_version_def)

lemma flags_ok_parse: "flags_ok vi \<Longrightarrow> flags_ok (parse_version D str vi)"
  by (simp add: flags_ok_def parse_version_def Let_def)

lemma version_body_states:
  assumes "version_body D rt sid s = (r, t)"
  shows "states t = states s \<or>
    (\<exists>str. states t = (states s)(sid \<mapsto> (the_state sid s)\<lparr>version_info := parse_version D str (version_info (the_state sid s))\<rparr>))"
proof -
  have run: "states u = states u' \<and> the_state sid u = the_state sid u'" if "state_query rt sid qq u' = (rr, u)"
    for qq u u' rr
    using state_query_states [OF that] state_query_the_state [OF that] by simp
  show ?thesis
    using assms unfolding version_body_def bind_def
    by (auto split: prod.splits outcome.splits if_splits dest!: run)
qed

lemma reset_connection_state:
  "reset_connection rt sid s = (r, t) \<Longrightarrow> the_state sid t = (the_state sid s)\<lparr>connection := None\<rparr>"
  using reset_connection_run [of rt sid s] by (auto simp: the_state_def)

lemma keep_connection: "\<exists>c. st = st\<lparr>connection := c\<rparr>"
  by (rule exI [of _ "connection st"]) simp

text \<open>Connecting changes nothing of a state but the connection.\<close>

lemma EnsureConnectionInternal_state:
  assumes "EnsureConnectionInternal rt sid s = (r, t)"
  shows "\<exists>c. the_state sid t = (the_state sid s)\<lparr>connection := c\<rparr>"
proof -
  let ?m = "run_if (\<not> connection_cache (settings (the_state sid s))) (reset_connection rt sid)"
  obtain u where u: "?m s = (Ret (), u)" "\<exists>c. the_state sid u = (the_state sid s)\<lparr>connection := c\<rparr>"
  proof (cases "connection_cache (settings (the_state sid s))")
    case True
    then show thesis using that [of s, OF _ keep_connection] by (simp add: run_if_def)
  next
    case False
    obtain u where u: "reset_connection rt sid s = (Ret (), u)" using reset_connection_run [of rt sid s] by blast
    have "\<exists>c. the_state sid u = (the_state sid s)\<lparr>connection := c\<rparr>"
      by (rule exI) (rule reset_connection_state [OF u])
    then show thesis using that [of u] False u by (simp add: run_if_def)
  qed
  show ?thesis
  proof (cases "IsConnected (connection (the_state sid u))")
    case True
    then show ?thesis using assms u by (auto simp: EnsureConnectionInternal_def bind_Ret)
  next
    case False
    obtain r1 v where con: "Connect rt (connection_string (the_state sid u)) (connection (the_state sid u)) u = (r1, v)"
      by fastforce
    have "the_state sid v = the_state sid u"
      using same_more_cat(1) [OF movesD [OF Connect_same_more con]] by (simp add: the_state_def)
    then show ?thesis
      using assms u con False
      by (cases r1) (auto simp: EnsureConnectionInternal_def bind_def)
  qed
qed

lemma EnsureConnectionInternal_version:
  "EnsureConnectionInternal rt sid s = (r, t) \<Longrightarrow> version_info (the_state sid t) = version_info (the_state sid s)"
  by (drule EnsureConnectionInternal_state) auto

lemma mgr_inv_states [simp]:
  fixes s :: "('w, 'z) cat_scheme"
  shows "mgr_inv (s\<lparr>states := x\<rparr>) \<longleftrightarrow> mgr_inv s"
  by (simp add: mgr_inv_def mgr_ok_def pools_ok_def pool_ok_def places_ok_def sessions_alive_def alive_def
      in_handles_def idle_in_def busy_with_def)

text \<open>Once the connection stands, the detection returns whatever the server answers, and the flags fit the version.\<close>

lemma DetectOracleVersion_soft:
  assumes "DetectOracleVersion D rt sid s = (r, t)" and "flags_ok (version_info (the_state sid s))"
  shows "(case r of
     Ret u \<Rightarrow> version_detected (the_state sid t) \<and> flags_ok (version_info (the_state sid t))
   | Throw e \<Rightarrow> EnsureConnectionInternal rt sid s = (Throw e, t)
   | Stuck \<Rightarrow> fst (EnsureConnectionInternal rt sid s) = Stuck \<or>
       fst (version_body D rt sid (snd (EnsureConnectionInternal rt sid s))) = Stuck)"
proof (cases "version_detected (the_state sid s)")
  case True
  then show ?thesis using assms by (auto simp: DetectOracleVersion_def)
next
  case False
  obtain r1 u where ens: "EnsureConnectionInternal rt sid s = (r1, u)" by fastforce
  have vi: "version_info (the_state sid u) = version_info (the_state sid s)" if "r1 = Ret ()"
    using EnsureConnectionInternal_version [OF ens] .
  obtain r2 w where body: "version_body D rt sid u = (r2, w)" by fastforce
  have ok: "flags_ok (version_info (the_state sid w))" if "r1 = Ret ()"
    using version_body_states [OF body] vi [OF that] assms(2) by (auto simp: the_state_def flags_ok_parse)
  show ?thesis
    using assms(1) False ens body ok
    by (cases r1; cases r2) (auto simp: DetectOracleVersion_def bind_def try_catch_def)
qed

section \<open>Queries on a connected state\<close>

definition connected_state :: "nat \<Rightarrow> ('w, 'z) cat_scheme \<Rightarrow> bool" where
  "connected_state sid s \<longleftrightarrow> connection (the_state sid s) \<noteq> None \<and> connection_cache (settings (the_state sid s))"

lemma EnsureConnectionInternal_connected: "connected_state sid s \<Longrightarrow> EnsureConnectionInternal rt sid s = (Ret (), s)"
  by (auto simp: EnsureConnectionInternal_def connected_state_def run_if_def IsConnected_def)

lemma state_query_answer:
  assumes "connected_state sid s" and "cursors_documented rt v" and "length (answer v q) < fuel rt"
  shows "\<exists>t. state_query rt sid q s = (Ret \<lparr>columns = names v q,
    rows = map (mem_text (length (names v q))) (answer v q)\<rparr>, t) \<and> states t = states s"
proof -
  obtain hid where "connection (the_state sid s) = Some hid" using assms(1) by (auto simp: connected_state_def)
  then obtain t where t: "state_query rt sid q s = (Ret \<lparr>columns = names v q,
      rows = map (mem_text (length (names v q))) (answer v q)\<rparr>, t)"
    using Query_run [OF assms(2,3), of hid s] by (auto simp: state_query_def)
  then show ?thesis using state_query_states [OF t] by blast
qed

text \<open>A process with one attached and connected database.\<close>

definition one_state_at :: "'w \<Rightarrow> OracleCatalogState \<Rightarrow> 'w cat" where
  "one_state_at w st = \<lparr> server = w, trace = [], environ = Map.empty, mgr_env = Some (Some 0),
     ctxs = Map.empty, next_ctx = 0, pools = [], pool_heap = Map.empty, next_pool = 0, handles = [],
     next_handle = 0, states = [0 \<mapsto> st], next_state = 1, registry = [0], aliases = [] \<rparr>"

definition one_state :: "(handle option \<Rightarrow> string \<times> col_mem list list) cat" where
  "one_state = one_state_at (\<lambda>_. ([], [])) ((new_state ''scott/tiger@db'')\<lparr>connection := Some 0\<rparr>)"

text \<open>Every query is answered by one row with the text \<open>x\<close>.\<close>

definition say_rt :: "string \<Rightarrow> (handle option \<Rightarrow> string \<times> col_mem list list) rt" where
  "say_rt x = cursor_rt (\<lambda>_. [[text_cell x]]) 2"

lemma say_query:
  assumes "connected_state sid s" and "length x < 65536"
  shows "\<exists>t. state_query (say_rt x) sid q s = (Ret \<lparr>columns = [''C''], rows = [[x]]\<rparr>, t) \<and> states t = states s"
proof -
  have "unat (of_nat (length x) :: 16 word) = length x"
    using assms(2) by (simp add: unat_of_nat)
  then have cell: "mem_text 1 [text_cell x] = [x]" by (simp add: mem_text_def cell_text_def text_cell_def)
  have "cursors_documented (say_rt x) (cursor_v (\<lambda>_. [[text_cell x]]))"
    unfolding say_rt_def by (rule cursor_rt_documented)
  from state_query_answer [OF assms(1) this, of q] show ?thesis
    using cell by (simp add: cursor_v_def say_rt_def cursor_rt_def)
qed

lemma one_state_simps:
  "the_state 0 one_state = (new_state ''scott/tiger@db'')\<lparr>connection := Some 0\<rparr>"
  by (simp add: the_state_def one_state_def one_state_at_def)

definition kept_lists :: "nat \<Rightarrow> ('w, 'z) cat_scheme \<Rightarrow> ('w, 'z) cat_scheme \<Rightarrow> bool" where
  "kept_lists sid s t \<longleftrightarrow> table_cache (the_state sid t) = table_cache (the_state sid s) \<and>
     schema_cache (the_state sid t) = schema_cache (the_state sid s) \<and>
     current_schema (the_state sid t) = current_schema (the_state sid s) \<and>
     settings (the_state sid t) = settings (the_state sid s)"

lemma emp_objects:
  assumes "connected_state sid s" and "map_of (object_cache (the_state sid s)) (object_key sch ty) = None"
  shows "\<exists>t. ListObjects D (say_rt ''EMP'') sid sch ty s = (Ret [''EMP''], t) \<and> connected_state sid t \<and> kept_lists sid s t"
proof -
  obtain u where u: "state_query (say_rt ''EMP'') sid (objects_query D (settings (the_state sid s)) sch ty) s =
      (Ret \<lparr>columns = [''C''], rows = [[''EMP'']]\<rparr>, u)" "states u = states s"
    using say_query [OF assms(1), of "''EMP''"] by auto
  have "the_state sid u = the_state sid s" using u(2) by (simp add: the_state_def)
  then show ?thesis
    using u(1) assms
    by (simp add: ListObjects_def EnsureConnectionInternal_connected [OF assms(1)] bind_def first_column_def
        connected_state_def kept_lists_def)
qed

lemma emp_tables:
  assumes "connected_state sid s" and "map_of (table_cache (the_state sid s)) sch = None" and "sch \<noteq> []"
  shows "\<exists>t. ListTables D (say_rt ''EMP'') sid sch s = (Ret [''EMP''], t) \<and> connected_state sid t \<and>
    schema_cache (the_state sid t) = schema_cache (the_state sid s) \<and>
    current_schema (the_state sid t) = current_schema (the_state sid s) \<and>
    settings (the_state sid t) = settings (the_state sid s)"
proof -
  obtain u where u: "state_query (say_rt ''EMP'') sid (tables_query D sch) s =
      (Ret \<lparr>columns = [''C''], rows = [[''EMP'']]\<rparr>, u)" "states u = states s"
    using say_query [OF assms(1), of "''EMP''"] by auto
  have "the_state sid u = the_state sid s" using u(2) by (simp add: the_state_def)
  then show ?thesis
    using u(1) assms
    by (simp add: ListTables_def EnsureConnectionInternal_connected [OF assms(1)] bind_def first_column_def
        connected_state_def)
qed

lemma emp_schemas:
  assumes "connected_state sid s" and "schema_cache (the_state sid s) = []" and "current_schema (the_state sid s) = []"
    and "lazy_schema_loading (settings (the_state sid s))" and "use_current_schema (settings (the_state sid s))"
  shows "\<exists>t. ListSchemas (say_rt ''EMP'') sid s = (Ret [''main'', ''EMP''], t)"
proof -
  obtain u where u: "state_query (say_rt ''EMP'') sid schema_query s =
      (Ret \<lparr>columns = [''C''], rows = [[''EMP'']]\<rparr>, u)" "states u = states s"
    using say_query [OF assms(1), of "''EMP''"] by auto
  have "the_state sid u = the_state sid s" using u(2) by (simp add: the_state_def)
  then show ?thesis
    using u(1) assms
    by (simp add: ListSchemas_def EnsureConnectionInternal_connected [OF assms(1)] bind_def run_if_def note_schema_def
        has_cell_def cell_def Let_def)
qed

section \<open>Properties\<close>

text \<open>C23: A listing asks the server once: when \<open>ListObjects\<close>, \<open>ListTables\<close> (for a schema) or
  \<open>ListSchemas\<close> (with a non-empty result) has returned, the next call of it returns the same list and
  changes nothing at all, so no call reaches the client library.\<close>

theorem listings_are_cached:
  assumes "ListObjects D rt sid schema types s = (Ret objs, s1)"
    and "ListTables D rt sid schema s1 = (Ret tabs, s2)" and "schema \<noteq> []"
    and "ListSchemas rt sid s2 = (Ret schs, s3)" and "schs \<noteq> []"
  shows "ListObjects D rt sid schema types s1 = (Ret objs, s1) \<and> ListTables D rt sid schema s2 = (Ret tabs, s2) \<and>
    ListSchemas rt sid s3 = (Ret schs, s3)"
  using objects.run_again [of D rt sid "(schema, types)" s objs s1] tables.run_again [OF assms(2,3)]
    schemas.run_again [OF assms(4,5)] assms(1) by simp

theorem listings_are_cached_witness:
  "\<exists>objs tabs schs s1 s2 s3. ListObjects duckdb_ref (say_rt ''EMP'') 0 ''SCOTT'' ''TABLE'' one_state = (Ret objs, s1) \<and>
     ListTables duckdb_ref (say_rt ''EMP'') 0 ''SCOTT'' s1 = (Ret tabs, s2) \<and> ListSchemas (say_rt ''EMP'') 0 s2 = (Ret schs, s3) \<and>
     ListObjects duckdb_ref (say_rt ''EMP'') 0 ''SCOTT'' ''TABLE'' s1 = (Ret objs, s1) \<and>
     ListTables duckdb_ref (say_rt ''EMP'') 0 ''SCOTT'' s2 = (Ret tabs, s2) \<and> ListSchemas (say_rt ''EMP'') 0 s3 = (Ret schs, s3)"
proof -
  have c0: "connected_state 0 one_state"
    by (simp add: connected_state_def one_state_simps default_settings_def)
  obtain s1 where 1: "ListObjects duckdb_ref (say_rt ''EMP'') 0 ''SCOTT'' ''TABLE'' one_state = (Ret [''EMP''], s1)"
      "connected_state 0 s1" "kept_lists 0 one_state s1"
    using emp_objects [OF c0, of "''SCOTT''" "''TABLE''" duckdb_ref] one_state_simps by auto
  then have k1: "table_cache (the_state 0 s1) = []" by (simp add: kept_lists_def one_state_simps)
  obtain s2 where 2: "ListTables duckdb_ref (say_rt ''EMP'') 0 ''SCOTT'' s1 = (Ret [''EMP''], s2)"
      "connected_state 0 s2" "schema_cache (the_state 0 s2) = schema_cache (the_state 0 s1)"
      "current_schema (the_state 0 s2) = current_schema (the_state 0 s1)"
      "settings (the_state 0 s2) = settings (the_state 0 s1)"
    using emp_tables [OF 1(2), of "''SCOTT''" duckdb_ref] k1 by auto
  obtain s3 where 3: "ListSchemas (say_rt ''EMP'') 0 s2 = (Ret [''main'', ''EMP''], s3)"
    using emp_schemas [OF 2(2)] 1(3) 2(3-5) by (auto simp: kept_lists_def one_state_simps default_settings_def)
  from listings_are_cached [OF 1(1) 2(1) _ 3] 1(1) 2(1) 3 show ?thesis by blast
qed

text \<open>C24: \<open>oracle_clear_cache\<close> reaches every database that is still attached: afterwards each registered
  state has empty caches, no schema, no version and no connection, with its settings kept; expired entries
  leave the registry, and states that are not registered are untouched.\<close>

theorem ClearAllCaches_clears:
  "\<exists>t. ClearAllCaches rt s = (Ret (), t) \<and>
     registry t = filter (\<lambda>x. states s x \<noteq> None) (registry s) \<and>
     (\<forall>x. states t x = (if x \<in> set (registry s)
        then map_option (\<lambda>st. (new_state (connection_string st))\<lparr>settings := settings st\<rparr>) (states s x)
        else states s x))"
proof -
  have "(cleared st)\<lparr>connection := None\<rparr> = (new_state (connection_string st))\<lparr>settings := settings st\<rparr>" for st
    by (simp add: cleared_def new_state_def)
  then show ?thesis using ClearAllCaches_run [of rt s] by (auto simp: clear_if_live_def)
qed

theorem ClearAllCaches_clears_witness:
  "\<exists>t. ClearAllCaches (say_rt ''EMP'') one_state = (Ret (), t) \<and> registry t = [0] \<and>
     states t 0 = Some (new_state ''scott/tiger@db'')"
proof -
  obtain t where t: "ClearAllCaches (say_rt ''EMP'') one_state = (Ret (), t)"
      "registry t = filter (\<lambda>x. states one_state x \<noteq> None) (registry one_state)"
      "\<forall>x. states t x = (if x \<in> set (registry one_state)
        then map_option (\<lambda>st. (new_state (connection_string st))\<lparr>settings := settings st\<rparr>) (states one_state x)
        else states one_state x)"
    using ClearAllCaches_clears [of "say_rt ''EMP''" one_state] by blast
  then show ?thesis by (simp add: one_state_def one_state_at_def new_state_def)
qed

text \<open>C22: A catalog session always comes from the pool: with the invariant of the manager, a state without a
  connection that connects gets a handle of the pool of its connection string, also when its settings
  switch \<open>connection_cache\<close> off.\<close>

theorem catalog_sessions_are_pooled:
  assumes "mgr_inv s" and "connection (the_state sid s) = None"
    and "EnsureConnectionInternal rt sid s = (Ret (), t)"
  shows "\<exists>hid h pid. connection (the_state sid t) = Some hid \<and> (hid, h) \<in> set (handles t) \<and>
    h_pool h = Some pid \<and> map_of (pools t) (connection_string (the_state sid s)) = Some pid"
proof -
  let ?u = "snd (run_if (\<not> connection_cache (settings (the_state sid s))) (reset_connection rt sid) s)"
  have pre: "run_if (\<not> connection_cache (settings (the_state sid s))) (reset_connection rt sid) s = (Ret (), ?u)"
      "mgr_inv ?u" "connection (the_state sid ?u) = None"
      "connection_string (the_state sid ?u) = connection_string (the_state sid s)"
    using assms(1,2) by (auto simp: run_if_def reset_connection_def drop_connection_def mgr_inv_states)
  obtain c v where con: "Connect rt (connection_string (the_state sid ?u)) None ?u = (Ret c, v)"
    and t: "t = v\<lparr>states := (states v)(sid \<mapsto> (the_state sid v)\<lparr>connection := c\<rparr>)\<rparr>"
    using assms(3) pre(1,3)
    by (auto simp: EnsureConnectionInternal_def bind_Ret_iff IsConnected_def)
  from con obtain hid where acq: "Acquire rt (connection_string (the_state sid s)) default_settings ?u = (Ret hid, v)"
    and c: "c = Some hid"
    by (auto simp: Connect_def bind_Ret_iff pre(4))
  have "\<exists>h. handles v = (hid, h) # handles ?u \<and> h_pool h = map_of (pools v) (connection_string (the_state sid s)) \<and>
      map_of (pools v) (connection_string (the_state sid s)) \<noteq> None"
    using Acquire_ok [OF pre(2) acq] by (auto simp: default_settings_def)
  then show ?thesis by (auto simp: t c)
qed

theorem catalog_sessions_are_pooled_witness:
  "\<exists>st t hid h pid. \<not> connection_cache (settings st) \<and>
     EnsureConnectionInternal (sample_rt (\<lambda>_. False)) 0 (one_state_at 0 st) = (Ret (), t) \<and>
     connection (the_state 0 t) = Some hid \<and> (hid, h) \<in> set (handles t) \<and> h_pool h = Some pid"
proof -
  let ?rt = "sample_rt (\<lambda>_. False)"
  let ?st = "(new_state ''scott/tiger@db'')\<lparr>settings := default_settings\<lparr>connection_cache := False\<rparr>\<rparr>"
  let ?s = "one_state_at 0 ?st :: nat cat"
  have inv: "mgr_inv ?s"
    by (simp add: mgr_inv_def mgr_ok_def pools_ok_def places_ok_def sessions_alive_def
        in_handles_def idle_in_def busy_with_def one_state_at_def)
  have the: "the_state 0 ?s = ?st" by (simp add: the_state_def one_state_at_def)
  let ?u = "?s\<lparr>states := (states ?s)(0 \<mapsto> ?st\<lparr>connection := None\<rparr>)\<rparr>"
  have parses: "ParseOracleConnectionString ''scott/tiger@db'' = Inr (''scott'', ''tiger'', ''db'')" by code_simp
  have "mgr_inv ?u" using inv by (subst mgr_inv_states)
  then have "\<exists>hid t. Acquire ?rt ''scott/tiger@db'' default_settings ?u = (Ret hid, t)"
    by (rule Acquire_room [OF _ sample_rt_healthy parses]) (simp add: one_state_at_def)
  then obtain hid t where acq: "Acquire ?rt ''scott/tiger@db'' default_settings ?u = (Ret hid, t)" by blast
  have "\<exists>t. EnsureConnectionInternal ?rt 0 ?s = (Ret (), t)"
    using acq by (simp add: EnsureConnectionInternal_def reset_connection_def the run_if_def bind_def drop_connection_def
        IsConnected_def Connect_def)
  then obtain v where run: "EnsureConnectionInternal ?rt 0 ?s = (Ret (), v)" by blast
  have "connection (the_state 0 ?s) = None" by (simp add: the)
  from catalog_sessions_are_pooled [OF inv this run] run the show ?thesis
    by (intro exI [of _ ?st]) auto
qed

end
