(* ===== verification/TableEntry.thy ===== *)
theory TableEntry
  imports CatalogState
begin

text \<open>
  Columns of Oracle tables (\<open>oracle_table_entry.hpp\<close>, \<open>oracle_table_entry.cpp\<close>): the
  classification of a column by its data type, its DuckDB type, the conversion that the query applies
  to it, the loading of the columns of a table from the data dictionary, and the query of a scan.
  \<open>OracleTableEntry\<close> keeps the columns that DuckDB sees and the metadata side by side.
\<close>

section \<open>Classification\<close>

datatype OracleTypeCategory =
  STANDARD | NUMERIC | TEMPORAL | SPATIAL | VECTOR | JSON | LOB_CLOB | LOB_BLOB | RAW | XML | UNKNOWN

record OracleColumnMetadata =
  column_name :: string
  oracle_data_type :: string
  category :: OracleTypeCategory
  needs_server_conversion :: bool

definition classify :: "'v duckdb \<Rightarrow> string \<Rightarrow> OracleTypeCategory \<times> bool" where
  "classify D data_type = (let upper = Upper D data_type in
     if upper = ''SDO_GEOMETRY'' \<or> upper = ''MDSYS.SDO_GEOMETRY'' then (SPATIAL, True)
     else if upper = ''VECTOR'' \<or> StartsWith D upper ''VECTOR('' then (VECTOR, True)
     else if upper = ''JSON'' then (JSON, True)
     else if upper = ''BLOB'' \<or> upper = ''BFILE'' then (LOB_BLOB, False)
     else if upper = ''CLOB'' \<or> upper = ''NCLOB'' then (LOB_CLOB, False)
     else if upper = ''RAW'' \<or> StartsWith D upper ''RAW('' then (RAW, False)
     else if upper = ''XMLTYPE'' \<or> upper = ''SYS.XMLTYPE'' then (XML, True)
     else if upper = ''NUMBER'' \<or> upper = ''FLOAT'' \<or> upper = ''BINARY_FLOAT'' \<or> upper = ''BINARY_DOUBLE'' \<or>
             StartsWith D upper ''NUMBER('' then (NUMERIC, False)
     else if upper = ''DATE'' \<or> Contains D upper ''TIMESTAMP'' then (TEMPORAL, False)
     else if Contains D upper ''CHAR'' \<or> Contains D upper ''VARCHAR'' then (STANDARD, False)
     else (UNKNOWN, False))"

definition make_metadata :: "'v duckdb \<Rightarrow> string \<Rightarrow> string \<Rightarrow> OracleColumnMetadata" where
  "make_metadata D name data_type = \<lparr> column_name = name, oracle_data_type = data_type,
     category = fst (classify D data_type), needs_server_conversion = snd (classify D data_type) \<rparr>"

definition is_spatial :: "OracleColumnMetadata \<Rightarrow> bool" where
  "is_spatial meta \<longleftrightarrow> category meta = SPATIAL"

definition RequiresQueryRewrite :: "OracleColumnMetadata \<Rightarrow> OracleVersionInfo \<Rightarrow> bool \<Rightarrow> bool" where
  "RequiresQueryRewrite meta version native_lobs = (case category meta of
     SPATIAL \<Rightarrow> True
   | XML \<Rightarrow> True
   | VECTOR \<Rightarrow> True
   | JSON \<Rightarrow> supports_json_type version
   | LOB_BLOB \<Rightarrow> \<not> native_lobs \<or> needs_server_conversion meta
   | RAW \<Rightarrow> \<not> native_lobs \<or> needs_server_conversion meta
   | LOB_CLOB \<Rightarrow> needs_server_conversion meta
   | _ \<Rightarrow> False)"

definition GetConversionExpression ::
  "'v duckdb \<Rightarrow> string \<Rightarrow> OracleColumnMetadata \<Rightarrow> OracleVersionInfo \<Rightarrow> string" where
  "GetConversionExpression D quoted_col meta version = (case category meta of
     SPATIAL \<Rightarrow> Format D ''SDO_UTIL.TO_WKTGEOMETRY(%s)'' [quoted_col]
   | VECTOR \<Rightarrow> Format D ''VECTOR_SERIALIZE(%s)'' [quoted_col]
   | JSON \<Rightarrow> (if supports_json_type version
       then Format D ''JSON_SERIALIZE(%s RETURNING VARCHAR2(32767))'' [quoted_col] else quoted_col)
   | XML \<Rightarrow> Format D ''XMLSERIALIZE(CONTENT %s AS CLOB)'' [quoted_col]
   | LOB_BLOB \<Rightarrow> (if needs_server_conversion meta then Format D ''RAWTOHEX(%s)'' [quoted_col] else quoted_col)
   | LOB_CLOB \<Rightarrow> (if needs_server_conversion meta then Format D ''TO_CHAR(%s)'' [quoted_col] else quoted_col)
   | RAW \<Rightarrow> (if needs_server_conversion meta then Format D ''RAWTOHEX(%s)'' [quoted_col] else quoted_col)
   | _ \<Rightarrow> quoted_col)"

section \<open>Types\<close>

definition MapOracleColumn ::
  "'v duckdb \<Rightarrow> string \<Rightarrow> idx_t \<Rightarrow> idx_t \<Rightarrow> idx_t \<Rightarrow> OracleSettings \<Rightarrow> LogicalType" where
  "MapOracleColumn D data_type precision scale char_len st = (let upper = Upper D data_type in
     if upper = ''VECTOR'' \<or> StartsWith D upper ''VECTOR('' then (if vector_to_list st then LIST FLOAT else VARCHAR)
     else if upper = ''SDO_GEOMETRY'' \<or> upper = ''MDSYS.SDO_GEOMETRY'' then
       (if enable_spatial_types st then USER ''geometry'' else VARCHAR)
     else if upper = ''JSON'' then VARCHAR
     else if upper = ''XMLTYPE'' \<or> upper = ''SYS.XMLTYPE'' then VARCHAR
     else if upper = ''NUMBER'' then
       (if precision = 0 then DOUBLE
        else if 38 < precision then DOUBLE
        else DECIMAL (ucast (if precision = 0 then 38 else precision)) (ucast scale))
     else if upper = ''FLOAT'' \<or> upper = ''BINARY_FLOAT'' \<or> upper = ''BINARY_DOUBLE'' then DOUBLE
     else if upper = ''DATE'' \<or> has_substr ''TIMESTAMP'' upper then TIMESTAMP
     else if has_substr ''CHAR'' upper \<or> has_substr ''CLOB'' upper \<or> has_substr ''VARCHAR'' upper \<or>
             has_substr ''NCHAR'' upper then VARCHAR
     else if has_substr ''BLOB'' upper \<or> has_substr ''RAW'' upper \<or> has_substr ''BFILE'' upper then BLOB
     else VARCHAR)"

section \<open>Loading the columns\<close>

definition columns_query :: "'v duckdb \<Rightarrow> string \<Rightarrow> string \<Rightarrow> string" where
  "columns_query D schema table =
     Format D (''SELECT column_name, data_type, data_length, data_precision, data_scale, nullable '' @
       ''FROM all_tab_columns WHERE owner = UPPER(%s) AND table_name = UPPER(%s) '' @ ''ORDER BY column_id'')
       [sql_literal D schema, sql_literal D table]"

definition parse_idx :: "string \<Rightarrow> idx_t" where
  "parse_idx s = (if s = [] then 0 else (case stoll s of Inr n \<Rightarrow> to_idx n | Inl _ \<Rightarrow> 0))"

type_synonym column = "string \<times> LogicalType"

definition load_row :: "'v duckdb \<Rightarrow> OracleSettings \<Rightarrow> string list \<Rightarrow> column \<times> OracleColumnMetadata" where
  "load_row D st row =
     ((row ! 0, MapOracleColumn D (row ! 1) (parse_idx (row ! 3)) (parse_idx (row ! 4)) (parse_idx (row ! 2)) st),
      make_metadata D (row ! 0) (row ! 1))"

definition load_rows :: "'v duckdb \<Rightarrow> OracleSettings \<Rightarrow> string list list \<Rightarrow> column list \<times> OracleColumnMetadata list" where
  "load_rows D st rws = foldl (\<lambda>(cols, metas) row.
     if length row < 6 then (cols, metas)
     else (cols @ [fst (load_row D st row)], metas @ [snd (load_row D st row)])) ([], []) rws"

definition LoadColumns ::
  "'v duckdb \<Rightarrow> 'w rt \<Rightarrow> nat \<Rightarrow> string \<Rightarrow> string
    \<Rightarrow> (('w, 'z) cat_scheme, column list \<times> OracleColumnMetadata list) cpp" where
  "LoadColumns D rt sid schema table =
     bind (StateQuery rt sid (columns_query D schema table)) (\<lambda>res.
     bind (get_state sid) (\<lambda>st. return (load_rows D (settings st) (rows res))))"

record OracleTableEntry =
  entry_name :: string
  schema_name :: string
  table_name :: string
  entry_columns :: "column list"
  column_metadata :: "OracleColumnMetadata list"
  entry_state :: nat

definition CreateTableEntry ::
  "'v duckdb \<Rightarrow> 'w rt \<Rightarrow> nat \<Rightarrow> string \<Rightarrow> string \<Rightarrow> string \<Rightarrow> (('w, 'z) cat_scheme, OracleTableEntry) cpp" where
  "CreateTableEntry D rt sid schema table duckdb_entry_name =
     bind (LoadColumns D rt sid schema table) (\<lambda>(cols, metas).
     return \<lparr> entry_name = (if duckdb_entry_name = [] then table else duckdb_entry_name),
       schema_name = schema, table_name = table, entry_columns = cols, column_metadata = metas, entry_state = sid \<rparr>)"

section \<open>The query of a scan\<close>

definition column_sql :: "'v duckdb \<Rightarrow> OracleVersionInfo \<Rightarrow> OracleSettings \<Rightarrow> OracleColumnMetadata list \<Rightarrow> nat \<Rightarrow> string \<Rightarrow> string" where
  "column_sql D version st metas col_idx name = (let quoted_col = WriteQuoted D name (CHR 0x22) in
     if enable_type_conversion st \<and> col_idx < length metas then
       (if RequiresQueryRewrite (metas ! col_idx) version (try_native_lobs st)
        then Format D ''%s AS %s'' [GetConversionExpression D quoted_col (metas ! col_idx) version, quoted_col]
        else quoted_col)
     else quoted_col)"

fun column_list ::
  "'v duckdb \<Rightarrow> OracleVersionInfo \<Rightarrow> OracleSettings \<Rightarrow> OracleColumnMetadata list \<Rightarrow> column list \<Rightarrow> nat \<Rightarrow> string \<Rightarrow> string" where
  "column_list D version st metas [] col_idx acc = acc"
| "column_list D version st metas (col # cols) col_idx acc =
     column_list D version st metas cols (Suc col_idx)
       (acc @ (if 0 < col_idx then '', '' else []) @ column_sql D version st metas col_idx (fst col))"

definition table_query :: "'v duckdb \<Rightarrow> OracleVersionInfo \<Rightarrow> OracleSettings \<Rightarrow> OracleTableEntry \<Rightarrow> string" where
  "table_query D version st e =
     Format D ''SELECT %s FROM %s.%s'' [column_list D version st (column_metadata e) (entry_columns e) 0 [],
       WriteQuoted D (schema_name e) (CHR 0x22), WriteQuoted D (table_name e) (CHR 0x22)]"

section \<open>Lemmas\<close>

lemma load_rows_run:
  "load_rows D st rws = (map (fst \<circ> load_row D st) (filter (\<lambda>row. 6 \<le> length row) rws),
     map (snd \<circ> load_row D st) (filter (\<lambda>row. 6 \<le> length row) rws))"
proof -
  have "foldl (\<lambda>(cols, metas) row. if length row < 6 then (cols, metas)
      else (cols @ [fst (load_row D st row)], metas @ [snd (load_row D st row)])) (cs, ms) rws =
    (cs @ map (fst \<circ> load_row D st) (filter (\<lambda>row. 6 \<le> length row) rws),
     ms @ map (snd \<circ> load_row D st) (filter (\<lambda>row. 6 \<le> length row) rws))" for cs ms
    by (induction rws arbitrary: cs ms) auto
  then show ?thesis by (simp add: load_rows_def)
qed

lemma load_rows_aligned:
  "load_rows D st rws = (cols, metas) \<Longrightarrow> length metas = length cols \<and> map column_name metas = map fst cols"
  by (auto simp: load_rows_run load_row_def make_metadata_def)

text \<open>The loop over the columns is a join with commas.\<close>

lemma join_with_snoc: "xs \<noteq> [] \<Longrightarrow> join_with (xs @ [y]) sep = join_with xs sep @ sep @ y"
  by (induction xs sep rule: join_with.induct) auto

lemma column_list_join:
  assumes "acc = join_with xs '', ''" and "length xs = k"
  shows "column_list D v st metas cols k acc =
    join_with (xs @ map (\<lambda>(i, c). column_sql D v st metas i (fst c)) (enumerate k cols)) '', ''"
  using assms
proof (induction cols arbitrary: k acc xs)
  case (Cons c cols)
  let ?x = "column_sql D v st metas k (fst c)"
  have "acc @ (if 0 < k then '', '' else []) @ ?x = join_with (xs @ [?x]) '', ''"
    using Cons.prems join_with_snoc [of xs ?x "'', ''"] by (cases "xs = []") auto
  then show ?case
    using Cons.IH [of _ "xs @ [?x]" "Suc k"] Cons.prems(2) by simp
qed simp

lemma map_enumerate: "map (\<lambda>(i, c). f i (fst c)) (enumerate 0 cols) = map (\<lambda>i. f i (fst (cols ! i))) [0..<length cols]"
  by (rule nth_equalityI) (auto simp: nth_enumerate_eq)

text \<open>No LOB is marked for conversion on the server.\<close>

definition unconverted_lob :: "OracleTypeCategory \<times> bool \<Rightarrow> bool" where
  "unconverted_lob c \<longleftrightarrow> (fst c \<in> {LOB_BLOB, RAW} \<longrightarrow> \<not> snd c)"

lemma unconverted_lob_if: "unconverted_lob x \<Longrightarrow> unconverted_lob y \<Longrightarrow> unconverted_lob (if b then x else y)"
  by simp

lemma classify_lob: "unconverted_lob (classify D data_type)"
  unfolding classify_def Let_def by (intro unconverted_lob_if) (simp_all add: unconverted_lob_def)

lemma byte_of_int: "-84 \<le> sc \<Longrightarrow> sc \<le> 127 \<Longrightarrow> take_bit 8 sc = (if sc < 0 then 256 + sc else sc)" for sc :: int
  by (simp add: take_bit_eq_mod) presburger

section \<open>What a scan should select\<close>

text \<open>The expression that Oracle should evaluate for a column with quoted name \<open>q\<close> and data type \<open>ty\<close> (in upper
  case), where the column itself will not do; and the item of the select list.\<close>

definition converted :: "OracleVersionInfo \<Rightarrow> string \<Rightarrow> string \<Rightarrow> string option" where
  "converted version ty q =
     (if ty \<in> {''SDO_GEOMETRY'', ''MDSYS.SDO_GEOMETRY''} then Some (''SDO_UTIL.TO_WKTGEOMETRY('' @ q @ '')'')
      else if ty = ''VECTOR'' \<or> take 7 ty = ''VECTOR('' then Some (''VECTOR_SERIALIZE('' @ q @ '')'')
      else if ty = ''JSON'' \<and> supports_json_type version then
        Some (''JSON_SERIALIZE('' @ q @ '' RETURNING VARCHAR2(32767))'')
      else if ty \<in> {''XMLTYPE'', ''SYS.XMLTYPE''} then Some (''XMLSERIALIZE(CONTENT '' @ q @ '' AS CLOB)'')
      else None)"

definition select_item :: "OracleVersionInfo \<Rightarrow> OracleSettings \<Rightarrow> string \<Rightarrow> string \<Rightarrow> string" where
  "select_item version st name data_type = (let q = quoted (CHR 0x22) name; ty = map to_upper data_type in
     if \<not> enable_type_conversion st then q
     else (case converted version ty q of
        Some e \<Rightarrow> e @ '' AS '' @ q
      | None \<Rightarrow> (if ty \<in> {''BLOB'', ''BFILE'', ''RAW''} \<or> take 4 ty = ''RAW('' then
                  (if try_native_lobs st then q else q @ '' AS '' @ q) else q)))"

lemma format_conversions:
  assumes "format_documented D"
  shows "Format D ''SDO_UTIL.TO_WKTGEOMETRY(%s)'' [q] = ''SDO_UTIL.TO_WKTGEOMETRY('' @ q @ '')''"
    and "Format D ''VECTOR_SERIALIZE(%s)'' [q] = ''VECTOR_SERIALIZE('' @ q @ '')''"
    and "Format D ''JSON_SERIALIZE(%s RETURNING VARCHAR2(32767))'' [q] = ''JSON_SERIALIZE('' @ q @ '' RETURNING VARCHAR2(32767))''"
    and "Format D ''XMLSERIALIZE(CONTENT %s AS CLOB)'' [q] = ''XMLSERIALIZE(CONTENT '' @ q @ '' AS CLOB)''"
    and "Format D ''%s AS %s'' [e, q] = e @ '' AS '' @ q"
  using assms by (simp_all add: format_documented_def)

text \<open>The types that are treated in a way of their own.\<close>

definition special_types :: "string list" where
  "special_types = [''SDO_GEOMETRY'', ''MDSYS.SDO_GEOMETRY'', ''VECTOR'', ''JSON'', ''BLOB'', ''BFILE'', ''CLOB'', ''NCLOB'', ''RAW'',
     ''XMLTYPE'', ''SYS.XMLTYPE'']"

lemma classify_plain:
  assumes "Upper D data_type = ty" and "starts_with_documented D" and "ty \<notin> set special_types"
    and "take 7 ty \<noteq> ''VECTOR(''" and "take 4 ty \<noteq> ''RAW(''"
  shows "fst (classify D data_type) \<in> {STANDARD, NUMERIC, TEMPORAL, UNKNOWN}"
  using assms by (simp add: classify_def starts_with_documented_def Let_def special_types_def eval_nat_numeral)

lemma column_sql_item:
  assumes docs: "upper_documented D" "starts_with_documented D" "format_documented D" "quote_documented D"
    and i: "i < length metas" "metas ! i = make_metadata D name data_type"
  shows "column_sql D version st metas i name = select_item version st name data_type"
proof -
  obtain ty where ty: "map to_upper data_type = ty" by simp
  then have up: "Upper D data_type = ty" using docs(1) by (simp add: upper_documented_def)
  have sw: "StartsWith D s p \<longleftrightarrow> take (length p) s = p" for s p using docs(2) by (simp add: starts_with_documented_def)
  have q: "WriteQuoted D name (CHR 0x22) = quoted (CHR 0x22) name" using docs(4) by (simp add: quote_documented_def)
  note unfold = column_sql_def q i make_metadata_def RequiresQueryRewrite_def GetConversionExpression_def
    format_conversions [OF docs(3)] select_item_def converted_def Let_def eval_nat_numeral ty
  consider (known) "ty \<in> set special_types" | (vec) r where "ty = ''VECTOR('' @ r" | (raw) r where "ty = ''RAW('' @ r"
    | (plain) "ty \<notin> set special_types" "take 7 ty \<noteq> ''VECTOR(''" "take 4 ty \<noteq> ''RAW(''"
    by (metis append_take_drop_id)
  then show ?thesis
  proof cases
    case plain
    then have "fst (classify D data_type) \<in> {STANDARD, NUMERIC, TEMPORAL, UNKNOWN}"
      by (intro classify_plain [OF up docs(2)])
    then show ?thesis using plain by (auto simp: unfold special_types_def)
  next
    case known
    then show ?thesis unfolding special_types_def set_simps
      by (elim insertE emptyE) (simp_all add: unfold classify_def up sw)
  qed (simp_all add: unfold classify_def up sw)
qed

section \<open>Properties\<close>

text \<open>C16: The query of a table scan selects every column that the data dictionary lists, once and in its order, from the
  quoted table: a column under its quoted name, and a geometry, a vector, a JSON value (from version 21) or an XML value as
  the text that Oracle makes of it, under the quoted name of the column. The other columns are selected as they are,
  a \<open>BLOB\<close> or \<open>RAW\<close> column with its own name as the alias unless native LOBs are on.\<close>

theorem scan_query_selects_each_column:
  assumes "format_documented D" and "quote_documented D" and "upper_documented D" and "starts_with_documented D"
    and "\<forall>row \<in> set rws. 6 \<le> length row" and "load_rows D st rws = (entry_columns e, column_metadata e)"
  shows "table_query D version st e =
     ''SELECT '' @ join_with (map (\<lambda>row. select_item version st (row ! 0) (row ! 1)) rws) '', '' @
     '' FROM '' @ quoted (CHR 0x22) (schema_name e) @ ''.'' @ quoted (CHR 0x22) (table_name e)"
proof -
  have rws: "filter (\<lambda>row. 6 \<le> length row) rws = rws" using assms(5) by (simp add: filter_id_conv)
  have cols: "entry_columns e = map (fst \<circ> load_row D st) rws" "column_metadata e = map (snd \<circ> load_row D st) rws"
    using assms(6) by (simp_all add: load_rows_run rws)
  then have len: "length (entry_columns e) = length rws" by simp
  have item: "column_sql D version st (column_metadata e) i (fst (entry_columns e ! i)) =
      select_item version st (rws ! i ! 0) (rws ! i ! 1)" if "i < length rws" for i
    using column_sql_item [OF assms(3,4,1,2), of i "column_metadata e" "rws ! i ! 0" "rws ! i ! 1"] that
    by (simp add: cols load_row_def)
  have "column_list D version st (column_metadata e) (entry_columns e) 0 [] =
      join_with (map (\<lambda>i. column_sql D version st (column_metadata e) i (fst (entry_columns e ! i))) [0..<length rws]) '', ''"
    using column_list_join [of "[]" "[]" 0 D version st "column_metadata e" "entry_columns e"] len by (simp add: map_enumerate)
  also have "map (\<lambda>i. column_sql D version st (column_metadata e) i (fst (entry_columns e ! i))) [0..<length rws] =
      map (\<lambda>row. select_item version st (row ! 0) (row ! 1)) rws"
    by (rule nth_equalityI) (simp_all add: item)
  finally show ?thesis
    using assms(1,2) by (simp add: table_query_def format_documented_def quote_documented_def)
qed

definition shape_rows :: "string list list" where
  "shape_rows = [[''ID'', ''NUMBER'', ''22'', ''9'', ''0'', ''N''], [''SHAPE'', ''SDO_GEOMETRY'', ''1'', [], [], ''Y'']]"

theorem scan_query_selects_each_column_witness:
  "\<exists>e. length (entry_columns e) = 2 \<and> table_query duckdb_ref no_version default_settings e =
     ''SELECT \"ID\", SDO_UTIL.TO_WKTGEOMETRY(\"SHAPE\") AS \"SHAPE\" FROM \"S\".\"T\"''"
proof -
  let ?e = "\<lparr> entry_name = ''T'', schema_name = ''S'', table_name = ''T'',
    entry_columns = fst (load_rows duckdb_ref default_settings shape_rows),
    column_metadata = snd (load_rows duckdb_ref default_settings shape_rows), entry_state = 0 \<rparr>"
  have load: "load_rows duckdb_ref default_settings shape_rows = (entry_columns ?e, column_metadata ?e)"
    and rws: "\<forall>row \<in> set shape_rows. 6 \<le> length row" by (simp_all add: shape_rows_def)
  have items: "map (\<lambda>row. select_item no_version default_settings (row ! 0) (row ! 1)) shape_rows =
      [''\"ID\"'', ''SDO_UTIL.TO_WKTGEOMETRY(\"SHAPE\") AS \"SHAPE\"'']"
    and names: "quoted (CHR 0x22) ''S'' = ''\"S\"''" "quoted (CHR 0x22) ''T'' = ''\"T\"''" by code_simp+
  have "length (entry_columns ?e) = 2" by (simp add: load_rows_run shape_rows_def)
  moreover have "table_query duckdb_ref no_version default_settings ?e =
      ''SELECT \"ID\", SDO_UTIL.TO_WKTGEOMETRY(\"SHAPE\") AS \"SHAPE\" FROM \"S\".\"T\"''"
    unfolding scan_query_selects_each_column [OF duckdb_ref_documented(6,7,1,3) rws load, of no_version] items
    by (simp add: names)
  ultimately show ?thesis by blast
qed

text \<open>C40: The setting \<open>try_native_lobs\<close> never leads to hexadecimal text, whatever its comment says: with
  the setting off the query of a \<open>BLOB\<close> or \<open>RAW\<close> column is said to be rewritten, but the conversion
  expression of such a column is the column itself.\<close>

theorem lobs_are_never_converted:
  assumes "category (make_metadata D name data_type) \<in> {LOB_BLOB, RAW}"
  shows "RequiresQueryRewrite (make_metadata D name data_type) version False \<and>
    GetConversionExpression D quoted_col (make_metadata D name data_type) version = quoted_col"
proof -
  have "needs_server_conversion (make_metadata D name data_type) = False"
    using classify_lob [of D data_type] assms by (auto simp: make_metadata_def unconverted_lob_def)
  with assms show ?thesis by (auto simp: RequiresQueryRewrite_def GetConversionExpression_def)
qed

theorem lobs_are_never_converted_witness:
  "RequiresQueryRewrite (make_metadata duckdb_ref ''PHOTO'' ''BLOB'') no_version False \<and>
   GetConversionExpression duckdb_ref ''\"PHOTO\"'' (make_metadata duckdb_ref ''PHOTO'' ''BLOB'') no_version = ''\"PHOTO\"''"
proof (rule lobs_are_never_converted)
  have "category (make_metadata duckdb_ref ''PHOTO'' ''BLOB'') = LOB_BLOB" by code_simp
  then show "category (make_metadata duckdb_ref ''PHOTO'' ''BLOB'') \<in> {LOB_BLOB, RAW}" by simp
qed

text \<open>C32: The type of a \<open>NUMBER(p, s)\<close> column, as the dictionary reports it, is a decimal of width \<open>p\<close>, but its
  scale goes through an unsigned byte: a negative scale \<open>s\<close> becomes \<open>256 + s\<close>, far above the
  width.\<close>

theorem number_type:
  assumes "upper_documented D" and "starts_with_documented D" and "1 \<le> p" and "p \<le> 38" and "-84 \<le> sc" and "sc \<le> 127"
  shows "\<exists>w x. snd (fst (load_row D st [name, ''NUMBER'', len, to_string p, int_to_string sc, nullable])) = DECIMAL w x \<and>
    uint w = int p \<and> uint x = (if sc < 0 then 256 + sc else sc)"
proof -
  have up: "Upper D ''NUMBER'' = ''NUMBER''"
  proof -
    have "map to_upper ''NUMBER'' = ''NUMBER''" by code_simp
    then show ?thesis using assms(1) by (simp add: upper_documented_def)
  qed
  have sw: "\<not> StartsWith D ''NUMBER'' ''VECTOR(''"
    using assms(2) by (simp add: starts_with_documented_def)
  have p: "parse_idx (to_string p) = of_nat p"
    using assms(3,4) stoll_to_string [of p] by (simp add: parse_idx_def to_idx_def)
  have s: "parse_idx (int_to_string sc) = of_int sc"
    using assms(5,6) stoll_int_to_string [of sc] by (simp add: parse_idx_def to_idx_def int_to_string_nonempty)
  have pu: "uint (of_nat p :: idx_t) = int p" using assms(4) by (simp add: unsigned_of_nat take_bit_nat_eq_self)
  then have nz: "of_nat p \<noteq> (0 :: idx_t)" "\<not> 38 < (of_nat p :: idx_t)"
    using assms(3,4) by (auto simp: word_less_alt)
  have "uint (ucast (of_nat p :: idx_t) :: 8 word) = int p"
    using assms(4) by (simp add: unsigned_ucast_eq pu take_bit_int_eq_self)
  moreover have "uint (ucast (of_int sc :: idx_t) :: 8 word) = (if sc < 0 then 256 + sc else sc)"
    using byte_of_int [OF assms(5,6)] assms(5) by (simp add: unsigned_ucast_eq unsigned_of_int take_bit_take_bit)
  ultimately show ?thesis
    using nz by (simp add: load_row_def MapOracleColumn_def Let_def up sw p s)
qed

theorem number_type_witness:
  "\<exists>w x. snd (fst (load_row duckdb_ref default_settings
      [''N'', ''NUMBER'', ''22'', to_string 5, int_to_string (-2), ''Y''])) = DECIMAL w x \<and> uint w = 5 \<and> uint x = 254"
  using number_type [OF duckdb_ref_documented(1,3), of 5 "-2"] by simp

end
