(* ===== verification/Transaction.thy ===== *)
theory Transaction
  imports TableEntry
begin

text \<open>
  Transactions on an attached database (\<open>oracle_transaction.cpp\<close>,
  \<open>oracle_transaction_manager.cpp\<close>). A transaction owns an \<open>OracleConnection\<close> that connects at the
  first use; its manager keeps every transaction it has started in \<open>active\<close>, from which nothing is ever
  taken out, so that a reference to a transaction is its position in that list. What \<open>CommitTransaction\<close>
  returns as \<open>ErrorData\<close> is the exception it caught, or \<open>None\<close>.

  The lemmas follow the sessions of a pool through a sequence of transactions.
\<close>

section \<open>Transactions and their managers\<close>

record OracleTransaction =
  t_connection_string :: string
  t_connection :: connection

record TransactionManager =
  t_state :: nat
  active :: "OracleTransaction list"

record 'w txns = "'w cat" +
  managers :: "nat \<Rightarrow> TransactionManager option"
  next_manager :: nat

definition the_manager :: "nat \<Rightarrow> ('w, 'z) txns_scheme \<Rightarrow> TransactionManager" where
  "the_manager mid s = (case managers s mid of Some m \<Rightarrow> m | None \<Rightarrow> \<lparr>t_state = 0, active = []\<rparr>)"

definition put_active :: "nat \<Rightarrow> OracleTransaction list \<Rightarrow> (('w, 'z) txns_scheme, unit) cpp" where
  "put_active mid txs = modify (\<lambda>s. s\<lparr>managers := (managers s)(mid \<mapsto> (the_manager mid s)\<lparr>active := txs\<rparr>)\<rparr>)"

definition new_manager :: "nat \<Rightarrow> (('w, 'z) txns_scheme, nat) cpp" where
  "new_manager sid =
     bind (gets next_manager) (\<lambda>mid.
     bind (modify (\<lambda>s. s\<lparr>next_manager := Suc mid, managers := (managers s)(mid \<mapsto> \<lparr>t_state = sid, active = []\<rparr>)\<rparr>)) (\<lambda>_.
     return mid))"

definition StartTransaction :: "nat \<Rightarrow> (('w, 'z) txns_scheme, nat) cpp" where
  "StartTransaction mid =
     bind (gets (the_manager mid)) (\<lambda>m.
     bind (get_state (t_state m)) (\<lambda>st.
     bind (put_active mid (active m @ [\<lparr>t_connection_string = connection_string st, t_connection = None\<rparr>])) (\<lambda>_.
     return (length (active m)))))"

definition GetConnection :: "'w rt \<Rightarrow> nat \<Rightarrow> nat \<Rightarrow> (('w, 'z) txns_scheme, connection) cpp" where
  "GetConnection rt mid i =
     bind (gets (\<lambda>s. active (the_manager mid s) ! i)) (\<lambda>tx.
     if \<not> IsConnected (t_connection tx) then
       bind (Connect rt (t_connection_string tx) (t_connection tx)) (\<lambda>c.
       bind (gets (the_manager mid)) (\<lambda>m.
       bind (put_active mid ((active m)[i := tx\<lparr>t_connection := c\<rparr>])) (\<lambda>_.
       return c)))
     else return (t_connection tx))"

text \<open>\<open>catch (Exception &e)\<close> takes the exceptions of DuckDB, not those of the standard library.\<close>

fun duckdb_exception :: "exn \<Rightarrow> bool" where
  "duckdb_exception StdInvalidArgument = False"
| "duckdb_exception StdOutOfRange = False"
| "duckdb_exception _ = True"

definition CommitTransaction :: "'w rt \<Rightarrow> nat \<Rightarrow> nat \<Rightarrow> (('w, 'z) txns_scheme, exn option) cpp" where
  "CommitTransaction rt mid i =
     try_catch (bind (GetConnection rt mid i) (\<lambda>c. bind (Commit rt c) (\<lambda>_. return None)))
       (\<lambda>e. if duckdb_exception e then return (Some e) else throw e)"

definition RollbackTransaction :: "'w rt \<Rightarrow> nat \<Rightarrow> nat \<Rightarrow> (('w, 'z) txns_scheme, unit) cpp" where
  "RollbackTransaction rt mid i =
     try_catch (bind (GetConnection rt mid i) (Rollback rt)) (\<lambda>_. return ())"

text \<open>The life of a transaction in auto-commit mode, and \<open>n\<close> of them after one another.\<close>

definition transact :: "'w rt \<Rightarrow> nat \<Rightarrow> (('w, 'z) txns_scheme, exn option) cpp" where
  "transact rt mid = bind (StartTransaction mid) (CommitTransaction rt mid)"

definition transactions :: "'w rt \<Rightarrow> nat \<Rightarrow> nat \<Rightarrow> (('w, 'z) txns_scheme, exn option list) cpp" where
  "transactions rt mid n = map_each (\<lambda>_. transact rt mid) [0..<n]"

section \<open>What an acquisition does to its pool\<close>

lemma acquire_loop_frame:
  assumes p: "pool_heap s pid = Some p" and run: "acquire_loop rt env cs pid n s = (r, t)"
  shows "(\<exists>q. pool_heap t pid = Some q \<and> limit q = limit p) \<and> mgr_env t = mgr_env s"
proof -
  obtain sl q where take: "take_slot p = (sl, q)" by fastforce
  have lim: "limit q = limit p" using take by (auto simp: take_slot_def split: if_splits)
  have the: "the_pool_of pid s = p" using p by (simp add: the_pool_of_def)
  show ?thesis
  proof (cases sl)
    case (Reuse cid)
    then show ?thesis using run take lim by (auto simp: acquire_reuse the make_handle_run)
  next
    case Full
    then show ?thesis using run acquire_full [of pid s q] take p by (auto simp: the)
  next
    case Reserve
    obtain r1 t1 where cr: "CreateConnection rt env cs (s\<lparr>pool_heap := (pool_heap s)(pid \<mapsto> q)\<rparr>) = (r1, t1)"
      by fastforce
    note keep = CreateConnection_keeps [OF cr]
    have heap: "pool_heap t1 pid = Some q" by (simp add: keep)
    have "take_slot (the_pool_of pid s) = (Reserve, q)" using take Reserve by (simp add: the)
    note loop = acquire_reserve [OF this, of rt env cs n]
    have rb: "limit (rollback_slot q) = limit p" using lim by (simp add: rollback_slot_def)
    show ?thesis
      using run heap lim rb keep(6) unfolding loop
      by (cases r1) (auto simp: bind_def try_catch_def cr make_handle_run with_pool_run)
  qed
qed

text \<open>\<open>pool_of cs env pid L b\<close>: pool \<open>pid\<close> serves \<open>cs\<close> with limit \<open>L\<close>, and \<open>b\<close> of its sessions are in use.\<close>

definition pool_of :: "string \<Rightarrow> handle option \<Rightarrow> nat \<Rightarrow> nat \<Rightarrow> nat \<Rightarrow> ('w, 'z) mgr_scheme \<Rightarrow> bool" where
  "pool_of cs env pid L b s \<longleftrightarrow> mgr_inv s \<and> mgr_env s = Some env \<and> map_of (pools s) cs = Some pid \<and>
     (\<exists>p. pool_heap s pid = Some p \<and> unat (limit p) = L) \<and> busy_with pid s = b"

lemma pool_of_limit: "pool_of cs env pid L b s \<Longrightarrow> b \<le> L \<and> 8 \<le> L"
  using mgr_ok_pool(1) by (fastforce simp: pool_of_def mgr_inv_def pool_ok_def)

lemma Acquire_fills:
  assumes pool: "pool_of cs env pid L b s" and rt: "healthy rt" and cs: "ParseOracleConnectionString cs = Inr x"
  shows "if b < L then \<exists>hid t. Acquire rt cs default_settings s = (Ret hid, t) \<and> pool_of cs env pid L (Suc b) t
    else Acquire rt cs default_settings s = (Throw pool_timeout, s)"
proof -
  obtain p where s: "mgr_inv s" "mgr_env s = Some env" "map_of (pools s) cs = Some pid" "pool_heap s pid = Some p"
      "unat (limit p) = L" "busy_with pid s = b"
    using pool by (auto simp: pool_of_def)
  have ok: "pool_ok (map snd (pools s)) pid p s" using s(1,4) mgr_ok_pool(1) by (simp add: mgr_inv_def)
  have caching: "connection_cache default_settings" "connection_limit default_settings = 8"
    by (simp_all add: default_settings_def)
  have le: "\<not> limit p < 8" using ok by (simp add: pool_ok_def word_less_nat_alt)
  have "raise_limit (connection_limit default_settings) p = p" using le by (simp add: raise_limit_def caching)
  moreover have "s\<lparr>pool_heap := (pool_heap s)(pid \<mapsto> p)\<rparr> = s" using s(4) by (simp add: fun_upd_idem)
  ultimately have hit: "Acquire rt cs default_settings s = acquire_loop rt env cs pid (wakeups rt) s"
    using Acquire_hit [OF s(2) caching(1) s(3,4)] by simp
  show ?thesis
  proof (cases "b < L")
    case True
    have "\<exists>hid t. Acquire rt cs default_settings s = (Ret hid, t)"
      by (rule Acquire_room [OF s(1) rt cs]) (use True s(3-6) in auto)
    then obtain hid t where run: "Acquire rt cs default_settings s = (Ret hid, t)" by blast
    have "acquire_loop rt env cs pid (wakeups rt) s = (Ret hid, t)" using run hit by simp
    note frame = acquire_loop_frame [OF s(4) this]
      and got = acquire_loop_ok [OF s(1) [unfolded mgr_inv_def] s(4) this]
    have "pool_of cs env pid L (Suc b) t"
      using frame got s by (auto simp: pool_of_def acquired_def mgr_inv_def busy_with_def)
    then show ?thesis using run True by auto
  next
    case False
    have "length (idle p) = 0 \<and> unat (total p) = L" using ok False s(5,6) unfolding pool_ok_def by linarith
    then have "idle p = []" "\<not> total p < limit p" using s(5) by (simp_all add: word_less_nat_alt)
    then have "take_slot (the_pool_of pid s) = (Full, p)" using s(4) by (simp add: take_slot_def the_pool_of_def)
    then show ?thesis using False hit acquire_full by simp
  qed
qed

section \<open>A transaction keeps its session\<close>

lemma txns_upd [simp]:
  fixes s :: "('w, 'z) txns_scheme"
  shows "pool_of cs env pid L b (s\<lparr>managers := m\<rparr>) \<longleftrightarrow> pool_of cs env pid L b s"
    "the_state x (s\<lparr>managers := m\<rparr>) = the_state x s" "states (s\<lparr>managers := m\<rparr>) = states s"
    "handles (s\<lparr>managers := m\<rparr>) = handles s" "ctxs (s\<lparr>managers := m\<rparr>) = ctxs s"
  by (simp_all add: pool_of_def mgr_inv_def mgr_ok_def pools_ok_def pool_ok_def places_ok_def sessions_alive_def
      alive_def in_handles_def idle_in_def busy_with_def the_state_def)

lemma the_manager_upd [simp]:
  "the_manager x (s\<lparr>managers := (managers s)(mid \<mapsto> m)\<rparr>) = (if x = mid then m else the_manager x s)"
  by (simp add: the_manager_def)

lemma same_more_txns:
  fixes s t :: "('w, 'z) txns_scheme"
  assumes "same_more s t"
  shows "managers t = managers s" "next_manager t = next_manager s"
  using assms by (cases s, cases t, simp add: same_more_def)+

lemma StartTransaction_run:
  "StartTransaction mid s = (Ret (length (active (the_manager mid s))),
     s\<lparr>managers := (managers s)(mid \<mapsto> (the_manager mid s)\<lparr>active := active (the_manager mid s) @
       [\<lparr>t_connection_string = connection_string (the_state (t_state (the_manager mid s)) s), t_connection = None\<rparr>]\<rparr>)\<rparr>)"
  by (simp add: StartTransaction_def put_active_def)

lemma Commit_healthy:
  assumes "healthy rt"
  shows "\<exists>t. Commit rt (Some hid) s = (Ret (), t) \<and> only_oci s t"
proof -
  have "returns (Commit rt (Some hid))"
    unfolding Commit_def option.case handle_ctx_def check_call_def
    by (intro returns_bind returns_basic checked_returns [OF assms]) simp
  then obtain a t where run: "Commit rt (Some hid) s = (Ret a, t)" using returnsD [of "Commit rt (Some hid)" s] by blast
  have "moves only_oci (Commit rt (Some hid))"
    unfolding Commit_def option.case handle_ctx_def check_call_def
    by (intro only_oci_intros checked_moves(2))
  then show ?thesis using run movesD [of only_oci "Commit rt (Some hid)" s "Ret a" t] by auto
qed

lemma pool_of_only_oci: "only_oci s t \<Longrightarrow> pool_of cs env pid L b s \<Longrightarrow> pool_of cs env pid L b t"
  by (simp add: pool_of_def only_oci_mgr busy_with_def)

lemma only_oci_txns:
  fixes s t :: "('w, 'z) txns_scheme"
  assumes "only_oci s t"
  shows "managers t = managers s" "states t = states s"
proof -
  obtain w tr where t: "t = s\<lparr>server := w, trace := tr\<rparr>" using assms unfolding only_oci_def by blast
  show "managers t = managers s" "states t = states s" by (simp_all add: t)
qed

text \<open>The state of transaction manager \<open>mid\<close>, whose database connects with \<open>cs\<close>.\<close>

definition serves :: "nat \<Rightarrow> string \<Rightarrow> ('w, 'z) txns_scheme \<Rightarrow> bool" where
  "serves mid cs s \<longleftrightarrow> connection_string (the_state (t_state (the_manager mid s)) s) = cs"

lemma transact_fills:
  assumes pool: "pool_of cs env pid L b s" and rt: "healthy rt" and cs: "ParseOracleConnectionString cs = Inr x"
    and serves: "serves mid cs s"
  shows "\<exists>t. transact rt mid s = (Ret (if b < L then None else Some pool_timeout), t) \<and>
    pool_of cs env pid L (if b < L then Suc b else b) t \<and> serves mid cs t"
proof -
  let ?m = "the_manager mid s"
  let ?n = "length (active ?m)"
  let ?tx = "\<lparr>t_connection_string = cs, t_connection = None\<rparr>"
  let ?s = "s\<lparr>managers := (managers s)(mid \<mapsto> ?m\<lparr>active := active ?m @ [?tx]\<rparr>)\<rparr>"
  have start: "StartTransaction mid s = (Ret ?n, ?s)"
    using serves by (simp add: StartTransaction_run serves_def)
  have pool1: "pool_of cs env pid L b ?s" using pool by simp
  have serves1: "serves mid cs ?s" using serves by (simp add: serves_def)
  show ?thesis
  proof (cases "b < L")
    case False
    then have "Acquire rt cs default_settings ?s = (Throw pool_timeout, ?s)"
      using Acquire_fills [OF pool1 rt cs] by simp
    then have "transact rt mid s = (Ret (Some pool_timeout), ?s)"
      by (simp add: transact_def start bind_def CommitTransaction_def GetConnection_def IsConnected_def Connect_def
          try_catch_def pool_timeout_def)
    then show ?thesis using False pool1 serves1 by auto
  next
    case True
    then obtain hid t where acq: "Acquire rt cs default_settings ?s = (Ret hid, t)" "pool_of cs env pid L (Suc b) t"
      using Acquire_fills [OF pool1 rt cs] by auto
    have con: "Connect rt cs None ?s = (Ret (Some hid), t)" using acq(1) by (simp add: Connect_def bind_def)
    note same = movesD [OF Connect_same_more con]
    have man: "the_manager mid t = ?m\<lparr>active := active ?m @ [?tx]\<rparr>"
      using same_more_txns(1) [OF same] by (simp add: the_manager_def)
    let ?t = "t\<lparr>managers := (managers t)(mid \<mapsto> ?m\<lparr>active := active ?m @ [?tx\<lparr>t_connection := Some hid\<rparr>]\<rparr>)\<rparr>"
    have get: "GetConnection rt mid ?n ?s = (Ret (Some hid), ?t)"
      by (simp add: GetConnection_def IsConnected_def bind_def con man put_active_def)
    obtain u where u: "Commit rt (Some hid) ?t = (Ret (), u)" "only_oci ?t u" using Commit_healthy [OF rt] by blast
    have "transact rt mid s = (Ret None, u)"
      using start get u(1) by (simp add: transact_def CommitTransaction_def bind_def try_catch_def)
    moreover have "pool_of cs env pid L (Suc b) u"
      using acq(2) by (intro pool_of_only_oci [OF u(2)]) simp
    moreover have "serves mid cs u"
      using only_oci_txns [OF u(2)] same_more_cat(1) [OF same] serves
      by (simp add: serves_def the_manager_def the_state_def)
    ultimately show ?thesis using True by auto
  qed
qed

lemma transactions_run:
  assumes "pool_of cs env pid L b s" and rt: "healthy rt" and cs: "ParseOracleConnectionString cs = Inr x"
    and "serves mid cs s"
  shows "\<exists>t. map_each (\<lambda>_. transact rt mid) xs s =
      (Ret (replicate (min (length xs) (L - b)) None @ replicate (length xs - (L - b)) (Some pool_timeout)), t)"
  using assms(1,4)
proof (induction xs arbitrary: s b)
  case (Cons x xs)
  obtain u where u: "transact rt mid s = (Ret (if b < L then None else Some pool_timeout), u)"
      "pool_of cs env pid L (if b < L then Suc b else b) u" "serves mid cs u"
    using transact_fills [OF Cons.prems(1) rt cs Cons.prems(2)] by blast
  from Cons.IH [OF u(2,3)] obtain t where
    t: "map_each (\<lambda>_. transact rt mid) xs u = (Ret (replicate (min (length xs) (L - (if b < L then Suc b else b))) None @
      replicate (length xs - (L - (if b < L then Suc b else b))) (Some pool_timeout)), t)" by blast
  show ?case
  proof (cases "b < L")
    case True
    then have "L - b = Suc (L - Suc b)" by simp
    then show ?thesis using u(1) t True by (simp add: bind_def)
  next
    case False
    then show ?thesis using u(1) t by (simp add: bind_def)
  qed
qed simp

section \<open>Properties\<close>

text \<open>C6: Committed transactions use the pool up: each keeps its session for ever, so when \<open>b\<close> of the
  \<open>L\<close> sessions of the database's pool are in use, the next \<open>L - b\<close> transactions commit, and every later one
  fails with the pool's timeout, although the client library and the server are in order.\<close>

theorem transactions_exhaust_the_pool:
  assumes "mgr_inv s" and "mgr_env s = Some env" and "map_of (pools s) cs = Some pid" and "pool_heap s pid = Some p"
    and "healthy rt" and "ParseOracleConnectionString cs = Inr x"
    and "connection_string (the_state (t_state (the_manager mid s)) s) = cs"
  shows "fst (transactions rt mid n s) =
    Ret (replicate (min n (unat (limit p) - busy_with pid s)) None @
      replicate (n - (unat (limit p) - busy_with pid s)) (Some pool_timeout))"
proof -
  have "pool_of cs env pid (unat (limit p)) (busy_with pid s) s" using assms(1-4) by (auto simp: pool_of_def)
  moreover have "serves mid cs s" using assms(7) by (simp add: serves_def)
  ultimately show ?thesis
    using transactions_run [OF _ assms(5,6), of env pid _ _ s mid "[0..<n]"] by (force simp: transactions_def)
qed

definition one_database :: "nat txns" where
  "one_database = \<lparr> server = 0, trace = [], environ = Map.empty, mgr_env = Some (Some 0),
     ctxs = [0 \<mapsto> new_context\<lparr>connected := True\<rparr>], next_ctx = 1, pools = [(''scott/tiger@db'', 0)],
     pool_heap = [0 \<mapsto> \<lparr>idle = [], total = 1, limit = 8, refs = 2\<rparr>], next_pool = 1,
     handles = [(0, \<lparr>h_pool = Some 0, h_ctx = 0\<rparr>)], next_handle = 1,
     states = [0 \<mapsto> (new_state ''scott/tiger@db'')\<lparr>connection := Some 0\<rparr>], next_state = 1, registry = [0], aliases = [],
     managers = [0 \<mapsto> \<lparr>t_state = 0, active = []\<rparr>], next_manager = 1 \<rparr>"

lemma one_database_inv: "mgr_inv one_database"
  by (auto simp: mgr_inv_def mgr_ok_def pools_ok_def pool_ok_def places_ok_def sessions_alive_def alive_def
      in_handles_def idle_in_def busy_with_def one_database_def split: if_splits option.splits)

theorem transactions_exhaust_the_pool_witness:
  "fst (transactions (sample_rt (\<lambda>_. False)) 0 9 one_database) =
     Ret (replicate 7 None @ [Some pool_timeout, Some pool_timeout])"
proof -
  have "fst (transactions (sample_rt (\<lambda>_. False)) 0 9 one_database) =
      Ret (replicate (min 9 (unat (limit \<lparr>idle = [], total = 1, limit = 8, refs = 2\<rparr>) - busy_with 0 one_database)) None @
        replicate (9 - (unat (limit \<lparr>idle = [], total = 1, limit = 8, refs = 2\<rparr>) - busy_with 0 one_database)) (Some pool_timeout))"
    by (rule transactions_exhaust_the_pool [OF one_database_inv _ _ _ sample_rt_healthy sample_parses, where env = "Some 0"])
      (simp_all add: one_database_def the_manager_def the_state_def)
  moreover have "unat (limit \<lparr>idle = [], total = 1, limit = 8, refs = 2\<rparr>) - busy_with 0 one_database = 7"
    by (simp add: busy_with_def one_database_def)
  moreover have "replicate (9 - 7) (Some pool_timeout) = [Some pool_timeout, Some pool_timeout]"
    by (simp add: numeral_2_eq_2)
  ultimately show ?thesis by (simp only:) simp
qed

end
