(* ===== verification/SchemaEntry.thy ===== *)
theory SchemaEntry
  imports Transaction
begin

text \<open>
  Schemas and tables on demand (\<open>oracle_schema_entry.cpp\<close>): the default generators, which DuckDB asks
  for the names of a catalog set and for the entry of a name it does not know yet, and the start of the catalog of
  an attached database. DuckDB's base classes keep the entries; the generators have no state of their own.

  \<open>dictionary\<close> is Oracle's data dictionary as three tables, and \<open>lookup_name\<close> what a lookup of a table should find
  in it; \<open>answers_from\<close> states which SQL texts ask for which rows of it. \<open>version_text\<close> is the text from which the
  version of the server is read.
\<close>

section \<open>The generators\<close>

record OracleSchemaEntry =
  entry_schema :: string
  oracle_schema :: string
  schema_state :: nat

definition make_schema_entry :: "string \<Rightarrow> nat \<Rightarrow> string \<Rightarrow> OracleSchemaEntry" where
  "make_schema_entry name sid oracle = \<lparr> entry_schema = name,
     oracle_schema = (if oracle = [] then name else oracle), schema_state = sid \<rparr>"

definition TableDefaultEntries ::
  "'v duckdb \<Rightarrow> 'w rt \<Rightarrow> OracleSchemaEntry \<Rightarrow> (('w, 'z) cat_scheme, string list) cpp" where
  "TableDefaultEntries D rt sc =
     bind (get_state (schema_state sc)) (\<lambda>st.
     ListObjects D rt (schema_state sc) (oracle_schema sc) (metadata_object_types (settings st)))"

definition table_types :: string where
  "table_types = [CHR 0x27] @ ''TABLE','VIEW','MATERIALIZED VIEW'' @ [CHR 0x27]"

definition CreateDefaultTable ::
  "'v duckdb \<Rightarrow> 'w rt \<Rightarrow> OracleSchemaEntry \<Rightarrow> string \<Rightarrow> (('w, 'z) cat_scheme, OracleTableEntry option) cpp" where
  "CreateDefaultTable D rt sc name = (let sid = schema_state sc; schema = oracle_schema sc in
     bind (GetObjectName D rt sid schema name table_types) (\<lambda>real_name.
     if real_name \<noteq> [] then
       bind (CreateTableEntry D rt sid schema real_name name) (\<lambda>e. return (Some e))
     else
       bind (ResolveSynonym D rt sid schema name) (\<lambda>resolved. case resolved of
         Some (own, tab) \<Rightarrow> bind (CreateTableEntry D rt sid own tab name) (\<lambda>e. return (Some e))
       | None \<Rightarrow> return None)))"

definition SchemaDefaultEntries :: "'w rt \<Rightarrow> nat \<Rightarrow> (('w, 'z) cat_scheme, string list) cpp" where
  "SchemaDefaultEntries rt sid = ListSchemas rt sid"

definition GetCurrentSchema :: "nat \<Rightarrow> (('w, 'z) cat_scheme, string) cpp" where
  "GetCurrentSchema sid = bind (get_state sid) (\<lambda>st. return (current_schema st))"

definition current_or_detect :: "'w rt \<Rightarrow> nat \<Rightarrow> (('w, 'z) cat_scheme, string) cpp" where
  "current_or_detect rt sid =
     bind (GetCurrentSchema sid) (\<lambda>current.
     if current = [] then bind (DetectCurrentSchema rt sid) (\<lambda>_. GetCurrentSchema sid)
     else return current)"

definition real_schema :: "'v duckdb \<Rightarrow> 'w rt \<Rightarrow> nat \<Rightarrow> string \<Rightarrow> (('w, 'z) cat_scheme, OracleSchemaEntry) cpp" where
  "real_schema D rt sid name =
     bind (GetRealSchemaName D rt sid name) (\<lambda>real_name.
     return (make_schema_entry (if real_name \<noteq> [] then real_name else name) sid []))"

definition CreateDefaultSchema ::
  "'v duckdb \<Rightarrow> 'w rt \<Rightarrow> nat \<Rightarrow> string \<Rightarrow> (('w, 'z) cat_scheme, OracleSchemaEntry) cpp" where
  "CreateDefaultSchema D rt sid name =
     bind (get_state sid) (\<lambda>st.
     if (name = DefaultSchema D \<or> name = ''main'') \<and> use_current_schema (settings st) then
       bind (current_or_detect rt sid) (\<lambda>current.
       if current \<noteq> [] then return (make_schema_entry name sid current)
       else real_schema D rt sid name)
     else real_schema D rt sid name)"

text \<open>\<open>OracleCatalog::Initialize\<close>: connect at once, then look at the schema and the version.\<close>

definition Initialize :: "'v duckdb \<Rightarrow> 'w rt \<Rightarrow> nat \<Rightarrow> (('w, 'z) cat_scheme, unit) cpp" where
  "Initialize D rt sid =
     bind (StateConnect rt sid) (\<lambda>_.
     bind (DetectCurrentSchema rt sid) (\<lambda>_.
     DetectOracleVersion D rt sid))"

section \<open>Lookups against the answers of the server\<close>

definition answer_rows :: "'w cursor_view \<Rightarrow> string \<Rightarrow> string list list" where
  "answer_rows v q = map (mem_text (length (names v q))) (answer v q)"

definition answer_cell :: "'w cursor_view \<Rightarrow> string \<Rightarrow> nat \<Rightarrow> string" where
  "answer_cell v q j = cell \<lparr>columns = names v q, rows = answer_rows v q\<rparr> 0 j"

definition table_of :: "'v duckdb \<Rightarrow> 'w cursor_view \<Rightarrow> OracleSettings \<Rightarrow> nat \<Rightarrow> string \<Rightarrow> string \<Rightarrow> string \<Rightarrow> OracleTableEntry" where
  "table_of D v st sid schema table name =
     (let (cols, metas) = load_rows D st (answer_rows v (columns_query D schema table)) in
      \<lparr> entry_name = (if name = [] then table else name), schema_name = schema, table_name = table,
        entry_columns = cols, column_metadata = metas, entry_state = sid \<rparr>)"

definition lookup_answer :: "'v duckdb \<Rightarrow> 'w cursor_view \<Rightarrow> OracleSettings \<Rightarrow> OracleSchemaEntry \<Rightarrow> string \<Rightarrow> OracleTableEntry option" where
  "lookup_answer D v st sc name =
     (let sch = oracle_schema sc; named = answer_cell v (name_query D sch name table_types) 0;
          syn = synonym_query D sch name
      in if named \<noteq> [] then Some (table_of D v st (schema_state sc) sch named name)
         else if answer v syn \<noteq> [] then
           Some (table_of D v st (schema_state sc) (answer_cell v syn 0) (answer_cell v syn 1) name)
         else None)"

definition answering :: "'w rt \<Rightarrow> 'w cursor_view \<Rightarrow> bool" where
  "answering rt v \<longleftrightarrow> cursors_documented rt v \<and> (\<forall>q. length (answer v q) < fuel rt)"

text \<open>On a connected state a query is answered and no state changes.\<close>

definition quiet :: "(('w, 'z) cat_scheme, 'a) cpp \<Rightarrow> 'a \<Rightarrow> ('w, 'z) cat_scheme \<Rightarrow> bool" where
  "quiet m a s \<longleftrightarrow> (\<exists>t. m s = (Ret a, t) \<and> states t = states s)"

lemma states_eq: "states t = states s \<Longrightarrow> the_state sid t = the_state sid s \<and> connected_state sid t = connected_state sid s"
  by (simp add: the_state_def connected_state_def)

lemma quiet_bind:
  assumes "quiet m a s" and "\<And>t. states t = states s \<Longrightarrow> quiet (f a) b t"
  shows "quiet (bind m f) b s"
  using assms by (force simp: quiet_def bind_def)

lemma quiet_return: "quiet (return a) a s"
  by (simp add: quiet_def)

lemma quiet_query:
  assumes "connected_state sid s" and "answering rt v"
  shows "quiet (state_query rt sid q) \<lparr>columns = names v q, rows = answer_rows v q\<rparr> s"
  using state_query_answer [OF assms(1)] assms(2) unfolding quiet_def answering_def answer_rows_def by blast

lemma quiet_ensure: "connected_state sid s \<Longrightarrow> quiet (EnsureConnectionInternal rt sid) () s"
  by (simp add: quiet_def EnsureConnectionInternal_connected)

lemma quiet_ensured_query:
  assumes "connected_state sid s" and "answering rt v"
    and "b = g \<lparr>columns = names v q, rows = answer_rows v q\<rparr>"
  shows "quiet (bind (EnsureConnectionInternal rt sid) (\<lambda>_. bind (state_query rt sid q) (\<lambda>res. return (g res)))) b s"
proof -
  have con: "connected_state sid t" if "states t = states s" for t :: "('a, 'b) cat_scheme"
    using assms(1) states_eq [OF that] by simp
  show ?thesis
    unfolding assms(3)
    apply (rule quiet_bind [OF quiet_ensure [OF assms(1)]])
    apply (rule quiet_bind [OF quiet_query [OF con assms(2)]], assumption)
    apply (rule quiet_return)
    done
qed

lemma quiet_table:
  assumes "connected_state sid s" and "answering rt v"
  shows "quiet (CreateTableEntry D rt sid schema table name)
    (table_of D v (settings (the_state sid s)) sid schema table name) s"
proof -
  have con: "connected_state sid t" if "states t = states s" for t :: "('a, 'b) cat_scheme"
    using assms(1) states_eq [OF that] by simp
  have q: "quiet (StateQuery rt sid qq) \<lparr>columns = names v qq, rows = answer_rows v qq\<rparr> s" for qq
    unfolding StateQuery_def
    by (rule quiet_bind [OF quiet_ensure [OF assms(1)]]) (rule quiet_query [OF con assms(2)])
  have cols: "quiet (LoadColumns D rt sid schema table)
      (load_rows D (settings (the_state sid s)) (answer_rows v (columns_query D schema table))) s"
    unfolding LoadColumns_def
    apply (rule quiet_bind [OF q])
    subgoal for t using states_eq [of t s sid] by (simp add: quiet_def)
    done
  show ?thesis
    unfolding CreateTableEntry_def table_of_def
    by (rule quiet_bind [OF cols]) (auto simp: quiet_return split: prod.split)
qed

lemma quiet_lookup:
  assumes con: "connected_state (schema_state sc) s" and ans: "answering rt v"
  shows "quiet (CreateDefaultTable D rt sc name) (lookup_answer D v (settings (the_state (schema_state sc) s)) sc name) s"
proof -
  let ?sid = "schema_state sc" and ?sch = "oracle_schema sc"
  let ?nq = "name_query D ?sch name table_types" and ?sq = "synonym_query D ?sch name"
  have cell: "(if answer_rows v q \<noteq> [] then cell \<lparr>columns = names v q, rows = answer_rows v q\<rparr> 0 0 else []) = answer_cell v q 0" for q
    by (simp add: answer_cell_def cell_def)
  have 1: "quiet (GetObjectName D rt ?sid ?sch name table_types) (answer_cell v ?nq 0) s"
    unfolding GetObjectName_def by (rule quiet_ensured_query [OF con ans]) (simp add: cell)
  have 2: "quiet (ResolveSynonym D rt ?sid ?sch name)
      (if answer v ?sq = [] then None else Some (answer_cell v ?sq 0, answer_cell v ?sq 1)) t"
    if "states t = states s" for t :: "('a, 'b) cat_scheme"
    unfolding ResolveSynonym_def
    by (rule quiet_ensured_query [OF _ ans]) (use con states_eq [OF that] in \<open>simp_all add: answer_cell_def answer_rows_def\<close>)
  have 3: "quiet (bind (CreateTableEntry D rt ?sid own tab name) (\<lambda>e. return (Some e)))
      (Some (table_of D v (settings (the_state ?sid s)) ?sid own tab name)) t"
    if "states t = states s" for own tab and t :: "('a, 'b) cat_scheme"
  proof -
    have t: "connected_state ?sid t" "the_state ?sid t = the_state ?sid s" using con states_eq [OF that] by simp_all
    show ?thesis
      unfolding t(2) [symmetric] by (rule quiet_bind [OF quiet_table [OF t(1) ans]]) (rule quiet_return)
  qed
  show ?thesis
    unfolding CreateDefaultTable_def Let_def
    apply (rule quiet_bind [OF 1])
    subgoal for t
      by (cases "answer_cell v ?nq 0 = []"; cases "answer v ?sq = []")
        (auto simp: lookup_answer_def Let_def quiet_return intro!: 3 quiet_bind [OF 2])
    done
qed

section \<open>Starting a catalog\<close>

lemma query_run:
  assumes "connected_state sid s" and "answering rt v"
  obtains t where "state_query rt sid q s = (Ret \<lparr>columns = names v q, rows = answer_rows v q\<rparr>, t)"
    "the_state sid t = the_state sid s" "connected_state sid t"
proof -
  obtain t where t: "state_query rt sid q s = (Ret \<lparr>columns = names v q, rows = answer_rows v q\<rparr>, t)" "states t = states s"
    using quiet_query [OF assms, of q] by (auto simp: quiet_def)
  show thesis using that [OF t(1)] states_eq [OF t(2), of sid] assms(1) by simp
qed

lemma DetectCurrentSchema_connected:
  assumes "connected_state sid s" and "answering rt v"
  shows "\<exists>t. DetectCurrentSchema rt sid s = (Ret (), t) \<and> connected_state sid t"
proof -
  obtain t where t: "state_query rt sid schema_query s =
      (Ret \<lparr>columns = names v schema_query, rows = answer_rows v schema_query\<rparr>, t)"
      "the_state sid t = the_state sid s" "connected_state sid t"
    by (rule query_run [OF assms])
  show ?thesis
    using assms(1) t
    by (simp add: DetectCurrentSchema_def EnsureConnectionInternal_connected bind_def try_catch_def note_schema_def
        run_if_def connected_state_def)
qed

lemma DetectOracleVersion_connected:
  assumes "connected_state sid s" and "answering rt v"
  shows "\<exists>t. DetectOracleVersion D rt sid s = (Ret (), t) \<and> connected_state sid t"
proof -
  let ?q = "''SELECT VERSION_FULL FROM V$INSTANCE''"
    and ?r = "''SELECT VERSION FROM PRODUCT_COMPONENT_VERSION WHERE ROWNUM = 1''"
  obtain t where t: "state_query rt sid ?q s = (Ret \<lparr>columns = names v ?q, rows = answer_rows v ?q\<rparr>, t)"
      "the_state sid t = the_state sid s" "connected_state sid t"
    by (rule query_run [OF assms])
  obtain u where u: "state_query rt sid ?r t = (Ret \<lparr>columns = names v ?r, rows = answer_rows v ?r\<rparr>, u)"
      "the_state sid u = the_state sid t" "connected_state sid u"
    by (rule query_run [OF t(3) assms(2)])
  have "\<exists>w. version_body D rt sid s = (Ret (), w) \<and> connected_state sid w"
    using assms(1) t u by (simp add: version_body_def bind_def connected_state_def)
  then show ?thesis
    using assms(1)
    by (auto simp: DetectOracleVersion_def EnsureConnectionInternal_connected bind_def try_catch_def connected_state_def)
qed

lemma Initialize_connected:
  assumes "connected_state sid s" and "answering rt v"
  shows "\<exists>t. Initialize D rt sid s = (Ret (), t) \<and> connected_state sid t"
proof -
  obtain t where t: "DetectCurrentSchema rt sid s = (Ret (), t)" "connected_state sid t"
    using DetectCurrentSchema_connected [OF assms] by blast
  then show ?thesis
    using DetectOracleVersion_connected [OF t(2) assms(2), of D] assms(1)
    by (auto simp: Initialize_def StateConnect_def EnsureConnectionInternal_connected bind_def)
qed

lemma EnsureConnectionInternal_connects:
  assumes "mgr_inv s" and "healthy rt" and "connection (the_state sid s) = None"
    and "connection_cache (settings (the_state sid s))"
    and "ParseOracleConnectionString (connection_string (the_state sid s)) = Inr x"
    and "map_of (pools s) (connection_string (the_state sid s)) = None"
  shows "\<exists>t. EnsureConnectionInternal rt sid s = (Ret (), t) \<and> connected_state sid t"
proof -
  let ?cs = "connection_string (the_state sid s)"
  have "\<exists>hid t. Acquire rt ?cs default_settings s = (Ret hid, t)"
    by (rule Acquire_room [OF assms(1,2,5)]) (simp add: assms(6))
  then obtain hid t where acq: "Acquire rt ?cs default_settings s = (Ret hid, t)" by blast
  have con: "Connect rt ?cs None s = (Ret (Some hid), t)" using acq by (simp add: Connect_def bind_def)
  have the: "the_state sid t = the_state sid s"
    using same_more_cat(1) [OF movesD [OF Connect_same_more con]] by (simp add: the_state_def)
  show ?thesis
    using assms(3,4) con the
    by (simp add: EnsureConnectionInternal_def run_if_def bind_def IsConnected_def connected_state_def)
qed

lemma Initialize_connects:
  assumes "mgr_inv s" and "healthy rt" and "connection (the_state sid s) = None"
    and "connection_cache (settings (the_state sid s))"
    and "ParseOracleConnectionString (connection_string (the_state sid s)) = Inr x"
    and "map_of (pools s) (connection_string (the_state sid s)) = None" and "answering rt v"
  shows "\<exists>t. Initialize D rt sid s = (Ret (), t) \<and> connected_state sid t"
proof -
  obtain t where t: "EnsureConnectionInternal rt sid s = (Ret (), t)" "connected_state sid t"
    using EnsureConnectionInternal_connects [OF assms(1-6)] by blast
  have "Initialize D rt sid s = Initialize D rt sid t"
    using t by (simp add: Initialize_def StateConnect_def EnsureConnectionInternal_connected bind_def)
  then show ?thesis using Initialize_connected [OF t(2) assms(7)] by simp
qed

lemma say_rt_answering: "answering (say_rt x) (cursor_v (\<lambda>_. [[text_cell x]]))"
  unfolding answering_def say_rt_def
  using cursor_rt_documented by (simp add: cursor_v_def cursor_rt_def)

lemma say_rt_healthy: "healthy (say_rt x)"
  unfolding healthy_def
proof (intro allI impI)
  fix c w
  assume "\<not> is_fetch c"
  then show "ok_status (status (fst (oci (say_rt x) c w)))"
    by (cases c) (simp_all add: say_rt_def cursor_rt_def cursor_oci_def)
qed

section \<open>The data dictionary\<close>

text \<open>The rows of \<open>all_objects\<close> (owner, name, type), \<open>all_synonyms\<close> (owner, synonym, owner and name of its
  target) and \<open>all_tab_columns\<close> (owner, table and the six values that are asked for, in the order of the columns).\<close>

record dictionary =
  all_objects :: "(string \<times> string \<times> string) list"
  all_synonyms :: "(string \<times> string \<times> string \<times> string) list"
  all_tab_columns :: "(string \<times> string \<times> string list) list"

abbreviation UP :: "string \<Rightarrow> string" where
  "UP s \<equiv> map to_upper s"

abbreviation literal :: "string \<Rightarrow> string" where
  "literal s \<equiv> quoted (CHR 0x27) s"

text \<open>The three questions, and Oracle's answers to them. Names in the dictionary are compared as they are; \<open>UPPER\<close>
  is applied where the text of the query applies it.\<close>

definition ask_object :: "string \<Rightarrow> string \<Rightarrow> string" where
  "ask_object schema nm = ''SELECT object_name FROM all_objects WHERE owner = UPPER('' @ literal schema @
     '') AND UPPER(object_name) = UPPER('' @ literal nm @ '') AND object_type IN ('TABLE','VIEW','MATERIALIZED VIEW')''"

definition objects_named :: "dictionary \<Rightarrow> string \<Rightarrow> string \<Rightarrow> (string \<times> string \<times> string) list" where
  "objects_named d schema nm = filter (\<lambda>(own, obj, ty). own = UP schema \<and> UP obj = UP nm \<and>
     ty \<in> {''TABLE'', ''VIEW'', ''MATERIALIZED VIEW''}) (all_objects d)"

definition ask_synonym :: "string \<Rightarrow> string \<Rightarrow> string" where
  "ask_synonym schema nm = ''SELECT table_owner, table_name FROM all_synonyms WHERE synonym_name = UPPER('' @ literal nm @
     '') AND (owner = UPPER('' @ literal schema @ '') OR owner = 'PUBLIC') ORDER BY CASE WHEN owner = UPPER('' @ literal schema @
     '') THEN 0 ELSE 1 END''"

definition synonyms_of :: "dictionary \<Rightarrow> string \<Rightarrow> string \<Rightarrow> (string \<times> string \<times> string \<times> string) list" where
  "synonyms_of d own nm = filter (\<lambda>(o1, syn, to, tn). o1 = own \<and> syn = UP nm) (all_synonyms d)"

definition ask_columns :: "string \<Rightarrow> string \<Rightarrow> string" where
  "ask_columns schema tab = ''SELECT column_name, data_type, data_length, data_precision, data_scale, nullable '' @
     ''FROM all_tab_columns WHERE owner = UPPER('' @ literal schema @ '') AND table_name = UPPER('' @ literal tab @
     '') ORDER BY column_id''"

definition columns_named :: "dictionary \<Rightarrow> string \<Rightarrow> string \<Rightarrow> string list list" where
  "columns_named d own tab = map (snd \<circ> snd) (filter (\<lambda>(o1, t1, c). o1 = own \<and> t1 = tab) (all_tab_columns d))"

text \<open>What the lookup of a name should find: an object of the schema, whatever the case of its name; else the target of a
  private synonym; else that of a public one.\<close>

definition lookup_name :: "dictionary \<Rightarrow> string \<Rightarrow> string \<Rightarrow> (string \<times> string) option" where
  "lookup_name d schema nm = (case objects_named d schema nm of
     (own, obj, ty) # _ \<Rightarrow> Some (schema, obj)
   | [] \<Rightarrow> (case synonyms_of d (UP schema) nm of
       (own, syn, to, tn) # _ \<Rightarrow> Some (to, tn)
     | [] \<Rightarrow> (case synonyms_of d ''PUBLIC'' nm of
         (own, syn, to, tn) # _ \<Rightarrow> Some (to, tn)
       | [] \<Rightarrow> None)))"

definition answers_from :: "'w cursor_view \<Rightarrow> dictionary \<Rightarrow> string \<Rightarrow> string \<Rightarrow> bool" where
  "answers_from v d schema nm \<longleftrightarrow>
     answer_rows v (ask_object schema nm) = map (\<lambda>(own, obj, ty). [obj]) (objects_named d schema nm) \<and>
     answer_rows v (ask_synonym schema nm) = map (\<lambda>(own, syn, to, tn). [to, tn])
       (synonyms_of d (UP schema) nm @ (if UP schema = ''PUBLIC'' then [] else synonyms_of d ''PUBLIC'' nm)) \<and>
     (\<forall>own tab. lookup_name d schema nm = Some (own, tab) \<longrightarrow>
       answer_rows v (ask_columns own tab) = columns_named d (UP own) (UP tab)) \<and>
     (\<forall>(own, obj, ty) \<in> set (all_objects d). obj \<noteq> []) \<and> (\<forall>(own, tab, c) \<in> set (all_tab_columns d). length c = 6)"

lemma answers_fromI:
  assumes "answer_rows v (ask_object schema nm) = map (\<lambda>(own, obj, ty). [obj]) (objects_named d schema nm)"
    and "answer_rows v (ask_synonym schema nm) = map (\<lambda>(own, syn, to, tn). [to, tn])
       (synonyms_of d (UP schema) nm @ (if UP schema = ''PUBLIC'' then [] else synonyms_of d ''PUBLIC'' nm))"
    and "lookup_name d schema nm = Some (own, tab)"
    and "answer_rows v (ask_columns own tab) = columns_named d (UP own) (UP tab)"
    and "\<forall>(own, obj, ty) \<in> set (all_objects d). obj \<noteq> []" and "\<forall>(own, tab, c) \<in> set (all_tab_columns d). length c = 6"
  shows "answers_from v d schema nm"
  using assms by (simp add: answers_from_def)

lemma queries_ask:
  assumes "format_documented D" and "sql_string_documented D"
  shows "name_query D schema nm table_types = ask_object schema nm"
    and "synonym_query D schema nm = ask_synonym schema nm"
    and "columns_query D schema tab = ask_columns schema tab"
  using assms
  by (simp_all add: name_query_def synonym_query_def columns_query_def sql_literal_def format_documented_def
      sql_string_documented_def ask_object_def ask_synonym_def ask_columns_def table_types_def)

lemma lookup_answer_dictionary:
  assumes docs: "format_documented D" "sql_string_documented D" and ans: "answers_from v d (oracle_schema sc) name"
  shows "lookup_answer D v st sc name = (case lookup_name d (oracle_schema sc) name of
     None \<Rightarrow> None | Some (own, tab) \<Rightarrow> Some (table_of D v st (schema_state sc) own tab name))"
proof -
  let ?sch = "oracle_schema sc"
  note asks = queries_ask [OF docs]
  have obj: "answer_rows v (ask_object ?sch name) = map (\<lambda>(own, obj, ty). [obj]) (objects_named d ?sch name)"
    and syn: "answer_rows v (ask_synonym ?sch name) = map (\<lambda>(own, syn, to, tn). [to, tn])
       (synonyms_of d (UP ?sch) name @ (if UP ?sch = ''PUBLIC'' then [] else synonyms_of d ''PUBLIC'' name))"
    and named: "\<forall>(own, obj, ty) \<in> set (all_objects d). obj \<noteq> []"
    using ans by (simp_all add: answers_from_def)
  have empty: "answer v q = [] \<longleftrightarrow> answer_rows v q = []" for q by (simp add: answer_rows_def)
  show ?thesis
  proof (cases "objects_named d ?sch name")
    case (Cons x xs)
    obtain own ob ty where x: "x = (own, ob, ty)" by (cases x)
    have "x \<in> set (objects_named d ?sch name)" by (simp add: Cons)
    then have "x \<in> set (all_objects d)" unfolding objects_named_def by simp
    then have "ob \<noteq> []" using named x by auto
    then show ?thesis
      by (simp add: lookup_answer_def Let_def asks answer_cell_def obj Cons x cell_def lookup_name_def)
  next
    case Nil
    then have no_object: "answer_rows v (name_query D ?sch name table_types) = []" by (simp add: asks obj)
    show ?thesis
      by (cases "synonyms_of d (UP ?sch) name"; cases "synonyms_of d ''PUBLIC'' name")
        (auto simp: lookup_answer_def Let_def no_object asks(2) empty syn answer_cell_def cell_def lookup_name_def Nil split: if_splits)
  qed
qed

section \<open>Reading the version\<close>

lemma split_at_plain: "c \<notin> set x \<Longrightarrow> split_at c x = [x]"
  by (induction x) (auto simp: split_at_def)

lemma split_at_Cons: "c \<notin> set x \<Longrightarrow> split_at c (x @ c # s) = x # split_at c s"
  by (induction x) (auto simp: split_at_def)

lemma split_at_join: "xs \<noteq> [] \<Longrightarrow> \<forall>x \<in> set xs. c \<notin> set x \<Longrightarrow> split_at c (join_with xs [c]) = xs"
proof (induction xs "[c]" rule: join_with.induct)
  case (3 x y ys)
  then show ?case using split_at_Cons [of c x "join_with (y # ys) [c]"] by simp
qed (simp_all add: split_at_plain)

lemma dot_not_in_number: "CHR ''.'' \<notin> set (to_string n)"
proof
  assume "CHR ''.'' \<in> set (to_string n)"
  then have "is_digit (CHR ''.'')" by (rule to_string_digits)
  then show False by (simp add: is_digit_def char_code_def)
qed

lemma stoi_to_string: "int n < 2 ^ 31 \<Longrightarrow> stoi (to_string n) = Inr (int n)"
  by (simp add: stoi_def parse_int_def)

text \<open>A version as Oracle writes it, with at least three numbers, and what it means.\<close>

definition version_number :: "nat \<Rightarrow> nat \<Rightarrow> nat \<Rightarrow> OracleVersionInfo" where
  "version_number ma mi pa = \<lparr> major = int ma, minor = int mi, patch = int pa, supports_json_type = (21 \<le> ma),
     supports_vector = (23 \<le> ma), supports_vector_serialize = (23 < ma \<or> ma = 23 \<and> 4 \<le> mi) \<rparr>"

lemma parse_version_number:
  assumes "split_documented D" and "ma < 2 ^ 31" and "mi < 2 ^ 31" and "pa < 2 ^ 31"
  shows "parse_version D (join_with (map to_string (ma # mi # pa # others)) ''.'') vi = version_number ma mi pa"
proof -
  let ?xs = "map to_string (ma # mi # pa # others)"
  have "split_at (CHR ''.'') (join_with ?xs ''.'') = ?xs"
    by (rule split_at_join) (auto simp: dot_not_in_number)
  moreover have "join_with ?xs ''.'' \<noteq> []" by simp
  ultimately show ?thesis
    using assms by (simp add: parse_version_def split_documented_def stoi_or_def stoi_to_string version_number_def Let_def del: join_with.simps)
qed

text \<open>The text that the detection reads: the full version of the instance, or the version of a product component where that
  view gives no row.\<close>

definition version_text :: "'w cursor_view \<Rightarrow> string" where
  "version_text v =
     (if answer_rows v ''SELECT VERSION_FULL FROM V$INSTANCE'' \<noteq> []
      then hd (hd (answer_rows v ''SELECT VERSION_FULL FROM V$INSTANCE''))
      else hd (hd (answer_rows v ''SELECT VERSION FROM PRODUCT_COMPONENT_VERSION WHERE ROWNUM = 1'')))"

lemma version_body_reads:
  assumes con: "connected_state sid s" and ans: "answering rt v" and width: "\<forall>q. names v q \<noteq> []"
    and some: "answer v ''SELECT VERSION_FULL FROM V$INSTANCE'' = [] \<longrightarrow>
      answer v ''SELECT VERSION FROM PRODUCT_COMPONENT_VERSION WHERE ROWNUM = 1'' \<noteq> []"
  shows "\<exists>t. version_body D rt sid s = (Ret (), t) \<and>
    the_state sid t = (the_state sid s)\<lparr>version_info := parse_version D (version_text v) (version_info (the_state sid s))\<rparr>"
proof -
  let ?q = "''SELECT VERSION_FULL FROM V$INSTANCE''"
    and ?r = "''SELECT VERSION FROM PRODUCT_COMPONENT_VERSION WHERE ROWNUM = 1''"
  obtain t where t: "state_query rt sid ?q s = (Ret \<lparr>columns = names v ?q, rows = answer_rows v ?q\<rparr>, t)"
      "the_state sid t = the_state sid s" "connected_state sid t"
    by (rule query_run [OF con ans])
  obtain u where u: "state_query rt sid ?r t = (Ret \<lparr>columns = names v ?r, rows = answer_rows v ?r\<rparr>, u)"
      "the_state sid u = the_state sid t" "connected_state sid u"
    by (rule query_run [OF t(3) ans])
  have first: "hd (hd (answer_rows v q)) = cell \<lparr>columns = names v q, rows = answer_rows v q\<rparr> 0 0 \<and>
      has_cell \<lparr>columns = names v q, rows = answer_rows v q\<rparr>" if some_row: "answer_rows v q \<noteq> []" for q
  proof -
    obtain row rws where rows: "answer_rows v q = row # rws" using some_row by (cases "answer_rows v q") auto
    then have "row \<in> set (answer_rows v q)" by simp
    then have "row \<noteq> []" using width by (auto simp: answer_rows_def mem_text_def)
    then show ?thesis by (cases row) (simp_all add: rows cell_def has_cell_def)
  qed
  have none: "\<not> has_cell \<lparr>columns = names v q, rows = []\<rparr>" for q by (simp add: has_cell_def)
  show ?thesis
  proof (cases "answer_rows v ?q = []")
    case False
    then show ?thesis using t first [OF False]
      by (simp add: version_body_def bind_def version_text_def)
  next
    case True
    then have "answer_rows v ?r \<noteq> []" using some by (simp add: answer_rows_def)
    from first [OF this] show ?thesis using t u True none [of ?q]
      by (simp add: version_body_def bind_def version_text_def)
  qed
qed

section \<open>Properties\<close>

text \<open>C15: The lookup of a table on demand gives what Oracle's dictionary says: on a connected database whose server
  answers from a dictionary, the object of that name (in any case) in the schema; else the target of a private synonym
  of the name; else that of a public one; else nothing. The entry has the columns that the dictionary lists under the name
  of the object in upper case, in order, with their names, types and data types, which are those of the object only when its name is
  in upper case: a mixed-case table has no columns, or those of another table. No catalog state changes.\<close>

theorem table_lookup:
  assumes "format_documented D" and "sql_string_documented D"
    and "connection (the_state (schema_state sc) s) \<noteq> None" and "st = settings (the_state (schema_state sc) s)"
    and "connection_cache st" and "cursors_documented rt v" and "\<And>q. length (answer v q) < fuel rt"
    and "answers_from v d (oracle_schema sc) name"
  shows "\<exists>r t. CreateDefaultTable D rt sc name s = (Ret r, t) \<and> states t = states s \<and>
    (case lookup_name d (oracle_schema sc) name of
       None \<Rightarrow> r = None
     | Some (own, tab) \<Rightarrow> \<exists>e. r = Some e \<and> schema_name e = own \<and> table_name e = tab \<and>
         entry_name e = (if name = [] then tab else name) \<and> entry_state e = schema_state sc \<and>
         entry_columns e = map (\<lambda>c. (c ! 0, MapOracleColumn D (c ! 1) (parse_idx (c ! 3)) (parse_idx (c ! 4)) (parse_idx (c ! 2)) st))
           (columns_named d (UP own) (UP tab)) \<and>
         map column_name (column_metadata e) = map (\<lambda>c. c ! 0) (columns_named d (UP own) (UP tab)) \<and>
         map oracle_data_type (column_metadata e) = map (\<lambda>c. c ! 1) (columns_named d (UP own) (UP tab)))"
proof -
  have con: "connected_state (schema_state sc) s" "answering rt v"
    using assms(3-7) by (simp_all add: connected_state_def answering_def)
  obtain t where run: "CreateDefaultTable D rt sc name s = (Ret (lookup_answer D v st sc name), t)" "states t = states s"
    using quiet_lookup [OF con] assms(4) by (auto simp: quiet_def)
  show ?thesis
  proof (cases "lookup_name d (oracle_schema sc) name")
    case None
    then show ?thesis using run lookup_answer_dictionary [OF assms(1,2,8)] by simp
  next
    case (Some x)
    obtain own tab where x: "x = (own, tab)" by (cases x)
    have rows: "answer_rows v (ask_columns own tab) = columns_named d (UP own) (UP tab)"
      using assms(8) Some x by (simp add: answers_from_def)
    have "\<forall>(own, tab, c) \<in> set (all_tab_columns d). length c = 6" using assms(8) by (simp add: answers_from_def)
    then have "filter (\<lambda>row. 6 \<le> length row) (columns_named d (UP own) (UP tab)) = columns_named d (UP own) (UP tab)"
      by (auto simp: columns_named_def filter_id_conv)
    then show ?thesis
      using run lookup_answer_dictionary [OF assms(1,2,8)] Some x
      by (simp add: table_of_def load_rows_run queries_ask [OF assms(1,2)] rows load_row_def make_metadata_def comp_def)
  qed
qed

text \<open>A dictionary with a table, a public synonym for a table with a mixed-case name, and a table \<open>PEOPLE\<close> beside it.\<close>

definition shop :: dictionary where
  "shop = \<lparr> all_objects = [(''SCOTT'', ''EMP'', ''TABLE''), (''HR'', ''People'', ''TABLE''), (''HR'', ''PEOPLE'', ''TABLE'')],
     all_synonyms = [(''PUBLIC'', ''STAFF'', ''HR'', ''People'')],
     all_tab_columns = [(''SCOTT'', ''EMP'', [''ID'', ''NUMBER'', ''22'', ''9'', ''0'', ''N'']),
       (''HR'', ''People'', [''Name'', ''VARCHAR2'', ''30'', [], [], ''Y'']), (''HR'', ''PEOPLE'', [''AGE'', ''NUMBER'', ''22'', ''3'', ''0'', ''Y''])] \<rparr>"

definition shop_rows :: "string \<Rightarrow> string list list" where
  "shop_rows q =
     (if q = ask_object ''SCOTT'' ''emp'' then [[''EMP'']]
      else if q = ask_columns ''SCOTT'' ''EMP'' then [[''ID'', ''NUMBER'', ''22'', ''9'', ''0'', ''N'']]
      else if q = ask_synonym ''SCOTT'' ''staff'' then [[''HR'', ''People'']]
      else if q = ask_columns ''HR'' ''People'' then [[''AGE'', ''NUMBER'', ''22'', ''3'', ''0'', ''Y'']]
      else [])"

definition shop_names :: "string \<Rightarrow> string list" where
  "shop_names q = replicate (case shop_rows q of [] \<Rightarrow> 1 | row # _ \<Rightarrow> length row) ''C''"

definition shop_rt :: "(handle option \<Rightarrow> string \<times> col_mem list list) rt" where
  "shop_rt = \<lparr> oci = (\<lambda>c w. case c of AttrGetStmt h a \<Rightarrow> (ok_reply\<lparr>out_num := int (length (shop_names (fst (w h))))\<rparr>, w)
       | _ \<Rightarrow> cursor_oci (\<lambda>q. map (map text_cell) (shop_rows q)) c w),
     wakeups = 0, fuel = 2 \<rparr>"

definition shop_v :: "(handle option \<Rightarrow> string \<times> col_mem list list) cursor_view" where
  "shop_v = (cursor_v (\<lambda>q. map (map text_cell) (shop_rows q)))\<lparr>names := shop_names\<rparr>"

lemma shop_documented: "cursors_documented shop_rt shop_v"
proof -
  have "statements_documented shop_rt shop_v"
    by (auto simp: statements_documented_def shop_rt_def shop_v_def cursor_v_def cursor_oci_def keeps_cursors_def
        split: oci_call.split)
  moreover have "names_documented shop_rt shop_v"
    by (simp add: names_documented_def shop_rt_def shop_v_def cursor_v_def cursor_oci_def shop_names_def)
  moreover have "fetches_documented shop_rt shop_v"
    by (auto simp: fetches_documented_def shop_rt_def shop_v_def cursor_v_def cursor_oci_def split: list.split)
  ultimately show ?thesis by (simp add: cursors_documented_def)
qed

lemma shop_fuel: "length (answer shop_v q) < fuel shop_rt"
  by (simp add: shop_v_def cursor_v_def shop_rt_def shop_rows_def)

lemma shop_answer_rows: "answer_rows shop_v q = map (mem_text (length (shop_names q)) \<circ> map text_cell) (shop_rows q)"
  by (simp add: answer_rows_def shop_v_def cursor_v_def comp_def)

lemma shop_answers: "answers_from shop_v shop ''SCOTT'' ''emp''" "answers_from shop_v shop ''SCOTT'' ''staff''"
proof -
  have found: "lookup_name shop ''SCOTT'' ''emp'' = Some (''SCOTT'', ''EMP'')"
    "lookup_name shop ''SCOTT'' ''staff'' = Some (''HR'', ''People'')" by code_simp+
  let ?qs = "[ask_object ''SCOTT'' ''emp'', ask_synonym ''SCOTT'' ''emp'', ask_columns ''SCOTT'' ''EMP'',
      ask_object ''SCOTT'' ''staff'', ask_synonym ''SCOTT'' ''staff'', ask_columns ''HR'' ''People'']"
  have "map (\<lambda>q. map (mem_text (length (shop_names q)) \<circ> map text_cell) (shop_rows q)) ?qs = map shop_rows ?qs" by code_simp
  then have rows: "answer_rows shop_v (ask_object ''SCOTT'' ''emp'') = shop_rows (ask_object ''SCOTT'' ''emp'')"
      "answer_rows shop_v (ask_synonym ''SCOTT'' ''emp'') = shop_rows (ask_synonym ''SCOTT'' ''emp'')"
      "answer_rows shop_v (ask_columns ''SCOTT'' ''EMP'') = shop_rows (ask_columns ''SCOTT'' ''EMP'')"
      "answer_rows shop_v (ask_object ''SCOTT'' ''staff'') = shop_rows (ask_object ''SCOTT'' ''staff'')"
      "answer_rows shop_v (ask_synonym ''SCOTT'' ''staff'') = shop_rows (ask_synonym ''SCOTT'' ''staff'')"
      "answer_rows shop_v (ask_columns ''HR'' ''People'') = shop_rows (ask_columns ''HR'' ''People'')"
    unfolding shop_answer_rows list.map list.inject by blast+
  have obj: "shop_rows (ask_object ''SCOTT'' ''emp'') = map (\<lambda>(own, obj, ty). [obj]) (objects_named shop ''SCOTT'' ''emp'')"
      "shop_rows (ask_object ''SCOTT'' ''staff'') = map (\<lambda>(own, obj, ty). [obj]) (objects_named shop ''SCOTT'' ''staff'')"
    and syn: "shop_rows (ask_synonym ''SCOTT'' ''emp'') = map (\<lambda>(own, syn, to, tn). [to, tn])
        (synonyms_of shop ''SCOTT'' ''emp'' @ synonyms_of shop ''PUBLIC'' ''emp'')"
      "shop_rows (ask_synonym ''SCOTT'' ''staff'') = map (\<lambda>(own, syn, to, tn). [to, tn])
        (synonyms_of shop ''SCOTT'' ''staff'' @ synonyms_of shop ''PUBLIC'' ''staff'')"
    and col: "shop_rows (ask_columns ''SCOTT'' ''EMP'') = columns_named shop (UP ''SCOTT'') (UP ''EMP'')"
      "shop_rows (ask_columns ''HR'' ''People'') = columns_named shop (UP ''HR'') (UP ''People'')"
    and up: "UP ''SCOTT'' = ''SCOTT''" by code_simp+
  have good: "\<forall>(own, obj, ty) \<in> set (all_objects shop). obj \<noteq> []" "\<forall>(own, tab, c) \<in> set (all_tab_columns shop). length c = 6"
    by (simp_all add: shop_def)
  have apart: "UP ''SCOTT'' \<noteq> ''PUBLIC''" by code_simp
  show "answers_from shop_v shop ''SCOTT'' ''emp''"
    by (rule answers_fromI [OF _ _ found(1) _ good]) (simp_all only: rows obj syn col up apart [unfolded up] if_False)
  show "answers_from shop_v shop ''SCOTT'' ''staff''"
    by (rule answers_fromI [OF _ _ found(2) _ good]) (simp_all only: rows obj syn col up apart [unfolded up] if_False)
qed

lemma shop_state: "connection (the_state 0 one_state) \<noteq> None" "connection_cache (settings (the_state 0 one_state))"
  by (simp_all add: one_state_simps default_settings_def)

theorem table_lookup_witness:
  "(\<exists>e t. CreateDefaultTable duckdb_ref shop_rt (make_schema_entry ''main'' 0 ''SCOTT'') ''emp'' one_state = (Ret (Some e), t) \<and>
     table_name e = ''EMP'' \<and> entry_columns e = [(''ID'', DECIMAL 9 0)]) \<and>
   (\<exists>e t. CreateDefaultTable duckdb_ref shop_rt (make_schema_entry ''main'' 0 ''SCOTT'') ''staff'' one_state = (Ret (Some e), t) \<and>
     schema_name e = ''HR'' \<and> table_name e = ''People'' \<and> map fst (entry_columns e) = [''AGE''])"
proof -
  let ?sc = "make_schema_entry ''main'' 0 ''SCOTT''"
  have sc: "schema_state ?sc = 0" "oracle_schema ?sc = ''SCOTT''" by (simp_all add: make_schema_entry_def)
  have found: "lookup_name shop ''SCOTT'' ''emp'' = Some (''SCOTT'', ''EMP'')"
    "lookup_name shop ''SCOTT'' ''staff'' = Some (''HR'', ''People'')" by code_simp+
  have cols: "columns_named shop (UP ''SCOTT'') (UP ''EMP'') = [[''ID'', ''NUMBER'', ''22'', ''9'', ''0'', ''N'']]"
    "columns_named shop (UP ''HR'') (UP ''People'') = [[''AGE'', ''NUMBER'', ''22'', ''3'', ''0'', ''Y'']]" by code_simp+
  have ty: "MapOracleColumn duckdb_ref ''NUMBER'' (parse_idx ''9'') (parse_idx ''0'') (parse_idx ''22'') st = DECIMAL 9 0" for st
  proof -
    have "parse_idx ''9'' = 9" "parse_idx ''0'' = 0" "UP ''NUMBER'' = ''NUMBER''" by code_simp+
    then show ?thesis by (simp add: MapOracleColumn_def Let_def word_less_alt)
  qed
  have con: "connection (the_state (schema_state ?sc) one_state) \<noteq> None"
    "connection_cache (settings (the_state (schema_state ?sc) one_state))" by (simp_all add: sc shop_state)
  note lookup = table_lookup [OF duckdb_ref_documented(6,8) con(1) refl con(2) shop_documented shop_fuel, unfolded sc]
  let ?col = "\<lambda>c. (c ! 0, MapOracleColumn duckdb_ref (c ! 1) (parse_idx (c ! 3)) (parse_idx (c ! 4)) (parse_idx (c ! 2))
      (settings (the_state 0 one_state)))"
  obtain e t where 1: "CreateDefaultTable duckdb_ref shop_rt ?sc ''emp'' one_state = (Ret (Some e), t)" "table_name e = ''EMP''"
      "entry_columns e = map ?col (columns_named shop (UP ''SCOTT'') (UP ''EMP''))"
    using lookup [OF shop_answers(1)] by (auto simp only: found option.case prod.case)
  obtain e' t' where 2: "CreateDefaultTable duckdb_ref shop_rt ?sc ''staff'' one_state = (Ret (Some e'), t')"
      "schema_name e' = ''HR''" "table_name e' = ''People''"
      "entry_columns e' = map ?col (columns_named shop (UP ''HR'') (UP ''People''))"
    using lookup [OF shop_answers(2)] by (auto simp only: found option.case prod.case)
  have 3: "entry_columns e = [(''ID'', DECIMAL 9 0)]" unfolding 1(3) cols by (simp add: ty)
  have 4: "map fst (entry_columns e') = [''AGE'']" unfolding 2(4) cols by simp
  show ?thesis
    by (intro conjI exI [of _ e] exI [of _ t] exI [of _ e'] exI [of _ t'] 1(1,2) 3 2(1-3) 4)
qed

text \<open>C25: The version of the server is read as Oracle writes it: on a connected database that answers, the detection
  reads the full version of the instance, or that of a product component where the first query gives no row; of a version
  \<open>ma.mi.pa...\<close> it stores the three numbers and sets the feature flags by them (JSON from 21, \<open>VECTOR\<close> from 23,
  \<open>VECTOR_SERIALIZE\<close> from 23.4), and it is not tried again.\<close>

theorem detects_the_version:
  assumes "split_documented D" and "connection (the_state sid s) \<noteq> None" and "connection_cache (settings (the_state sid s))"
    and "\<not> version_detected (the_state sid s)" and "cursors_documented rt v" and "\<And>q. length (answer v q) < fuel rt"
    and "\<And>q. names v q \<noteq> []" and "answer v ''SELECT VERSION_FULL FROM V$INSTANCE'' = [] \<longrightarrow>
      answer v ''SELECT VERSION FROM PRODUCT_COMPONENT_VERSION WHERE ROWNUM = 1'' \<noteq> []"
    and "version_text v = join_with (map to_string (ma # mi # pa # others)) ''.''" and "ma < 2 ^ 31" and "mi < 2 ^ 31" and "pa < 2 ^ 31"
  shows "\<exists>t. DetectOracleVersion D rt sid s = (Ret (), t) \<and> version_detected (the_state sid t) \<and>
    version_info (the_state sid t) = \<lparr> major = int ma, minor = int mi, patch = int pa, supports_json_type = (21 \<le> ma),
      supports_vector = (23 \<le> ma), supports_vector_serialize = (23 < ma \<or> ma = 23 \<and> 4 \<le> mi) \<rparr>"
proof -
  have con: "connected_state sid s" "answering rt v" using assms(2,3,5,6) by (simp_all add: connected_state_def answering_def)
  obtain t where body: "version_body D rt sid s = (Ret (), t)"
      "the_state sid t = (the_state sid s)\<lparr>version_info := version_number ma mi pa\<rparr>"
    using version_body_reads [OF con _ assms(8), of D] assms(7) parse_version_number [OF assms(1,10-12)] by (auto simp: assms(9))
  then show ?thesis
    using assms(4) by (simp add: DetectOracleVersion_def EnsureConnectionInternal_connected [OF con(1)] bind_def try_catch_def version_number_def)
qed

theorem detects_the_version_witness:
  "\<exists>t. DetectOracleVersion duckdb_ref (say_rt ''23.4.0'') 0 one_state = (Ret (), t) \<and> major (version_info (the_state 0 t)) = 23 \<and>
     minor (version_info (the_state 0 t)) = 4 \<and> supports_vector_serialize (version_info (the_state 0 t))"
proof -
  let ?v = "cursor_v (\<lambda>_. [[text_cell ''23.4.0'']])"
  have doc: "cursors_documented (say_rt ''23.4.0'') ?v" and fuel: "\<And>q. length (answer ?v q) < fuel (say_rt ''23.4.0'')"
    using say_rt_answering [of "''23.4.0''"] by (auto simp: answering_def)
  have split: "split_documented duckdb_ref" by (simp add: split_documented_def)
  have "mem_text 1 [text_cell ''23.4.0''] = [''23.4.0'']" by code_simp
  then have "version_text ?v = ''23.4.0''" by (simp add: version_text_def answer_rows_def cursor_v_def)
  moreover have "''23.4.0'' = join_with (map to_string [23, 4, 0]) ''.''" by code_simp
  ultimately have ver: "version_text ?v = join_with (map to_string [23, 4, 0]) ''.''" by simp
  have det: "\<not> version_detected (the_state 0 one_state)" by (simp add: one_state_simps)
  have "names ?v q \<noteq> []" for q by (simp add: cursor_v_def)
  moreover have "answer ?v ''SELECT VERSION_FULL FROM V$INSTANCE'' = [] \<longrightarrow>
      answer ?v ''SELECT VERSION FROM PRODUCT_COMPONENT_VERSION WHERE ROWNUM = 1'' \<noteq> []" by (simp add: cursor_v_def)
  ultimately obtain t where "DetectOracleVersion duckdb_ref (say_rt ''23.4.0'') 0 one_state = (Ret (), t)"
      "version_info (the_state 0 t) = \<lparr> major = int 23, minor = int 4, patch = int 0, supports_json_type = (21 \<le> (23 :: nat)),
      supports_vector = (23 \<le> (23 :: nat)), supports_vector_serialize = (23 < (23 :: nat) \<or> (23 :: nat) = 23 \<and> 4 \<le> (4 :: nat)) \<rparr>"
    using detects_the_version [OF split shop_state det doc fuel _ _ ver] by auto
  then show ?thesis by auto
qed

end
