(* ===== verification/Storage.thy ===== *)
theory Storage
  imports SchemaEntry
begin

text \<open>
  \<open>ATTACH\<close> (\<open>oracle_storage_extension.cpp\<close>): the choice of the connection string from the path or
  from a secret, the catalog state, the options, the catalog and the transaction manager. The storage
  extension has one \<open>OracleStorageInfo\<close>, whose \<open>state\<close> is \<open>storage_state\<close> here. DuckDB's
  secret manager is a parameter.
\<close>

section \<open>State and parameters\<close>

record 'w db = "'w txns" +
  storage_state :: "nat option"

record 'v SecretEntry =
  secret_type :: string
  key_values :: "(string \<Rightarrow> 'v option) option"

record 'v SecretManager =
  GetSecretByName :: "string \<Rightarrow> 'v SecretEntry option"
  LookupSecret :: "string \<Rightarrow> string \<Rightarrow> 'v SecretEntry option"

datatype AccessMode = AUTOMATIC | READ_ONLY | READ_WRITE

record OracleCatalog =
  catalog_state :: nat
  catalog_access :: AccessMode
  catalog_path :: string

section \<open>Attaching\<close>

definition not_found_message :: string where
  "not_found_message = ''Secret '%s' not found. Create it with: CREATE SECRET %s (TYPE oracle, HOST 'localhost', PORT 1521, '' @
     ''SERVICE 'XEPDB1', USER 'user', PASSWORD 'pass')''"

definition no_secret_message :: string where
  "no_secret_message = ''No Oracle secret found. Create one with: CREATE SECRET (TYPE oracle, HOST 'localhost', PORT '' @
     ''1521, SERVICE 'XEPDB1', USER 'user', PASSWORD 'pass')''"

definition find_secret :: "'v duckdb \<Rightarrow> 'v SecretManager \<Rightarrow> (string \<times> 'v) list \<Rightarrow> exn + 'v SecretEntry" where
  "find_secret D sm options = (case map_of options ''secret'' of
     Some val \<Rightarrow> (let secret_name = ToString D val in case GetSecretByName sm secret_name of
         Some e \<Rightarrow> Inr e
       | None \<Rightarrow> Inl (BinderException (Format D not_found_message [secret_name, secret_name])))
   | None \<Rightarrow> (case LookupSecret sm '''' ''oracle'' of
         Some e \<Rightarrow> Inr e
       | None \<Rightarrow> Inl (BinderException no_secret_message)))"

definition attach_string ::
  "'v duckdb \<Rightarrow> 'v SecretManager \<Rightarrow> string \<Rightarrow> (string \<times> 'v) list \<Rightarrow> (('w, 'z) ocist_scheme, string) cpp" where
  "attach_string D sm path options =
     (if path \<noteq> [] then return path
      else bind (liftE (find_secret D sm options)) (\<lambda>e.
        if secret_type e \<noteq> ''oracle'' then
          throw (BinderException (Format D (''Secret type mismatch. Expected 'oracle', got '%s'' @ [CHR 0x27]) [secret_type e]))
        else (case key_values e of
            None \<Rightarrow> throw (BinderException ''Oracle secret must be a KeyValueSecret'')
          | Some kv \<Rightarrow> BuildConnectionStringFromSecret D kv)))"

definition make_state :: "string \<Rightarrow> (('w, 'z) cat_scheme, nat) cpp" where
  "make_state cs =
     bind (gets next_state) (\<lambda>sid.
     bind (modify (\<lambda>s. s\<lparr>next_state := Suc sid, states := (states s)(sid \<mapsto> new_state cs)\<rparr>)) (\<lambda>_.
     return sid))"

definition attach_state :: "'v duckdb \<Rightarrow> string \<Rightarrow> string \<Rightarrow> (('w, 'z) db_scheme, nat) cpp" where
  "attach_state D cs name =
     bind (gets storage_state) (\<lambda>info. case info of
       Some sid \<Rightarrow> return sid
     | None \<Rightarrow> bind (make_state cs) (\<lambda>sid.
         bind (RegisterAlias D sid name) (\<lambda>_.
         bind (modify (\<lambda>s. s\<lparr>storage_state := Some sid\<rparr>)) (\<lambda>_.
         return sid))))"

definition apply_options :: "'v duckdb \<Rightarrow> nat \<Rightarrow> (string \<times> 'v) list \<Rightarrow> (('w, 'z) cat_scheme, unit) cpp" where
  "apply_options D sid options = (\<lambda>s. case ApplyOptions D options (settings (the_state sid s)) of
     (r, st) \<Rightarrow> (r, s\<lparr>states := (states s)(sid \<mapsto> (the_state sid s)\<lparr>settings := st\<rparr>)\<rparr>))"

definition CreateOracleCatalog :: "'v duckdb \<Rightarrow> 'w rt \<Rightarrow> nat \<Rightarrow> (('w, 'z) cat_scheme, nat) cpp" where
  "CreateOracleCatalog D rt sid = bind (Initialize D rt sid) (\<lambda>_. return sid)"

definition OracleAttach ::
  "'v duckdb \<Rightarrow> 'w rt \<Rightarrow> 'v SecretManager \<Rightarrow> string \<Rightarrow> string \<Rightarrow> (string \<times> 'v) list
    \<Rightarrow> (('w, 'z) db_scheme, OracleCatalog) cpp" where
  "OracleAttach D rt sm name path options =
     bind (attach_string D sm path options) (\<lambda>cs.
     bind (attach_state D cs name) (\<lambda>sid.
     bind (apply_options D sid options) (\<lambda>_.
     bind (CreateOracleCatalog D rt sid) (\<lambda>c.
     return \<lparr>catalog_state = c, catalog_access = READ_ONLY, catalog_path = '':memory:''\<rparr>))))"

text \<open>\<open>None\<close> is DuckDB's own transaction manager.\<close>

definition OracleCreateTransactionManager :: "(('w, 'z) db_scheme, nat option) cpp" where
  "OracleCreateTransactionManager =
     bind (gets storage_state) (\<lambda>info. case info of
       None \<Rightarrow> return None
     | Some sid \<Rightarrow> bind (new_manager sid) (\<lambda>mid. return (Some mid)))"

section \<open>What starting a catalog keeps\<close>

lemma DetectCurrentSchema_own: "moves (own_state sid) (DetectCurrentSchema rt sid)"
  unfolding DetectCurrentSchema_def note_schema_def
  by (intro own_state_intros own_state.moves_if EnsureConnectionInternal_own state_query_own) simp_all

lemma version_body_own: "moves (own_state sid) (version_body D rt sid)"
  unfolding version_body_def by (intro own_state_intros own_state.moves_if state_query_own) simp_all

lemma DetectOracleVersion_own: "moves (own_state sid) (DetectOracleVersion D rt sid)"
  unfolding DetectOracleVersion_def
  by (intro own_state_intros own_state.moves_if EnsureConnectionInternal_own version_body_own) simp_all

lemma Initialize_own: "moves (own_state sid) (Initialize D rt sid)"
  unfolding Initialize_def StateConnect_def
  by (intro own_state_intros EnsureConnectionInternal_own DetectCurrentSchema_own DetectOracleVersion_own)

text \<open>The connection string of state \<open>sid\<close>, the extension's state and the aliases.\<close>

definition same_attachment :: "nat \<Rightarrow> ('w, 'z) db_scheme \<Rightarrow> ('w, 'z) db_scheme \<Rightarrow> bool" where
  "same_attachment sid s t \<longleftrightarrow> storage_state t = storage_state s \<and> aliases t = aliases s \<and>
     connection_string (the_state sid t) = connection_string (the_state sid s)"

interpretation same_attachment: state_preorder "same_attachment sid" for sid
  by unfold_locales (auto simp: same_attachment_def)

lemma same_more_db:
  fixes s t :: "('w, 'z) db_scheme"
  assumes "same_more s t"
  shows "storage_state t = storage_state s"
  using assms by (cases s, cases t, simp add: same_more_def)

lemma same_more_attachment:
  fixes m :: "(('w, 'z) db_scheme, 'a) cpp"
  shows "moves same_more m \<Longrightarrow> moves (same_attachment sid) m"
  by (rule movesI) (auto simp: same_attachment_def the_state_def same_more_cat same_more_db dest!: movesD)

text \<open>The extension's state is not touched by the catalog.\<close>

definition same_storage :: "('w, 'z) db_scheme \<Rightarrow> ('w, 'z) db_scheme \<Rightarrow> bool" where
  "same_storage s t \<longleftrightarrow> storage_state t = storage_state s"

interpretation same_storage: state_preorder same_storage
  by unfold_locales (auto simp: same_storage_def)

lemma same_more_storage:
  fixes m :: "(('w, 'z) db_scheme, 'a) cpp"
  shows "moves same_more m \<Longrightarrow> moves same_storage m"
  by (rule movesI) (auto simp: same_storage_def same_more_db dest!: movesD)

lemma upd_state_storage: "moves same_storage (upd_state sid f)"
  unfolding upd_state_def by (rule same_storage.moves_modify) (simp add: same_storage_def)

lemma get_state_storage: "moves same_storage (get_state sid)"
  unfolding get_state_def by (rule same_storage.moves_gets)

lemma state_query_storage: "moves same_storage (state_query rt sid q)"
  by (rule same_more_storage) (rule only_oci_same_more [OF state_query_only_oci])

lemmas storage_intros =
  same_storage.moves_bind same_storage.moves_gets same_storage.moves_return same_storage.moves_run_if
  same_storage.moves_try_catch same_storage.moves_if get_state_storage upd_state_storage state_query_storage

lemma EnsureConnectionInternal_storage: "moves same_storage (EnsureConnectionInternal rt sid)"
  unfolding EnsureConnectionInternal_def reset_connection_def
  by (intro storage_intros same_more_storage [OF Connect_same_more] same_more_storage [OF drop_connection_same_more])

lemma Initialize_storage: "moves same_storage (Initialize D rt sid)"
  unfolding Initialize_def StateConnect_def DetectCurrentSchema_def DetectOracleVersion_def version_body_def note_schema_def
  by (intro storage_intros EnsureConnectionInternal_storage)

lemma Initialize_attachment: "moves (same_attachment sid) (Initialize D rt sid)"
  using Initialize_own [of sid D rt] Initialize_storage [of D rt sid]
  by (auto simp: moves_def own_state_def same_storage_def same_attachment_def)

lemma apply_options_attachment: "moves (same_attachment sid) (apply_options D sid options)"
  by (rule movesI) (auto simp: apply_options_def same_attachment_def split: prod.splits)

text \<open>What \<open>OracleAttach\<close> does after the choice of its state.\<close>

lemma attach_rest:
  "moves (same_attachment sid) (bind (apply_options D sid options) (\<lambda>_. bind (CreateOracleCatalog D rt sid)
     (\<lambda>c. return \<lparr>catalog_state = c, catalog_access = READ_ONLY, catalog_path = '':memory:''\<rparr>)))"
  unfolding CreateOracleCatalog_def
  by (intro same_attachment.moves_bind same_attachment.moves_return apply_options_attachment Initialize_attachment)

lemma attach_rest_state:
  "bind (apply_options D sid options) (\<lambda>_. bind (CreateOracleCatalog D rt sid)
     (\<lambda>c. return \<lparr>catalog_state = c, catalog_access = READ_ONLY, catalog_path = '':memory:''\<rparr>)) s = (Ret c, t) \<Longrightarrow>
   catalog_state c = sid \<and> catalog_access c = READ_ONLY"
  by (auto simp: bind_Ret_iff CreateOracleCatalog_def)

text \<open>The choice of the connection string can only set an environment variable.\<close>

lemma attach_string_same_more: "moves same_more (attach_string D sm path options)"
  unfolding attach_string_def BuildConnectionStringFromSecret_def
  by (intro same_more_intros same_more.moves_if same_more.moves_liftE same_more.moves_case_option) simp_all

lemma attach_first:
  assumes "storage_state s = None" and cs: "attach_string D sm path options s = (Ret cs, s0)"
    and "OracleAttach D rt sm name path options s = (r, t)"
  shows "storage_state t = Some (next_state s) \<and> connection_string (the_state (next_state s) t) = cs"
proof -
  let ?sid = "next_state s"
  note same = movesD [OF attach_string_same_more cs]
  have s0: "storage_state s0 = None" "next_state s0 = ?sid"
    using assms(1) same_more_db [OF same] same_more_cat(2) [OF same] by simp_all
  obtain u where u: "attach_state D cs name s0 = (Ret ?sid, u)" "storage_state u = Some ?sid"
      "connection_string (the_state ?sid u) = cs"
    using s0
    by (cases "name = []") (auto simp: attach_state_def make_state_def RegisterAlias_def Register_def bind_assoc run_if_def the_state_def)
  let ?rest = "bind (apply_options D ?sid options) (\<lambda>_. bind (CreateOracleCatalog D rt ?sid)
     (\<lambda>c. return \<lparr>catalog_state = c, catalog_access = READ_ONLY, catalog_path = '':memory:''\<rparr>))"
  have run: "?rest u = (r, t)" using assms(3) cs u(1) by (simp add: OracleAttach_def bind_def)
  have "same_attachment ?sid u t" using movesD [OF attach_rest run] .
  then show ?thesis using u by (simp add: same_attachment_def)
qed

lemma attach_again:
  assumes "storage_state s = Some sid" and run: "OracleAttach D rt sm name path options s = (r, t)"
  shows "storage_state t = Some sid \<and> connection_string (the_state sid t) = connection_string (the_state sid s) \<and>
    aliases t = aliases s \<and> (\<forall>c. r = Ret c \<longrightarrow> catalog_state c = sid \<and> catalog_access c = READ_ONLY)"
proof -
  obtain r0 s0 where cs: "attach_string D sm path options s = (r0, s0)" by fastforce
  note same = movesD [OF same_more_attachment [OF attach_string_same_more] cs, of sid]
  let ?rest = "bind (apply_options D sid options) (\<lambda>_. bind (CreateOracleCatalog D rt sid)
     (\<lambda>c. return \<lparr>catalog_state = c, catalog_access = READ_ONLY, catalog_path = '':memory:''\<rparr>))"
  show ?thesis
  proof (cases r0)
    case (Ret cs0)
    have "?rest s0 = (r, t)"
      using assms cs Ret same by (simp add: OracleAttach_def attach_state_def bind_def same_attachment_def)
    then show ?thesis
      using movesD [OF attach_rest] attach_rest_state same assms(1) by (fastforce simp: same_attachment_def)
  qed (use run cs same assms(1) in \<open>auto simp: OracleAttach_def bind_def same_attachment_def\<close>)
qed

section \<open>A first attachment\<close>

definition no_database :: "(handle option \<Rightarrow> string \<times> col_mem list list) db" where
  "no_database = \<lparr> server = (\<lambda>_. ([], [])), trace = [], environ = Map.empty, mgr_env = None,
     ctxs = Map.empty, next_ctx = 0, pools = [], pool_heap = Map.empty, next_pool = 0, handles = [], next_handle = 0,
     states = Map.empty, next_state = 0, registry = [], aliases = [], managers = Map.empty, next_manager = 0,
     storage_state = None \<rparr>"

definition no_secrets :: "val SecretManager" where
  "no_secrets = \<lparr> GetSecretByName = (\<lambda>_. None), LookupSecret = (\<lambda>_ _. None) \<rparr>"

lemma attach_connects:
  "\<exists>c t. OracleAttach duckdb_ref (say_rt ''HR'') no_secrets ''a'' ''scott/tiger@db'' [] no_database = (Ret c, t) \<and>
     connected_state 0 t \<and> storage_state t = Some 0"
proof -
  let ?rt = "say_rt ''HR''"
  obtain u where u: "attach_state duckdb_ref ''scott/tiger@db'' ''a'' no_database = (Ret 0, u)"
      "the_state 0 u = new_state ''scott/tiger@db''" "mgr_inv u" "pools u = []" "storage_state u = Some 0"
    by (auto simp: attach_state_def make_state_def RegisterAlias_def Register_def bind_assoc run_if_def the_state_def
        no_database_def mgr_inv_def mgr_ok_def pools_ok_def places_ok_def sessions_alive_def in_handles_def
        idle_in_def busy_with_def)
  let ?u = "u\<lparr>states := (states u)(0 \<mapsto> new_state ''scott/tiger@db'')\<rparr>"
  have "\<exists>t. Initialize duckdb_ref ?rt 0 ?u = (Ret (), t) \<and> connected_state 0 t"
  proof (rule Initialize_connects [OF _ say_rt_healthy _ _ _ _ say_rt_answering])
    show "mgr_inv ?u" using u(3) by simp
    show "ParseOracleConnectionString (connection_string (the_state 0 ?u)) = Inr (''scott'', ''tiger'', ''db'')"
      by (simp add: sample_parses)
  qed (simp_all add: u(4) default_settings_def)
  then obtain t where t: "Initialize duckdb_ref ?rt 0 ?u = (Ret (), t)" "connected_state 0 t" by blast
  have opt: "apply_options duckdb_ref 0 [] u = (Ret (), ?u)"
    using u(2) by (simp add: apply_options_def ApplyOptions_def new_state_def)
  have "storage_state t = Some 0"
    using movesD [OF Initialize_storage t(1)] u(5) by (simp add: same_storage_def)
  moreover have "OracleAttach duckdb_ref ?rt no_secrets ''a'' ''scott/tiger@db'' [] no_database =
      (Ret \<lparr>catalog_state = 0, catalog_access = READ_ONLY, catalog_path = '':memory:''\<rparr>, t)"
    by (simp add: OracleAttach_def attach_string_def bind_def u(1) opt CreateOracleCatalog_def t(1))
  ultimately show ?thesis using t(2) by blast
qed

end
