(* ===== verification/ScanBind.thy ===== *)
theory ScanBind
  imports Storage
begin

text \<open>
  Binding of the table functions (\<open>OracleBindInternal\<close>, \<open>OracleScanBind\<close>, \<open>OracleQueryBind\<close> in
  \<open>oracle_extension.cpp\<close>, \<open>OracleTableEntry::GetScanFunction\<close>): the statement is described on a session
  of the pool, and what the scan will need is kept in \<open>OracleBindData\<close>. The vectors that the code fills in step,
  two of the caller's and three of the bind data, are filled one by one, as the code does it. Both smart pointers of the
  bind data are reset at the end and released by unwinding otherwise, in the same order, which is what
  \<open>with_statement\<close> and \<open>with_handle\<close> do.

  \<open>describes\<close> states how a server describes a statement; under it a bind gives exactly the columns of the query.
\<close>

section \<open>Bind data\<close>

record OracleBindData =
  b_connection_string :: string
  base_query :: string
  b_query :: string
  oci_types :: "sqlt list"
  oci_sizes :: "32 word list"
  column_names :: "string list"
  original_types :: "LogicalType list"
  original_names :: "string list"
  b_settings :: OracleSettings
  b_conn :: "nat option"
  b_stmt :: "handle option"
  b_finished :: bool

definition copy_bind :: "OracleBindData \<Rightarrow> OracleBindData" where
  "copy_bind b = b\<lparr>b_conn := None, b_finished := False\<rparr>"

definition equal_bind :: "OracleBindData \<Rightarrow> OracleBindData \<Rightarrow> bool" where
  "equal_bind a b \<longleftrightarrow> b_query a = b_query b \<and> b_connection_string a = b_connection_string b"

section \<open>Describing the columns\<close>

text \<open>The caller's vectors \<open>names\<close> and \<open>return_types\<close> and the bind data, which are filled together.\<close>

record bind_out =
  out_names :: "string list"
  out_types :: "LogicalType list"
  out_data :: OracleBindData

definition push_column :: "string \<Rightarrow> sqlt \<Rightarrow> bind_out \<Rightarrow> bind_out" where
  "push_column name data_type b = b\<lparr>out_names := out_names b @ [name],
     out_data := (out_data b)\<lparr>column_names := column_names (out_data b) @ [name],
       oci_types := oci_types (out_data b) @ [data_type]\<rparr>\<rparr>"

definition push_size :: "32 word \<Rightarrow> bind_out \<Rightarrow> bind_out" where
  "push_size char_len b = b\<lparr>out_data := (out_data b)\<lparr>oci_sizes := oci_sizes (out_data b) @
     [if 0 < char_len then char_len else 4000]\<rparr>\<rparr>"

definition push_return :: "LogicalType \<Rightarrow> bind_out \<Rightarrow> bind_out" where
  "push_return ty b = b\<lparr>out_types := out_types b @ [ty]\<rparr>"

text \<open>The \<open>switch\<close> over the data type; each case pushes its own type.\<close>

definition push_type :: "sqlt \<Rightarrow> int \<Rightarrow> int \<Rightarrow> bind_out \<Rightarrow> bind_out" where
  "push_type data_type precision scale b = (case data_type of
     SQLT_CHR \<Rightarrow> push_return VARCHAR b
   | SQLT_AFC \<Rightarrow> push_return VARCHAR b
   | SQLT_VCS \<Rightarrow> push_return VARCHAR b
   | SQLT_AVC \<Rightarrow> push_return VARCHAR b
   | SQLT_NUM \<Rightarrow> (if scale = 0 then (if 18 < precision then push_return DOUBLE b else push_return BIGINT b)
                 else push_return DOUBLE b)
   | SQLT_VNU \<Rightarrow> (if scale = 0 then (if 18 < precision then push_return DOUBLE b else push_return BIGINT b)
                 else push_return DOUBLE b)
   | SQLT_INT \<Rightarrow> push_return BIGINT b
   | SQLT_UIN \<Rightarrow> push_return BIGINT b
   | SQLT_FLT \<Rightarrow> push_return DOUBLE b
   | SQLT_BFLOAT \<Rightarrow> push_return DOUBLE b
   | SQLT_BDOUBLE \<Rightarrow> push_return DOUBLE b
   | SQLT_IBFLOAT \<Rightarrow> push_return DOUBLE b
   | SQLT_IBDOUBLE \<Rightarrow> push_return DOUBLE b
   | SQLT_DAT \<Rightarrow> push_return TIMESTAMP b
   | SQLT_ODT \<Rightarrow> push_return TIMESTAMP b
   | SQLT_TIMESTAMP \<Rightarrow> push_return TIMESTAMP b
   | SQLT_TIMESTAMP_TZ \<Rightarrow> push_return TIMESTAMP b
   | SQLT_TIMESTAMP_LTZ \<Rightarrow> push_return TIMESTAMP b
   | SQLT_CLOB \<Rightarrow> push_return VARCHAR b
   | SQLT_BLOB \<Rightarrow> push_return BLOB b
   | SQLT_BIN \<Rightarrow> push_return BLOB b
   | SQLT_LBI \<Rightarrow> push_return BLOB b
   | SQLT_LNG \<Rightarrow> push_return BLOB b
   | SQLT_LVC \<Rightarrow> push_return BLOB b
   | SQLT_JSON \<Rightarrow> push_return VARCHAR b
   | SQLT_VEC \<Rightarrow> push_return VARCHAR b
   | _ \<Rightarrow> push_return VARCHAR b)"

definition describe_column ::
  "'w rt \<Rightarrow> handle option \<Rightarrow> handle option \<Rightarrow> nat \<Rightarrow> bind_out \<Rightarrow> (('w, 'z) ocist_scheme, bind_out) cpp" where
  "describe_column rt err stmt i b =
     bind (checked rt (ParamGet stmt i) err ''Failed to get OCI parameter'') (\<lambda>p.
     bind (checked rt (AttrGetParam (out_handle p) ATTR_DATA_TYPE) err ''Failed to get OCI data type'') (\<lambda>ty.
     bind (checked rt (AttrGetParam (out_handle p) ATTR_NAME) err ''Failed to get OCI column name'') (\<lambda>nm.
     let b = push_column (out_text nm) (out_sqlt ty) b in
     bind (checked rt (AttrGetParam (out_handle p) ATTR_PRECISION) err ''Failed to get OCI precision'') (\<lambda>pr.
     bind (checked rt (AttrGetParam (out_handle p) ATTR_SCALE) err ''Failed to get OCI scale'') (\<lambda>sc.
     bind (checked rt (AttrGetParam (out_handle p) ATTR_CHAR_SIZE) err ''Failed to get OCI char size'') (\<lambda>sz.
     let b = push_size (word_of_int (out_num sz)) b in
     return (push_type (out_sqlt ty) (out_num pr) (out_num sc) b)))))))"

text \<open>The options of a statement: a timeout and the prefetch sizes, narrowed to \<open>ub4\<close>.\<close>

definition ub4 :: "idx_t \<Rightarrow> nat" where
  "ub4 x = unat (ucast x :: 32 word)"

definition tune_statement :: "'w rt \<Rightarrow> handle option \<Rightarrow> OracleSettings \<Rightarrow> (('w, 'z) ocist_scheme, unit) cpp" where
  "tune_statement rt stmt st =
     bind (invoke rt (AttrSetNum HTYPE_STMT stmt ATTR_CALL_TIMEOUT 30000)) (\<lambda>_.
     bind (invoke rt (AttrSetNum HTYPE_STMT stmt ATTR_PREFETCH_ROWS (ub4 (prefetch_rows st)))) (\<lambda>_.
     run_if (0 < prefetch_memory st)
       (invoke rt (AttrSetNum HTYPE_STMT stmt ATTR_PREFETCH_MEMORY (ub4 (prefetch_memory st))))))"

definition describe_body ::
  "'w rt \<Rightarrow> OracleContext \<Rightarrow> handle option \<Rightarrow> bind_out \<Rightarrow> (('w, 'z) ocist_scheme, bind_out) cpp" where
  "describe_body rt c stmt b = (let st = b_settings (out_data b); query = b_query (out_data b) in
     bind (tune_statement rt stmt st) (\<lambda>_.
     bind (check_call rt (StmtPrepare stmt query) (errhp c) ''Failed to prepare OCI statement'') (\<lambda>_.
     bind (check_call rt (StmtExecute (svchp c) stmt 0 OCI_DESCRIBE_ONLY) (errhp c)
             ''Failed to execute OCI statement (Describe)'') (\<lambda>_.
     bind (checked rt (AttrGetStmt stmt ATTR_PARAM_COUNT) (errhp c) ''Failed to get OCI parameter count'') (\<lambda>pc.
     fold_each (describe_column rt (errhp c) stmt) [1..<Suc (nat (out_num pc))] b)))))"

text \<open>A fresh \<open>OracleBindData\<close>, and the start of a bind: the caller's vectors come with \<open>nms\<close> and
  \<open>tys\<close> in them and are cleared.\<close>

definition new_bind_data :: OracleBindData where
  "new_bind_data = \<lparr> b_connection_string = [], base_query = [], b_query = [], oci_types = [], oci_sizes = [],
     column_names = [], original_types = [], original_names = [], b_settings = default_settings, b_conn = None,
     b_stmt = None, b_finished = False \<rparr>"

definition start_bind :: "string \<Rightarrow> string \<Rightarrow> string list \<Rightarrow> LogicalType list \<Rightarrow> bind_out" where
  "start_bind cs query nms tys =
     (let b = \<lparr>out_names = nms, out_types = tys, out_data = new_bind_data\<lparr>b_connection_string := cs\<rparr>\<rparr> in
      b\<lparr>out_names := [], out_types := [], out_data := (out_data b)\<lparr>base_query := query, b_query := query\<rparr>\<rparr>)"

definition finish_bind :: "bind_out \<Rightarrow> bind_out" where
  "finish_bind b = b\<lparr>out_data := (out_data b)\<lparr>original_types := out_types b, original_names := out_names b,
     b_finished := False, b_stmt := None, b_conn := None\<rparr>\<rparr>"

text \<open>A session whose handle the body may look at.\<close>

definition with_handle ::
  "'w rt \<Rightarrow> string \<Rightarrow> OracleSettings \<Rightarrow> (nat \<Rightarrow> OracleContext \<Rightarrow> (('w, 'z) mgr_scheme, 'a) cpp) \<Rightarrow> (('w, 'z) mgr_scheme, 'a) cpp" where
  "with_handle rt cs st body =
     bind (Acquire rt cs st) (\<lambda>hid.
     scope_exit (bind (handle_ctx hid) (body hid)) (\<lambda>s. snd (release_handle rt hid s)))"

definition OracleBindInternal ::
  "'v duckdb \<Rightarrow> 'w rt \<Rightarrow> (string \<Rightarrow> 'v option) \<Rightarrow> string \<Rightarrow> string \<Rightarrow> OracleSettings option
    \<Rightarrow> string list \<Rightarrow> LogicalType list \<Rightarrow> (('w, 'z) mgr_scheme, bind_out) cpp" where
  "OracleBindInternal D rt setting cs query state nms tys = (let b = start_bind cs query nms tys in
     bind (liftE (GetOracleSettings D setting state)) (\<lambda>st.
     let b = b\<lparr>out_data := (out_data b)\<lparr>b_settings := st\<rparr>\<rparr> in
     with_handle rt cs st (\<lambda>hid c.
       let b = b\<lparr>out_data := (out_data b)\<lparr>b_conn := Some hid\<rparr>\<rparr> in
       bind (with_statement rt c ''Failed to allocate OCI statement handle'' (\<lambda>stmt.
         describe_body rt c stmt (b\<lparr>out_data := (out_data b)\<lparr>b_stmt := stmt\<rparr>\<rparr>))) (\<lambda>b.
       return (finish_bind b)))))"

section \<open>The table functions\<close>

definition whole_table_query :: "'v duckdb \<Rightarrow> string \<Rightarrow> string \<Rightarrow> string" where
  "whole_table_query D schema table =
     Format D ''SELECT * FROM %s.%s'' [WriteQuoted D schema (CHR 0x22), WriteQuoted D table (CHR 0x22)]"

definition OracleScanBind ::
  "'v duckdb \<Rightarrow> 'w rt \<Rightarrow> (string \<Rightarrow> 'v option) \<Rightarrow> string \<Rightarrow> string \<Rightarrow> string
    \<Rightarrow> string list \<Rightarrow> LogicalType list \<Rightarrow> (('w, 'z) mgr_scheme, bind_out) cpp" where
  "OracleScanBind D rt setting cs schema table nms tys =
     OracleBindInternal D rt setting cs (whole_table_query D schema table) None nms tys"

text \<open>A connection string without \<open>@\<close> is looked up as an alias.\<close>

definition resolve_alias :: "'v duckdb \<Rightarrow> string \<Rightarrow> (('w, 'z) cat_scheme, string) cpp" where
  "resolve_alias D cs =
     (if str_find (CHR ''@'') cs 0 = None then
        bind (LookupByAlias D cs) (\<lambda>found. case found of
          Some sid \<Rightarrow> bind (get_state sid) (\<lambda>st. return (connection_string st))
        | None \<Rightarrow> return cs)
      else return cs)"

definition OracleQueryBind ::
  "'v duckdb \<Rightarrow> 'w rt \<Rightarrow> (string \<Rightarrow> 'v option) \<Rightarrow> string \<Rightarrow> string \<Rightarrow> string list \<Rightarrow> LogicalType list
    \<Rightarrow> (('w, 'z) cat_scheme, bind_out) cpp" where
  "OracleQueryBind D rt setting cs query nms tys =
     bind (resolve_alias D cs) (\<lambda>cs. OracleBindInternal D rt setting cs query None nms tys)"

text \<open>The caller's vectors hold the columns of the table entry.\<close>

definition GetScanFunction ::
  "'v duckdb \<Rightarrow> 'w rt \<Rightarrow> (string \<Rightarrow> 'v option) \<Rightarrow> OracleTableEntry \<Rightarrow> (('w, 'z) cat_scheme, bind_out) cpp" where
  "GetScanFunction D rt setting e =
     bind (GetVersionInfo D rt (entry_state e)) (\<lambda>version.
     bind (get_state (entry_state e)) (\<lambda>st.
     OracleBindInternal D rt setting (connection_string st) (table_query D version (settings st) e) (Some (settings st))
       (map fst (entry_columns e)) (map snd (entry_columns e))))"

section \<open>How a server describes a statement\<close>

record column_desc =
  d_name :: string
  d_type :: sqlt
  d_precision :: int
  d_scale :: int
  d_char_len :: "32 word"

text \<open>\<open>dstmt w h\<close> is the query that handle \<open>h\<close> was prepared with, \<open>dpar w p\<close> the column of the parameter
  descriptor \<open>p\<close>, and \<open>columns_of q\<close> are the columns of query \<open>q\<close>.\<close>

record 'w desc_view =
  dstmt :: "'w \<Rightarrow> handle option \<Rightarrow> string"
  dpar :: "'w \<Rightarrow> handle option \<Rightarrow> column_desc"
  columns_of :: "string \<Rightarrow> column_desc list"

definition only_asks :: "oci_call \<Rightarrow> bool" where
  "only_asks c \<longleftrightarrow> (case c of
     StmtExecute _ _ _ m \<Rightarrow> m = OCI_DESCRIBE_ONLY
   | AttrGetStmt _ _ \<Rightarrow> True | ParamGet _ _ \<Rightarrow> True | AttrGetParam _ _ \<Rightarrow> True
   | _ \<Rightarrow> False)"

definition parameters_documented :: "'w rt \<Rightarrow> 'w desc_view \<Rightarrow> bool" where
  "parameters_documented rt v \<longleftrightarrow> (\<forall>p w.
     out_sqlt (fst (oci rt (AttrGetParam p ATTR_DATA_TYPE) w)) = d_type (dpar v w p) \<and>
     out_text (fst (oci rt (AttrGetParam p ATTR_NAME) w)) = d_name (dpar v w p) \<and>
     out_num (fst (oci rt (AttrGetParam p ATTR_PRECISION) w)) = d_precision (dpar v w p) \<and>
     out_num (fst (oci rt (AttrGetParam p ATTR_SCALE) w)) = d_scale (dpar v w p) \<and>
     out_num (fst (oci rt (AttrGetParam p ATTR_CHAR_SIZE) w)) = uint (d_char_len (dpar v w p)) \<and>
     (\<forall>a p'. dpar v (snd (oci rt (AttrGetParam p a) w)) p' = dpar v w p'))"

definition describes :: "'w rt \<Rightarrow> 'w desc_view \<Rightarrow> bool" where
  "describes rt v \<longleftrightarrow> healthy rt \<and> parameters_documented rt v \<and>
     (\<forall>h q w. dstmt v (snd (oci rt (StmtPrepare h q) w)) h = q) \<and>
     (\<forall>c h w. only_asks c \<longrightarrow> dstmt v (snd (oci rt c w)) h = dstmt v w h) \<and>
     (\<forall>h w. out_num (fst (oci rt (AttrGetStmt h ATTR_PARAM_COUNT) w)) = int (length (columns_of v (dstmt v w h)))) \<and>
     (\<forall>h i w. i < length (columns_of v (dstmt v w h)) \<longrightarrow>
        dpar v (snd (oci rt (ParamGet h (Suc i)) w)) (out_handle (fst (oci rt (ParamGet h (Suc i)) w))) =
          columns_of v (dstmt v w h) ! i)"

text \<open>The DuckDB type of a column: integers that fit into 64 bits, other numbers, dates, binary data, text.\<close>

definition column_type :: "column_desc \<Rightarrow> LogicalType" where
  "column_type d =
     (if d_type d \<in> {SQLT_INT, SQLT_UIN} \<or> d_type d \<in> {SQLT_NUM, SQLT_VNU} \<and> d_scale d = 0 \<and> d_precision d \<le> 18 then BIGINT
      else if d_type d \<in> {SQLT_NUM, SQLT_VNU, SQLT_FLT, SQLT_BFLOAT, SQLT_BDOUBLE, SQLT_IBFLOAT, SQLT_IBDOUBLE} then DOUBLE
      else if d_type d \<in> {SQLT_DAT, SQLT_ODT, SQLT_TIMESTAMP, SQLT_TIMESTAMP_TZ, SQLT_TIMESTAMP_LTZ} then TIMESTAMP
      else if d_type d \<in> {SQLT_BLOB, SQLT_BIN, SQLT_LBI, SQLT_LNG, SQLT_LVC} then BLOB
      else VARCHAR)"

definition column_size :: "column_desc \<Rightarrow> 32 word" where
  "column_size d = (if d_char_len d = 0 then 4000 else d_char_len d)"

text \<open>The bind data of a query with given columns.\<close>

definition bind_data :: "string \<Rightarrow> string \<Rightarrow> OracleSettings \<Rightarrow> column_desc list \<Rightarrow> OracleBindData" where
  "bind_data cs query st ds = \<lparr> b_connection_string = cs, base_query = query, b_query = query,
     oci_types = map d_type ds, oci_sizes = map column_size ds, column_names = map d_name ds,
     original_types = map column_type ds, original_names = map d_name ds, b_settings = st,
     b_conn = None, b_stmt = None, b_finished = False \<rparr>"

section \<open>Lemmas\<close>

lemma tune_statement_only_oci: "moves only_oci (tune_statement rt stmt st)"
  unfolding tune_statement_def by (intro only_oci_intros only_oci.moves_run_if invoke_moves)

lemma describe_body_only_oci: "moves only_oci (describe_body rt c stmt b)"
  unfolding describe_body_def describe_column_def Let_def
  by (intro only_oci_intros only_oci.moves_fold_each tune_statement_only_oci)

lemma describe_column_ends: "ends (describe_column rt err stmt i b)"
  by (auto simp: describe_column_def Let_def)

lemma describe_body_ends: "ends (describe_body rt c stmt b)"
  by (auto simp: describe_body_def tune_statement_def Let_def intro: ends_fold_each describe_column_ends)

lemma with_statement_ends: "(\<And>h. ends (body h)) \<Longrightarrow> ends (with_statement rt c msg body)"
  by (auto simp: with_statement_def)

text \<open>\<open>Acquire\<close> always comes to an end: it waits for a bounded number of wakeups.\<close>

lemma with_pool_ends: "ends (with_pool pid f)" "ends (put_pool pid p)"
  by (auto simp: with_pool_def put_pool_def)

lemma make_handle_ends: "ends (make_handle pid cid)"
  by (auto simp: make_handle_def intro: with_pool_ends split: option.split)

lemma acquire_loop_ends: "ends (acquire_loop rt env cs pid n)"
proof -
  have "fst (acquire_loop rt env cs pid n s) \<noteq> Stuck" for s :: "('a, 'b) mgr_scheme"
  proof -
    obtain sl q where take: "take_slot (the_pool_of pid s) = (sl, q)" by fastforce
    have create: "ends (bind (try_catch (CreateConnection rt env cs)
        (\<lambda>e. bind (with_pool pid rollback_slot) (\<lambda>_. throw e))) (make_handle (Some pid)) :: (('a, 'b) mgr_scheme, nat) cpp)"
      by (auto intro!: CreateConnection_ends with_pool_ends make_handle_ends)
    have handle: "ends (make_handle (Some pid) cid :: (('a, 'b) mgr_scheme, nat) cpp)" for cid by (rule make_handle_ends)
    show ?thesis
      using take acquire_full [of pid s q] acquire_reuse [of pid s _ q] acquire_reserve [of pid s q]
        handle create
      by (cases sl) (simp_all add: ends_def)
  qed
  then show ?thesis by (simp add: ends_def)
qed

lemma Instance_ends: "ends (Instance rt)"
  by (auto simp: Instance_def split: option.split)

lemma Acquire_ends: "ends (Acquire rt cs st)"
  by (auto simp: Acquire_def registry_pool_def split: option.split
      intro!: Instance_ends CreateConnection_ends make_handle_ends with_pool_ends acquire_loop_ends)

lemma with_session_ends: "(\<And>c. ends (body c)) \<Longrightarrow> ends (with_session rt cs st body)"
  by (auto simp: with_session_def handle_ctx_def intro!: Acquire_ends)

text \<open>A run of \<open>with_handle\<close> is a run of \<open>with_session\<close>.\<close>

lemma with_handle_session: "\<exists>hid. with_handle rt cs st body s = with_session rt cs st (body hid) s"
proof -
  obtain r u where acq: "Acquire rt cs st s = (r, u)" by fastforce
  then show ?thesis
    by (cases r) (auto simp: with_handle_def with_session_def bind_def)
qed

lemma with_handle_ok:
  assumes "mgr_inv s" and body: "\<And>hid c. moves only_oci (body hid c)" and run: "with_handle rt cs st body s = (r, t)"
    and "r \<noteq> Stuck"
  shows "mgr_inv t \<and> handles t = handles s"
proof -
  obtain hid where "with_session rt cs st (body hid) s = (r, t)"
    using with_handle_session [of rt cs st body s] run by auto
  from with_session_ok [OF assms(1) body this assms(4)] show ?thesis .
qed

lemma with_handle_ends: "(\<And>hid c. ends (body hid c)) \<Longrightarrow> ends (with_handle rt cs st body)"
  by (auto simp: with_handle_def handle_ctx_def intro!: Acquire_ends)

lemma with_handle_same_more:
  assumes "\<And>hid c. moves same_more (body hid c)"
  shows "moves same_more (with_handle rt cs st body)"
proof (rule movesI)
  fix s r t assume run: "with_handle rt cs st body s = (r, t)"
  obtain hid where "with_session rt cs st (body hid) s = (r, t)"
    using with_handle_session [of rt cs st body s] run by auto
  then show "same_more s t" using with_session_same_more [OF assms] by (rule movesD [rotated])
qed

definition bind_session_body ::
  "'w rt \<Rightarrow> bind_out \<Rightarrow> nat \<Rightarrow> OracleContext \<Rightarrow> (('w, 'z) mgr_scheme, bind_out) cpp" where
  "bind_session_body rt b hid c = (let b = b\<lparr>out_data := (out_data b)\<lparr>b_conn := Some hid\<rparr>\<rparr> in
     bind (with_statement rt c ''Failed to allocate OCI statement handle'' (\<lambda>stmt.
       describe_body rt c stmt (b\<lparr>out_data := (out_data b)\<lparr>b_stmt := stmt\<rparr>\<rparr>))) (\<lambda>b. return (finish_bind b)))"

lemma OracleBindInternal_run:
  "GetOracleSettings D setting state = Inr st \<Longrightarrow> OracleBindInternal D rt setting cs query state nms tys =
   with_handle rt cs st (bind_session_body rt
     (start_bind cs query nms tys\<lparr>out_data := (out_data (start_bind cs query nms tys))\<lparr>b_settings := st\<rparr>\<rparr>))"
  by (rule ext) (simp add: OracleBindInternal_def bind_session_body_def [abs_def] Let_def)

lemma OracleBindInternal_fails:
  "GetOracleSettings D setting state = Inl e \<Longrightarrow> OracleBindInternal D rt setting cs query state nms tys = throw e"
  by (rule ext) (simp add: OracleBindInternal_def Let_def)

lemma bind_session_body_ends: "ends (bind_session_body rt b hid c)"
  by (auto simp: bind_session_body_def Let_def intro!: with_statement_ends describe_body_ends)

lemma bind_session_body_only_oci: "moves only_oci (bind_session_body rt b hid c)"
  unfolding bind_session_body_def Let_def
  by (intro only_oci_intros with_statement_only_oci describe_body_only_oci)

lemma OracleBindInternal_ends: "ends (OracleBindInternal D rt setting cs query state nms tys)"
  by (cases "GetOracleSettings D setting state")
    (auto simp: OracleBindInternal_run OracleBindInternal_fails intro!: with_handle_ends bind_session_body_ends)

lemma OracleBindInternal_same_more: "moves same_more (OracleBindInternal D rt setting cs query state nms tys)"
proof (cases "GetOracleSettings D setting state")
  case (Inr st)
  then show ?thesis
    using with_handle_same_more [OF only_oci_same_more [OF bind_session_body_only_oci]]
    by (simp add: OracleBindInternal_run)
qed (simp add: OracleBindInternal_fails same_more.moves_throw)

lemma returns_scope_exit: "returns m \<Longrightarrow> returns (scope_exit m d)"
proof -
  assume m: "returns m"
  have "\<exists>a t. scope_exit m d s = (Ret a, t)" for s
    using returnsD [OF m, of s] by (auto simp: scope_exit_def)
  then show ?thesis by (simp add: returns_def)
qed

lemma default_session: "GetOracleSettings duckdb_ref (\<lambda>_. None) None = Inr default_settings"
  by code_simp

section \<open>What a bind finds\<close>

text \<open>The vectors after the columns \<open>ds\<close>.\<close>

definition pushed :: "column_desc \<Rightarrow> bind_out \<Rightarrow> bind_out" where
  "pushed d b = push_type (d_type d) (d_precision d) (d_scale d)
     (push_size (d_char_len d) (push_column (d_name d) (d_type d) b))"

lemma push_type_column: "push_type (d_type d) (d_precision d) (d_scale d) b = push_return (column_type d) b"
  by (cases "d_type d") (simp_all add: push_type_def column_type_def)

lemma fold_pushed:
  "fold pushed ds b = b\<lparr>out_names := out_names b @ map d_name ds, out_types := out_types b @ map column_type ds,
     out_data := (out_data b)\<lparr>column_names := column_names (out_data b) @ map d_name ds,
       oci_types := oci_types (out_data b) @ map d_type ds, oci_sizes := oci_sizes (out_data b) @ map column_size ds\<rparr>\<rparr>"
proof (induction ds arbitrary: b)
  case (Cons d ds)
  have "pushed d b = b\<lparr>out_names := out_names b @ [d_name d], out_types := out_types b @ [column_type d],
     out_data := (out_data b)\<lparr>column_names := column_names (out_data b) @ [d_name d],
       oci_types := oci_types (out_data b) @ [d_type d], oci_sizes := oci_sizes (out_data b) @ [column_size d]\<rparr>\<rparr>"
    by (simp add: pushed_def push_type_column push_return_def push_size_def push_column_def column_size_def word_gt_0)
  then show ?case by (simp add: Cons.IH)
qed simp

definition prepared :: "'w desc_view \<Rightarrow> handle option \<Rightarrow> string \<Rightarrow> ('w, 'z) ocist_scheme \<Rightarrow> bool" where
  "prepared v h q s \<longleftrightarrow> dstmt v (server s) h = q"

lemma describes_ok: "describes rt v \<Longrightarrow> \<not> is_fetch c \<Longrightarrow> ok_status (status (fst (oci rt c w)))"
  by (simp add: describes_def healthy_def)

lemma describes_asks: "describes rt v \<Longrightarrow> only_asks c \<Longrightarrow> dstmt v (snd (oci rt c w)) h = dstmt v w h"
  unfolding describes_def by blast

lemma yields_ask:
  assumes "describes rt v" and "only_asks c" and "prepared v h q s"
    and "\<And>t. prepared v h q t \<Longrightarrow> server t = snd (oci rt c (server s)) \<Longrightarrow> yields (f (fst (oci rt c (server s)))) a P t"
  shows "yields (bind (checked rt c err msg) f) a P s"
proof -
  have "\<not> is_fetch c" using assms(2) by (cases c) (auto simp: only_asks_def)
  note ok = describes_ok [OF assms(1) this]
  have "prepared v h q (after rt c s)"
    using assms(3) describes_asks [OF assms(1,2)] by (simp add: prepared_def)
  from assms(4) [OF this] show ?thesis by (simp add: yields_def bind_def checked_run [OF ok])
qed

lemma yields_describe_column:
  assumes doc: "describes rt v" and q: "prepared v h q s" and i: "i < length (columns_of v q)"
  shows "yields (describe_column rt err h (Suc i) b) (pushed (columns_of v q ! i) b) (prepared v h q) s"
proof -
  let ?p = "out_handle (fst (oci rt (ParamGet h (Suc i)) (server s)))" and ?d = "columns_of v q ! i"
  have par: "dpar v (snd (oci rt (ParamGet h (Suc i)) (server s))) ?p = ?d"
    using doc q i by (auto simp: describes_def prepared_def)
  have attr: "out_sqlt (fst (oci rt (AttrGetParam p ATTR_DATA_TYPE) w)) = d_type (dpar v w p)"
      "out_text (fst (oci rt (AttrGetParam p ATTR_NAME) w)) = d_name (dpar v w p)"
      "out_num (fst (oci rt (AttrGetParam p ATTR_PRECISION) w)) = d_precision (dpar v w p)"
      "out_num (fst (oci rt (AttrGetParam p ATTR_SCALE) w)) = d_scale (dpar v w p)"
      "out_num (fst (oci rt (AttrGetParam p ATTR_CHAR_SIZE) w)) = uint (d_char_len (dpar v w p))"
      "dpar v (snd (oci rt (AttrGetParam p a) w)) p' = dpar v w p'" for p p' a w
    using doc by (simp_all add: describes_def parameters_documented_def)
  show ?thesis
    unfolding describe_column_def Let_def
    apply (rule yields_ask [OF doc _ q], simp add: only_asks_def)
    apply (rule yields_ask [OF doc], simp add: only_asks_def, assumption)
    apply (rule yields_ask [OF doc], simp add: only_asks_def, assumption)
    apply (rule yields_ask [OF doc], simp add: only_asks_def, assumption)
    apply (rule yields_ask [OF doc], simp add: only_asks_def, assumption)
    apply (rule yields_ask [OF doc], simp add: only_asks_def, assumption)
    apply (simp add: yields_def attr par pushed_def)
    done
qed

lemma yields_describe_columns:
  assumes doc: "describes rt v" and "prepared v h q s" and "k \<le> length (columns_of v q)"
  shows "yields (fold_each (describe_column rt err h) [Suc k..<Suc (length (columns_of v q))] b)
    (fold pushed (drop k (columns_of v q)) b) (prepared v h q) s"
  using assms(2,3)
proof (induction "length (columns_of v q) - k" arbitrary: k b s)
  case 0
  then show ?case by (simp add: yields_def)
next
  case (Suc m)
  then have k: "k < length (columns_of v q)" by simp
  have rest: "yields (fold_each (describe_column rt err h) [Suc (Suc k)..<Suc (length (columns_of v q))] b')
      (fold pushed (drop (Suc k) (columns_of v q)) b') (prepared v h q) t" if "prepared v h q t" for b' and t :: "('a, 'b) ocist_scheme"
    by (rule Suc.hyps(1)) (use Suc.hyps(2) that k in auto)
  have split: "[Suc k..<Suc (length (columns_of v q))] = Suc k # [Suc (Suc k)..<Suc (length (columns_of v q))]"
    using k by (simp add: upt_conv_Cons)
  show ?case
    unfolding split fold_each.simps Cons_nth_drop_Suc [OF k, symmetric] fold_simps
    by (rule yields_bind [OF yields_describe_column [OF doc Suc.prems(1) k] rest])
qed

lemma yields_describe_body:
  assumes doc: "describes rt v"
  shows "yields (describe_body rt c h b) (fold pushed (columns_of v (b_query (out_data b))) b) (\<lambda>_. True) s"
proof -
  let ?q = "b_query (out_data b)"
  have tune: "yields (tune_statement rt h st) () (\<lambda>_. True) s" for st and s :: "('a, 'b) ocist_scheme"
    by (simp add: tune_statement_def invoke_def yields_def bind_def call_run run_if_def)
  have prep: "yields (check_call rt (StmtPrepare h ?q) err msg) () (prepared v h ?q) t" for err msg and t :: "('a, 'b) ocist_scheme"
    using doc by (intro yields_check_call describes_ok [OF doc]) (auto simp: prepared_def describes_def)
  have desc: "yields (check_call rt (StmtExecute svc h 0 OCI_DESCRIBE_ONLY) err msg) () (prepared v h ?q) t"
    if "prepared v h ?q t" for svc err msg and t :: "('a, 'b) ocist_scheme"
    using that describes_asks [OF doc]
    by (intro yields_check_call describes_ok [OF doc]) (auto simp: prepared_def only_asks_def)
  have count: "out_num (fst (oci rt (AttrGetStmt h ATTR_PARAM_COUNT) (server t))) = int (length (columns_of v ?q))"
    if "prepared v h ?q t" for t :: "('a, 'b) ocist_scheme"
    using doc that by (simp add: describes_def prepared_def)
  show ?thesis
    unfolding describe_body_def Let_def
    apply (rule yields_bind [OF tune])
    apply (rule yields_bind [OF prep])
    apply (rule yields_bind [OF desc], assumption)
    apply (rule yields_ask [OF doc], simp add: only_asks_def, assumption)
    subgoal premises prems for t1 t2 t3 t4
      using yields_mono [OF yields_describe_columns [OF doc prems(4), of 0]] by (simp add: count [OF prems(3)])
    done
qed

text \<open>With a session, a bind returns the columns of its query.\<close>

lemma OracleBindInternal_describes:
  assumes "describes rt v" and "GetOracleSettings D setting state = Inr st" and "Acquire rt cs st s = (Ret hid, u)"
  shows "\<exists>t. OracleBindInternal D rt setting cs query state nms tys s =
    (Ret \<lparr>out_names = map d_name (columns_of v query), out_types = map column_type (columns_of v query),
       out_data = bind_data cs query st (columns_of v query)\<rparr>, t)"
proof -
  let ?b = "start_bind cs query nms tys\<lparr>out_data := (out_data (start_bind cs query nms tys))\<lparr>b_settings := st\<rparr>\<rparr>"
  let ?c = "case map_of (handles u) hid of
     Some h \<Rightarrow> (case ctxs u (h_ctx h) of Some c \<Rightarrow> c | None \<Rightarrow> new_context) | None \<Rightarrow> new_context"
  have "\<exists>t. bind_session_body rt ?b hid ?c u =
    (Ret \<lparr>out_names = map d_name (columns_of v query), out_types = map column_type (columns_of v query),
       out_data = bind_data cs query st (columns_of v query)\<rparr>, t)"
  proof -
    let ?b' = "?b\<lparr>out_data := (out_data ?b)\<lparr>b_conn := Some hid\<rparr>\<rparr>"
    define f where "f h = fold pushed (columns_of v query) (?b'\<lparr>out_data := (out_data ?b')\<lparr>b_stmt := h\<rparr>\<rparr>)" for h
    let ?a = "HandleAlloc HTYPE_STMT"
    have ok: "ok_status (status (fst (oci rt ?a (server u))))" by (rule describes_ok [OF assms(1)]) simp
    let ?h = "out_handle (fst (oci rt ?a (server u)))"
    have "b_query (out_data (?b'\<lparr>out_data := (out_data ?b')\<lparr>b_stmt := h\<rparr>\<rparr>)) = query" for h
      by (simp add: start_bind_def Let_def)
    then have "\<exists>t. describe_body rt ?c ?h (?b'\<lparr>out_data := (out_data ?b')\<lparr>b_stmt := ?h\<rparr>\<rparr>) (after rt ?a u) = (Ret (f ?h), t)"
      using yields_describe_body [OF assms(1), of ?c ?h "?b'\<lparr>out_data := (out_data ?b')\<lparr>b_stmt := ?h\<rparr>\<rparr>" "after rt ?a u"]
      by (simp add: yields_def f_def)
    moreover have "finish_bind (f h) = \<lparr>out_names = map d_name (columns_of v query),
        out_types = map column_type (columns_of v query), out_data = bind_data cs query st (columns_of v query)\<rparr>" for h
      by (simp add: f_def fold_pushed finish_bind_def start_bind_def new_bind_data_def bind_data_def Let_def)
    ultimately show ?thesis
      by (auto simp: bind_session_body_def with_statement_def bind_def checked_run [OF ok] scope_exit_def Let_def)
  qed
  then show ?thesis
    using assms(3) by (auto simp: OracleBindInternal_run [OF assms(2)] with_handle_def bind_def handle_ctx_def scope_exit_def)
qed

section \<open>Properties\<close>

text \<open>C33: A bind finds the columns of its query, and nothing else: on a client library that describes statements as
  documented, with a session of the pool, it returns; the caller's vectors, whatever they held before, and the bind data
  then hold, in step, one name, OCI type, buffer size and DuckDB type for every column of the query in order. The type is
  \<open>BIGINT\<close> for native integers and for \<open>NUMBER\<close> of scale zero and at most 18 digits, \<open>DOUBLE\<close> for other
  numbers, and the size is never zero. Neither a session nor a statement is kept for the plan cache.\<close>

theorem bind_describes_columns:
  assumes "describes rt v" and "GetOracleSettings D setting state = Inr st" and "Acquire rt cs st s = (Ret hid, u)"
    and "ds = columns_of v query"
  shows "\<exists>out t. OracleBindInternal D rt setting cs query state nms tys s = (Ret out, t) \<and>
    out_names out = map d_name ds \<and> out_types out = map column_type ds \<and>
    column_names (out_data out) = map d_name ds \<and> original_names (out_data out) = map d_name ds \<and>
    oci_types (out_data out) = map d_type ds \<and> original_types (out_data out) = map column_type ds \<and>
    oci_sizes (out_data out) = map (\<lambda>d. if d_char_len d = 0 then 4000 else d_char_len d) ds \<and>
    b_query (out_data out) = query \<and> base_query (out_data out) = query \<and> b_settings (out_data out) = st \<and>
    b_connection_string (out_data out) = cs \<and> b_stmt (out_data out) = None \<and> b_conn (out_data out) = None"
  using OracleBindInternal_describes [OF assms(1-3), of query nms tys]
  by (auto simp: bind_data_def column_size_def assms(4))

text \<open>A server for which every query has three columns; a world has the prepared query of each handle.\<close>

definition three_columns :: "column_desc list" where
  "three_columns = [\<lparr>d_name = ''ID'', d_type = SQLT_NUM, d_precision = 18, d_scale = 0, d_char_len = 0\<rparr>,
     \<lparr>d_name = ''BIG'', d_type = SQLT_NUM, d_precision = 19, d_scale = 0, d_char_len = 0\<rparr>,
     \<lparr>d_name = ''NAME'', d_type = SQLT_CHR, d_precision = 0, d_scale = 0, d_char_len = 30\<rparr>]"

definition param_reply :: "column_desc \<Rightarrow> oci_attr \<Rightarrow> oci_reply" where
  "param_reply d a = \<lparr>status = OCI_SUCCESS, out_handle = Some 0, out_num =
     (if a = ATTR_PRECISION then d_precision d else if a = ATTR_SCALE then d_scale d else uint (d_char_len d)),
     out_text = d_name d, out_sqlt = d_type d, out_cols = []\<rparr>"

definition desc_oci :: "oci_call \<Rightarrow> (handle option \<Rightarrow> string) \<Rightarrow> oci_reply \<times> (handle option \<Rightarrow> string)" where
  "desc_oci c w = (let r = \<lparr>status = OCI_SUCCESS, out_handle = Some 0, out_num = int (length three_columns), out_text = [],
       out_sqlt = SQLT_CHR, out_cols = []\<rparr> in case c of
     StmtPrepare h q \<Rightarrow> (r, w(h := q))
   | ParamGet h i \<Rightarrow> (r\<lparr>out_handle := Some (i - 1)\<rparr>, w)
   | AttrGetParam p a \<Rightarrow> (param_reply (three_columns ! the p) a, w)
   | _ \<Rightarrow> (r, w))"

definition desc_rt :: "(handle option \<Rightarrow> string) rt" where
  "desc_rt = \<lparr> oci = desc_oci, wakeups = 0, fuel = 0 \<rparr>"

definition desc_v :: "(handle option \<Rightarrow> string) desc_view" where
  "desc_v = \<lparr> dstmt = (\<lambda>w. w), dpar = (\<lambda>w p. three_columns ! the p), columns_of = (\<lambda>_. three_columns) \<rparr>"

lemma desc_healthy: "healthy desc_rt"
  unfolding healthy_def desc_rt_def desc_oci_def by (auto simp: Let_def param_reply_def split: oci_call.split)

lemma desc_documented: "describes desc_rt desc_v"
proof -
  have "dstmt desc_v (snd (oci desc_rt c w)) h = dstmt desc_v w h" if "only_asks c" for c h w
    using that by (cases c) (simp_all add: only_asks_def desc_v_def desc_rt_def desc_oci_def Let_def)
  then show ?thesis
    using desc_healthy
    by (simp add: describes_def parameters_documented_def) (simp add: desc_v_def desc_rt_def desc_oci_def Let_def param_reply_def)
qed

theorem bind_describes_columns_witness:
  "\<exists>out t. OracleBindInternal duckdb_ref desc_rt (\<lambda>_. None) ''scott/tiger@db'' ''SELECT 1'' None [''OLD''] [BLOB]
       (init_mgr (\<lambda>_. [])) = (Ret out, t) \<and>
     out_names out = [''ID'', ''BIG'', ''NAME''] \<and> out_types out = [BIGINT, DOUBLE, VARCHAR] \<and>
     oci_sizes (out_data out) = [4000, 4000, 30]"
proof -
  have "\<exists>hid u. Acquire desc_rt ''scott/tiger@db'' default_settings (init_mgr (\<lambda>_. [])) = (Ret hid, u)"
    by (rule Acquire_room [OF mgr_inv_init desc_healthy sample_parses]) (simp add: init_mgr_def)
  then obtain hid u where acq: "Acquire desc_rt ''scott/tiger@db'' default_settings (init_mgr (\<lambda>_. [])) = (Ret hid, u)" by blast
  have "three_columns = columns_of desc_v ''SELECT 1''" by (simp add: desc_v_def)
  from bind_describes_columns [OF desc_documented default_session acq this, of "[''OLD'']" "[BLOB]"]
  show ?thesis by (auto simp: three_columns_def column_type_def)
qed

text \<open>C34: Binding gives its session back: whether a bind returns or throws, it comes to an end,
  the handles are those from before, and the manager's invariant holds.\<close>

theorem bind_gives_back_its_session:
  assumes "mgr_inv s" and "OracleBindInternal D rt setting cs query state nms tys s = (r, t)"
  shows "r \<noteq> Stuck \<and> mgr_inv t \<and> handles t = handles s"
proof (cases "GetOracleSettings D setting state")
  case (Inl e)
  then show ?thesis using assms by (auto simp: OracleBindInternal_fails)
next
  case (Inr st)
  have ends: "r \<noteq> Stuck" using endsD [OF OracleBindInternal_ends] assms(2) by metis
  have "mgr_inv t \<and> handles t = handles s"
    by (rule with_handle_ok [OF assms(1) bind_session_body_only_oci assms(2) [unfolded OracleBindInternal_run [OF Inr]] ends])
  then show ?thesis using ends by simp
qed

theorem bind_gives_back_its_session_witness:
  "\<exists>out t. OracleBindInternal duckdb_ref desc_rt (\<lambda>_. None) ''scott/tiger@db'' ''SELECT 1'' None [] []
     (init_mgr (\<lambda>_. [])) = (Ret out, t) \<and> mgr_inv t \<and> handles t = []"
proof -
  have "\<exists>hid u. Acquire desc_rt ''scott/tiger@db'' default_settings (init_mgr (\<lambda>_. [])) = (Ret hid, u)"
    by (rule Acquire_room [OF mgr_inv_init desc_healthy sample_parses]) (simp add: init_mgr_def)
  then obtain out t where run: "OracleBindInternal duckdb_ref desc_rt (\<lambda>_. None) ''scott/tiger@db'' ''SELECT 1'' None [] []
     (init_mgr (\<lambda>_. [])) = (Ret out, t)"
    using OracleBindInternal_describes [OF desc_documented default_session] by blast
  from bind_gives_back_its_session [OF mgr_inv_init run] show ?thesis using run by (auto simp: init_mgr_def)
qed

end
