(* ===== verification/Pushdown.thy ===== *)
theory Pushdown
  imports ScanBind
begin

text \<open>
  Filter and projection pushdown (\<open>ColumnRefSQL\<close> to \<open>OraclePushdownComplexFilter\<close> in
  \<open>oracle_extension.cpp\<close>): from the filters of a scan those that compare a column with a constant or test it for
  null become text of a \<open>WHERE\<close> clause and leave DuckDB's plan. The functions that fill a string and return
  a \<open>bool\<close> return an option.

  \<open>clause\<close> is the abstract syntax of the conditions that Oracle reads: a column name, an operator as it is
  written, a constant. Both sides have a meaning of their own: DuckDB evaluates a filter on a row of values by position,
  Oracle evaluates a clause on columns by name, with its own order of values and its own null constants (the empty
  string is null for Oracle). The lemmas show that the text is the printing of clauses, and that the clauses together
  with the filters that stay mean the same as all filters where the two databases agree on the constants.
\<close>

section \<open>Extracting clauses\<close>

definition ColumnRefSQL :: "'v duckdb \<Rightarrow> string \<Rightarrow> string" where
  "ColumnRefSQL D col_name = WriteQuoted D col_name (CHR 0x22)"

fun const_of :: "'v expr \<Rightarrow> 'v option" where
  "const_of (BoundConstant v) = Some v"
| "const_of _ = None"

definition ConstantToSQL :: "'v duckdb \<Rightarrow> 'v expr \<Rightarrow> string option" where
  "ConstantToSQL D e = map_option (ToSQLString D) (const_of e)"

fun column_index :: "'v expr \<Rightarrow> nat option" where
  "column_index (BoundReference i) = Some i"
| "column_index (BoundColumnRef i) = Some i"
| "column_index _ = None"

fun flip_op :: "etype \<Rightarrow> etype" where
  "flip_op COMPARE_GREATERTHAN = COMPARE_LESSTHAN"
| "flip_op COMPARE_GREATERTHANOREQUALTO = COMPARE_LESSTHANOREQUALTO"
| "flip_op COMPARE_LESSTHAN = COMPARE_GREATERTHAN"
| "flip_op COMPARE_LESSTHANOREQUALTO = COMPARE_GREATERTHANOREQUALTO"
| "flip_op ty = ty"

fun op_sql :: "etype \<Rightarrow> string option" where
  "op_sql COMPARE_EQUAL = Some ''=''"
| "op_sql COMPARE_GREATERTHAN = Some ''>''"
| "op_sql COMPARE_GREATERTHANOREQUALTO = Some ''>=''"
| "op_sql COMPARE_LESSTHAN = Some ''<''"
| "op_sql COMPARE_LESSTHANOREQUALTO = Some ''<=''"
| "op_sql _ = None"

text \<open>The column, the operator and the constant of a comparison, the column on the left.\<close>

definition split_comparison :: "etype \<Rightarrow> 'v expr \<Rightarrow> 'v expr \<Rightarrow> (nat \<times> etype \<times> 'v expr) option" where
  "split_comparison ty l r =
     (case (column_index l, const_of r) of
        (Some i, Some _) \<Rightarrow> Some (i, ty, r)
      | _ \<Rightarrow> (case (column_index r, const_of l) of
          (Some i, Some _) \<Rightarrow> Some (i, flip_op ty, l)
        | _ \<Rightarrow> None))"

definition TryExtractComparison :: "'v duckdb \<Rightarrow> 'v expr \<Rightarrow> string list \<Rightarrow> string option" where
  "TryExtractComparison D e nms = (case e of
     BoundComparison ty l r \<Rightarrow>
       (if ty \<notin> {COMPARE_EQUAL, COMPARE_LESSTHAN, COMPARE_GREATERTHAN, COMPARE_LESSTHANOREQUALTO,
                 COMPARE_GREATERTHANOREQUALTO} then None
        else (case split_comparison ty l r of
            None \<Rightarrow> None
          | Some (col_idx, op_type, const_expr) \<Rightarrow>
              (if length nms \<le> col_idx then None
               else (case (ConstantToSQL D const_expr, op_sql op_type) of
                   (Some const_sql, Some opr) \<Rightarrow>
                     Some (ColumnRefSQL D (nms ! col_idx) @ '' '' @ opr @ '' '' @ const_sql)
                 | _ \<Rightarrow> None))))
   | _ \<Rightarrow> None)"

definition TryExtractIsNull :: "'v duckdb \<Rightarrow> 'v expr \<Rightarrow> string list \<Rightarrow> string option" where
  "TryExtractIsNull D e nms = (case e of
     BoundOperator OPERATOR_IS_NULL [child] \<Rightarrow> (case column_index child of
         Some col_idx \<Rightarrow> (if length nms \<le> col_idx then None
                         else Some (ColumnRefSQL D (nms ! col_idx) @ '' IS NULL''))
       | None \<Rightarrow> None)
   | _ \<Rightarrow> None)"

definition extract_filter :: "'v duckdb \<Rightarrow> string list \<Rightarrow> 'v expr \<Rightarrow> string option" where
  "extract_filter D nms e = (case TryExtractComparison D e nms of
     Some clause \<Rightarrow> Some clause | None \<Rightarrow> TryExtractIsNull D e nms)"

text \<open>The loop over the filters: the clauses and the filters that remain.\<close>

fun extract_filters :: "'v duckdb \<Rightarrow> string list \<Rightarrow> 'v expr list \<Rightarrow> string list \<times> 'v expr list" where
  "extract_filters D nms [] = ([], [])"
| "extract_filters D nms (e # es) =
     (let (clauses, remaining) = extract_filters D nms es in
      case extract_filter D nms e of
        Some clause \<Rightarrow> (clause # clauses, remaining)
      | None \<Rightarrow> (clauses, e # remaining))"

section \<open>The pushdown\<close>

definition where_sql :: "'v duckdb \<Rightarrow> string list \<Rightarrow> string" where
  "where_sql D clauses = (if clauses \<noteq> [] then '' WHERE '' @ Join D clauses '' AND '' else [])"

text \<open>The projected columns; indices past the original names are skipped.\<close>

definition projected :: "nat list \<Rightarrow> OracleBindData \<Rightarrow> 'a list \<Rightarrow> 'a list" where
  "projected ids b xs = (if ids = [] then xs else map ((!) xs) (filter (\<lambda>i. i < length (original_names b)) ids))"

definition pushed_query :: "'v duckdb \<Rightarrow> string list \<Rightarrow> string \<Rightarrow> string list \<Rightarrow> string" where
  "pushed_query D nms base clauses =
     ''SELECT '' @ Join D (map (ColumnRefSQL D) nms) '', '' @ '' FROM ('' @ base @ '')'' @ where_sql D clauses"

text \<open>The result: the bind data, the filters that remain, and the names and types that replace those of the
  \<open>LogicalGet\<close>, if any.\<close>

definition OraclePushdownComplexFilter ::
  "'v duckdb \<Rightarrow> nat list \<Rightarrow> OracleBindData \<Rightarrow> 'v expr list
    \<Rightarrow> OracleBindData \<times> 'v expr list \<times> (string list \<times> LogicalType list) option" where
  "OraclePushdownComplexFilter D projection_ids b expressions =
     (if \<not> enable_pushdown (b_settings b) then (b, expressions, None)
      else let (clauses, remaining) = extract_filters D (column_names b) expressions;
               projected_names = projected projection_ids b (original_names b);
               projected_types = projected projection_ids b (original_types b);
               projected_oci_types = projected projection_ids b (oci_types b);
               projected_oci_sizes = projected projection_ids b (oci_sizes b)
           in (b\<lparr>column_names := projected_names, oci_types := projected_oci_types, oci_sizes := projected_oci_sizes,
                 b_query := pushed_query D projected_names (base_query b) clauses\<rparr>,
               remaining,
               if projection_ids \<noteq> [] then Some (projected_names, projected_types) else None))"

section \<open>What filters and clauses mean\<close>

text \<open>The strict order of the values of a database and the constants that are null for it.\<close>

record 'v sql =
  less :: "'v \<Rightarrow> 'v \<Rightarrow> bool"
  null :: "'v \<Rightarrow> bool"

definition const_val :: "'v sql \<Rightarrow> 'v \<Rightarrow> 'v option" where
  "const_val M v = (if null M v then None else Some v)"

definition compare3 :: "('v \<Rightarrow> 'v \<Rightarrow> bool) \<Rightarrow> 'v option \<Rightarrow> 'v option \<Rightarrow> bool" where
  "compare3 rel a b = (case (a, b) of (Some x, Some y) \<Rightarrow> rel x y | _ \<Rightarrow> False)"

text \<open>DuckDB: \<open>row i\<close> is the value of the \<open>i\<close>th column, \<open>other e\<close> whether an expression that is looked at no
  further is true. A filter keeps a row on which it is true, not false or null.\<close>

fun duck_relation :: "'v sql \<Rightarrow> etype \<Rightarrow> 'v \<Rightarrow> 'v \<Rightarrow> bool" where
  "duck_relation M COMPARE_EQUAL a b = (a = b)"
| "duck_relation M COMPARE_NOTEQUAL a b = (a \<noteq> b)"
| "duck_relation M COMPARE_LESSTHAN a b = less M a b"
| "duck_relation M COMPARE_GREATERTHAN a b = less M b a"
| "duck_relation M COMPARE_LESSTHANOREQUALTO a b = (less M a b \<or> a = b)"
| "duck_relation M COMPARE_GREATERTHANOREQUALTO a b = (less M b a \<or> a = b)"
| "duck_relation M _ a b = False"

fun duck_operand :: "'v sql \<Rightarrow> (nat \<Rightarrow> 'v option) \<Rightarrow> 'v expr \<Rightarrow> 'v option option" where
  "duck_operand M row (BoundReference i) = Some (row i)"
| "duck_operand M row (BoundColumnRef i) = Some (row i)"
| "duck_operand M row (BoundConstant v) = Some (const_val M v)"
| "duck_operand M row _ = None"

fun duck_keeps :: "'v sql \<Rightarrow> (nat \<Rightarrow> 'v option) \<Rightarrow> ('v expr \<Rightarrow> bool) \<Rightarrow> 'v expr \<Rightarrow> bool" where
  "duck_keeps M row other (BoundComparison ty l r) =
     (case (duck_operand M row l, duck_operand M row r) of
        (Some a, Some b) \<Rightarrow> compare3 (duck_relation M ty) a b
      | _ \<Rightarrow> other (BoundComparison ty l r))"
| "duck_keeps M row other (BoundOperator OPERATOR_IS_NULL [e]) =
     (case duck_operand M row e of Some a \<Rightarrow> a = None | None \<Rightarrow> other (BoundOperator OPERATOR_IS_NULL [e]))"
| "duck_keeps M row other e = other e"

text \<open>Oracle: the operators as they are written; \<open>cols n\<close> is the value of the column with name \<open>n\<close>.\<close>

datatype 'v clause = Compare string string 'v | IsNull string

definition oracle_relation :: "'v sql \<Rightarrow> string \<Rightarrow> 'v \<Rightarrow> 'v \<Rightarrow> bool" where
  "oracle_relation M opr a b \<longleftrightarrow>
     opr = ''='' \<and> a = b \<or> opr = ''<'' \<and> less M a b \<or> opr = ''>'' \<and> less M b a \<or>
     opr = ''<='' \<and> (less M a b \<or> a = b) \<or> opr = ''>='' \<and> (less M b a \<or> a = b)"

fun oracle_keeps :: "'v sql \<Rightarrow> (string \<Rightarrow> 'v option) \<Rightarrow> 'v clause \<Rightarrow> bool" where
  "oracle_keeps M cols (Compare n opr v) = compare3 (oracle_relation M opr) (cols n) (const_val M v)"
| "oracle_keeps M cols (IsNull n) = (cols n = None)"

text \<open>How a clause is written.\<close>

fun print_clause :: "'v duckdb \<Rightarrow> 'v clause \<Rightarrow> string" where
  "print_clause D (Compare n opr v) = quoted (CHR 0x22) n @ '' '' @ opr @ '' '' @ ToSQLString D v"
| "print_clause D (IsNull n) = quoted (CHR 0x22) n @ '' IS NULL''"

text \<open>The constants of a filter, and two databases that agree on a constant.\<close>

fun constants :: "'v expr \<Rightarrow> 'v set" where
  "constants (BoundComparison ty l r) = set_option (const_of l) \<union> set_option (const_of r)"
| "constants _ = {}"

definition agree_on :: "'v sql \<Rightarrow> 'v sql \<Rightarrow> 'v \<Rightarrow> bool" where
  "agree_on M N v \<longleftrightarrow> null M v = null N v \<and> (\<forall>x. less M x v = less N x v \<and> less M v x = less N v x)"

text \<open>The row of DuckDB as Oracle's columns.\<close>

definition same_row :: "string list \<Rightarrow> (nat \<Rightarrow> 'v option) \<Rightarrow> (string \<Rightarrow> 'v option) \<Rightarrow> bool" where
  "same_row nms row cols \<longleftrightarrow> (\<forall>i < length nms. cols (nms ! i) = row i)"

section \<open>Lemmas\<close>

text \<open>The clause that the code means by a filter.\<close>

definition means_clause :: "string list \<Rightarrow> 'v expr \<Rightarrow> 'v clause \<Rightarrow> bool" where
  "means_clause nms e c \<longleftrightarrow> (\<forall>M N row cols other.
     same_row nms row cols \<longrightarrow> (\<forall>v \<in> constants e. agree_on M N v) \<longrightarrow>
     duck_keeps M row other e = oracle_keeps N cols c)"

lemma flip_relation: "duck_relation M (flip_op ty) a b = duck_relation M ty b a"
  by (cases ty) auto

lemma op_relation:
  "op_sql ty = Some opr \<Longrightarrow> agree_on M N v \<Longrightarrow> oracle_relation N opr x v = duck_relation M ty x v"
  by (cases ty; clarsimp simp: oracle_relation_def agree_on_def)

lemma const_of_expr: "const_of e = Some v \<Longrightarrow> e = BoundConstant v"
  by (cases e) auto

lemma column_operand: "column_index e = Some i \<Longrightarrow> duck_operand M row e = Some (row i)"
  and column_not_const: "column_index e = Some i \<Longrightarrow> const_of e = None"
  by (cases e; simp)+

lemma compare3_flip: "compare3 r a b = compare3 (\<lambda>x y. r y x) b a"
  by (auto simp: compare3_def split: option.split)

lemma compare_column_const:
  assumes "op_sql ty = Some opr" and "agree_on M N v"
  shows "compare3 (duck_relation M ty) a (const_val M v) = compare3 (oracle_relation N opr) a (const_val N v)"
  using op_relation [OF assms] assms(2)
  by (auto simp: compare3_def const_val_def agree_on_def split: option.split)

text \<open>A filter that is extracted is a clause: its text is printed from it and it means the same.\<close>

lemma extract_comparison:
  assumes quote: "quote_documented D" and "TryExtractComparison D e nms = Some sql"
  shows "\<exists>c. sql = print_clause D c \<and> means_clause nms e c"
proof -
  obtain ty l r i opt ce where e: "e = BoundComparison ty l r"
      and split: "split_comparison ty l r = Some (i, opt, ce)" and i: "i < length nms"
      and printed: "\<exists>const opr. ConstantToSQL D ce = Some const \<and> op_sql opt = Some opr \<and>
        sql = ColumnRefSQL D (nms ! i) @ '' '' @ opr @ '' '' @ const"
    using assms(2)
    by (auto simp: TryExtractComparison_def split: expr.splits if_splits option.splits)
  then obtain opr v where opr: "op_sql opt = Some opr" and v: "const_of ce = Some v"
      and sql: "sql = ColumnRefSQL D (nms ! i) @ '' '' @ opr @ '' '' @ ToSQLString D v"
    by (auto simp: ConstantToSQL_def)
  have "sql = print_clause D (Compare (nms ! i) opr v)"
    using quote by (simp add: sql ColumnRefSQL_def quote_documented_def)
  moreover have "means_clause nms e (Compare (nms ! i) opr v)"
    unfolding means_clause_def
  proof (intro allI impI)
    fix M N :: "'a sql" and row :: "nat \<Rightarrow> 'a option" and cols other
    assume row: "same_row nms row cols" and agree: "\<forall>v \<in> constants e. agree_on M N v"
    have col: "cols (nms ! i) = row i" using row i by (simp add: same_row_def)
    consider (left) "column_index l = Some i" "ce = r" "opt = ty" | (right) "column_index r = Some i" "ce = l" "opt = flip_op ty"
      using split unfolding split_comparison_def by (auto split: option.splits)
    then show "duck_keeps M row other e = oracle_keeps N cols (Compare (nms ! i) opr v)"
    proof cases
      case left
      then have r: "r = BoundConstant v" using const_of_expr [OF v] by simp
      have "agree_on M N v" using agree by (simp add: e r)
      from compare_column_const [OF opr this, of "row i"]
      show ?thesis by (simp add: e r column_operand [OF left(1)] col left(3))
    next
      case right
      then have l: "l = BoundConstant v" using const_of_expr [OF v] by simp
      have "agree_on M N v" using agree by (simp add: e l)
      from compare_column_const [OF opr this, of "row i"]
      have "compare3 (duck_relation M ty) (const_val M v) (row i) = compare3 (oracle_relation N opr) (row i) (const_val N v)"
        by (simp add: compare3_flip [of _ "const_val M v"] flip_relation [abs_def] right(3))
      then show ?thesis by (simp add: e l column_operand [OF right(1)] col)
    qed
  qed
  ultimately show ?thesis by blast
qed

lemma extract_is_null:
  assumes quote: "quote_documented D" and "TryExtractIsNull D e nms = Some sql"
  shows "\<exists>c. sql = print_clause D c \<and> means_clause nms e c"
proof -
  obtain child i where e: "e = BoundOperator OPERATOR_IS_NULL [child]" "column_index child = Some i"
      "i < length nms" "sql = ColumnRefSQL D (nms ! i) @ '' IS NULL''"
    using assms(2) by (auto simp: TryExtractIsNull_def split: expr.splits etype.splits list.splits option.splits if_splits)
  have "sql = print_clause D (IsNull (nms ! i))"
    using quote by (simp add: e(4) ColumnRefSQL_def quote_documented_def)
  moreover have "means_clause nms e (IsNull (nms ! i))"
    using e(3) by (auto simp: means_clause_def e(1) column_operand [OF e(2)] same_row_def)
  ultimately show ?thesis by blast
qed

lemma extract_clause:
  "quote_documented D \<Longrightarrow> extract_filter D nms e = Some sql \<Longrightarrow> \<exists>c. sql = print_clause D c \<and> means_clause nms e c"
  by (auto simp: extract_filter_def dest: extract_comparison extract_is_null split: option.splits)

lemma extract_filters_clauses:
  assumes "quote_documented D" and "extract_filters D nms es = (txts, rest)"
  shows "\<exists>cs. txts = map (print_clause D) cs \<and>
    (\<forall>M N row cols other. same_row nms row cols \<longrightarrow> (\<forall>e \<in> set es. \<forall>v \<in> constants e. agree_on M N v) \<longrightarrow>
      ((\<forall>e \<in> set es. duck_keeps M row other e) \<longleftrightarrow>
        (\<forall>c \<in> set cs. oracle_keeps N cols c) \<and> (\<forall>e \<in> set rest. duck_keeps M row other e)))"
  using assms(2)
proof (induction es arbitrary: txts rest)
  case (Cons e es)
  obtain txts' rest' where rec: "extract_filters D nms es = (txts', rest')" by fastforce
  from Cons.IH [OF this] obtain cs where cs: "txts' = map (print_clause D) cs"
      "\<And>M N row cols other. same_row nms row cols \<Longrightarrow> \<forall>e \<in> set es. \<forall>v \<in> constants e. agree_on M N v \<Longrightarrow>
        ((\<forall>e \<in> set es. duck_keeps M row other e) \<longleftrightarrow>
          (\<forall>c \<in> set cs. oracle_keeps N cols c) \<and> (\<forall>e \<in> set rest'. duck_keeps M row other e))" by blast
  show ?case
  proof (cases "extract_filter D nms e")
    case None
    then have [simp]: "txts = txts'" "rest = e # rest'" using Cons.prems rec by auto
    show ?thesis
    proof (intro exI [of _ cs] conjI allI impI)
      fix M N :: "'a sql" and row :: "nat \<Rightarrow> 'a option" and cols other
      assume "same_row nms row cols" and "\<forall>e \<in> set (e # es). \<forall>v \<in> constants e. agree_on M N v"
      then show "(\<forall>e \<in> set (e # es). duck_keeps M row other e) \<longleftrightarrow>
          (\<forall>c \<in> set cs. oracle_keeps N cols c) \<and> (\<forall>e \<in> set rest. duck_keeps M row other e)"
        using cs(2) [of row cols M N other] by auto
    qed (simp add: cs(1))
  next
    case (Some sql)
    from extract_clause [OF assms(1) this] obtain c where c: "sql = print_clause D c" "means_clause nms e c" by blast
    have [simp]: "txts = sql # txts'" "rest = rest'" using Some Cons.prems rec by auto
    show ?thesis
    proof (intro exI [of _ "c # cs"] conjI allI impI)
      fix M N :: "'a sql" and row :: "nat \<Rightarrow> 'a option" and cols other
      assume "same_row nms row cols" and "\<forall>e \<in> set (e # es). \<forall>v \<in> constants e. agree_on M N v"
      then show "(\<forall>e \<in> set (e # es). duck_keeps M row other e) \<longleftrightarrow>
          (\<forall>c \<in> set (c # cs). oracle_keeps N cols c) \<and> (\<forall>e \<in> set rest. duck_keeps M row other e)"
        using cs(2) [of row cols M N other] c(2) by (auto simp: means_clause_def)
    qed (simp add: cs(1) c(1))
  qed
qed simp

section \<open>Properties\<close>


text \<open>Two columns and the filters \<open>5 < ID\<close> and \<open>NAME IS NULL\<close>.\<close>

definition two_columns :: OracleBindData where
  "two_columns = bind_data ''scott/tiger@db'' ''SELECT * FROM EMP'' default_settings
     [\<lparr>d_name = ''ID'', d_type = SQLT_NUM, d_precision = 9, d_scale = 0, d_char_len = 0\<rparr>,
      \<lparr>d_name = ''NAME'', d_type = SQLT_CHR, d_precision = 0, d_scale = 0, d_char_len = 30\<rparr>]"

lemma two_columns_simps: "column_names two_columns = [''ID'', ''NAME'']" "enable_pushdown (b_settings two_columns)"
  by (simp_all add: two_columns_def bind_data_def default_settings_def)

definition two_filters :: "val expr list" where
  "two_filters = [BoundComparison COMPARE_LESSTHAN (BoundConstant (VInt 5)) (BoundReference 0),
     BoundOperator OPERATOR_IS_NULL [BoundColumnRef 1]]"

definition int_sql :: "val sql" where
  "int_sql = \<lparr> less = (\<lambda>a b. case (a, b) of (VInt x, VInt y) \<Rightarrow> x < y | _ \<Rightarrow> False), null = (\<lambda>_. False) \<rparr>"




end
