(* ===== verification/ValueParsers.thy ===== *)
theory ValueParsers
  imports DuckdbApi
begin

text \<open>
  Reading the text of one cell (\<open>ParseOciTimestamp\<close>, \<open>ParseVectorJsonToList\<close>, \<open>DecodeHexToBlob\<close> and the
  switch over the output type in \<open>OracleQueryFunction\<close>, \<open>oracle_extension.cpp\<close>). \<open>std::stod\<close>,
  \<open>std::stof\<close> and DuckDB's casts are functions of \<open>duckdb\<close>: floating point is not modelled.
\<close>

section \<open>Parsers\<close>

text \<open>\<open>string s(data, len); s.resize(strlen(s.c_str()));\<close>\<close>

definition until_nul :: "string \<Rightarrow> string" where
  "until_nul s = takeWhile (\<lambda>c. c \<noteq> CHR 0x00) s"

definition ParseOciTimestamp :: "'v duckdb \<Rightarrow> string \<Rightarrow> 'v" where
  "ParseOciTimestamp D data =
     (if data = [] then EpochTimestamp D
      else if until_nul data = [] then EpochTimestamp D
      else (case TimestampFromString D (until_nul data) of Inr v \<Rightarrow> v | Inl _ \<Rightarrow> EpochTimestamp D))"

definition strip_brackets :: "string \<Rightarrow> string" where
  "strip_brackets s = (if 2 \<le> length s \<and> s ! 0 = CHR ''['' \<and> s ! (length s - 1) = CHR '']''
     then substr s 1 (length s - 2) else s)"

fun parse_floats :: "'v duckdb \<Rightarrow> string list \<Rightarrow> 'v list" where
  "parse_floats D [] = []"
| "parse_floats D (part # parts) =
     (let p = Trim D part in
      if p \<noteq> [] then (case ParseFloat D p of Inr v \<Rightarrow> v # parse_floats D parts | Inl _ \<Rightarrow> parse_floats D parts)
      else parse_floats D parts)"

definition ParseVectorJsonToList :: "'v duckdb \<Rightarrow> string \<Rightarrow> 'v" where
  "ParseVectorJsonToList D json_str = (let s = Trim D json_str in
     if s = [] \<or> s ! 0 \<noteq> CHR ''['' then FloatList D []
     else let t = strip_brackets s in
       if t \<noteq> [] then FloatList D (parse_floats D (SplitChar D t (CHR '',''))) else FloatList D [])"

definition hex_digit :: "char \<Rightarrow> nat" where
  "hex_digit c = (let x = char_code c in
     if 48 \<le> x \<and> x \<le> 57 then x - 48
     else if 65 \<le> x \<and> x \<le> 70 then x - 65 + 10
     else if 97 \<le> x \<and> x \<le> 102 then x - 97 + 10 else 0)"

text \<open>\<open>(hex_digit(high) << 4) | hex_digit(low)\<close>, as a byte.\<close>

fun DecodeHexToBlob :: "string \<Rightarrow> string" where
  "DecodeHexToBlob (high # low # rest) = char_of (16 * hex_digit high + hex_digit low) # DecodeHexToBlob rest"
| "DecodeHexToBlob _ = []"

section \<open>Cells\<close>

text \<open>A cell of an output vector: null, a value, or not written.\<close>

datatype 'v out_cell = Null | Val 'v | Unset

definition or_null :: "exn + 'v \<Rightarrow> 'v out_cell" where
  "or_null r = (case r of Inr v \<Rightarrow> Val v | Inl _ \<Rightarrow> Null)"

definition read_cell :: "'v duckdb \<Rightarrow> LogicalType \<Rightarrow> string \<Rightarrow> 'v out_cell" where
  "read_cell D ty s = (case ty of
     VARCHAR \<Rightarrow> Val (StringVal D s)
   | BLOB \<Rightarrow> Val (BlobVal D s)
   | BIGINT \<Rightarrow> or_null (map_sum id (BigintVal D) (stoll s))
   | DOUBLE \<Rightarrow> or_null (ParseDouble D s)
   | DECIMAL _ _ \<Rightarrow> or_null (CastAs D s ty)
   | TIMESTAMP \<Rightarrow> Val (ParseOciTimestamp D s)
   | LIST _ \<Rightarrow> Val (ParseVectorJsonToList D s)
   | USER _ \<Rightarrow> or_null (CastAs D s ty)
   | _ \<Rightarrow> Unset)"

section \<open>Lemmas\<close>

text \<open>The hexadecimal text of a string, as \<open>RAWTOHEX\<close> prints it.\<close>

definition hex_char :: "nat \<Rightarrow> char" where
  "hex_char d = char_of (if d < 10 then 48 + d else 55 + d)"

definition to_hex :: "string \<Rightarrow> string" where
  "to_hex s = concat (map (\<lambda>c. [hex_char (char_code c div 16), hex_char (char_code c mod 16)]) s)"

lemma hex_digit_char: "d < 16 \<Longrightarrow> hex_digit (hex_char d) = d"
  by (auto simp: hex_digit_def hex_char_def char_code_def Let_def)

lemma char_code_less: "char_code c < 256"
  by (simp add: char_code_def)

lemma decode_to_hex: "DecodeHexToBlob (to_hex s) = s"
proof (induction s)
  case (Cons c s)
  have "char_code c div 16 < 16" using char_code_less [of c] by auto
  then have "16 * hex_digit (hex_char (char_code c div 16)) + hex_digit (hex_char (char_code c mod 16)) = char_code c"
    by (simp add: hex_digit_char)
  with Cons show ?case by (simp add: to_hex_def char_code_def)
qed (simp add: to_hex_def)

lemma read_bigint: "- (2 ^ 63) \<le> n \<Longrightarrow> n < 2 ^ 63 \<Longrightarrow> read_cell D BIGINT (int_to_string n) = Val (BigintVal D n)"
  by (simp add: read_cell_def stoll_int_to_string or_null_def)

end
