(* ===== verification/Scan.thy ===== *)
theory Scan
  imports Pushdown ValueParsers
begin

text \<open>
  The scan (\<open>OracleInitGlobal\<close>, \<open>OracleQueryFunction\<close> in \<open>oracle_extension.cpp\<close>,
  \<open>OracleScanState\<close>): a session and a statement are taken, an array buffer is defined for every column, and each
  call of \<open>OracleQueryFunction\<close> fetches up to \<open>STANDARD_VECTOR_SIZE\<close> rows and turns them into a chunk.
  What OCI writes into the buffers is the reply of the fetch; the scan state keeps the sizes of the
  buffers. The scan state is passed explicitly: when a call throws, DuckDB destroys it.

  \<open>blocks_documented\<close> states how the calls that prepare, define and fetch behave, and \<open>run_scan\<close> is DuckDB's loop over the calls.
\<close>

section \<open>State\<close>

record OracleScanState =
  s_conn :: nat
  s_stmt :: "handle option"
  buffer_sizes :: "32 word list"
  column_mapping :: "nat list"
  s_executed :: bool
  defines_bound :: bool
  s_finished :: bool

section \<open>Starting a scan\<close>

text \<open>The buffer of output column \<open>i\<close>, the column \<open>col_idx\<close> of the bound query: found by its name.\<close>

definition map_column :: "OracleBindData \<Rightarrow> nat \<Rightarrow> nat \<Rightarrow> nat" where
  "map_column b i col_idx =
     (if col_idx < length (original_names b) then
        (case index_of (original_names b ! col_idx) (column_names b) of Some j \<Rightarrow> j | None \<Rightarrow> i)
      else i)"

definition map_columns :: "OracleBindData \<Rightarrow> nat list \<Rightarrow> nat list" where
  "map_columns b ids = map (\<lambda>(i, col_idx). map_column b i col_idx) (enumerate 0 ids)"

definition scan_mapping :: "OracleBindData \<Rightarrow> nat list \<Rightarrow> nat list \<Rightarrow> nat list" where
  "scan_mapping b column_ids projection_ids =
     (if column_ids \<noteq> [] then map_columns b column_ids
      else if projection_ids \<noteq> [] then map_columns b projection_ids else [])"

definition define_size :: "OracleBindData \<Rightarrow> nat \<Rightarrow> 32 word" where
  "define_size b k =
     (let size = (if k < length (oci_sizes b) \<and> 0 < oci_sizes b ! k then oci_sizes b ! k * 4 else 4000)
      in if size < 4000 then 4000 else size)"

definition define_type :: "OracleBindData \<Rightarrow> nat \<Rightarrow> sqlt" where
  "define_type b k =
     (if k < length (original_types b) then
        (case original_types b ! k of
           BLOB \<Rightarrow> (if k < length (oci_types b) then SQLT_BIN else SQLT_STR)
         | _ \<Rightarrow> SQLT_STR)
      else SQLT_STR)"

definition define_column :: "'w rt \<Rightarrow> handle option \<Rightarrow> handle option \<Rightarrow> OracleBindData \<Rightarrow> nat \<Rightarrow> (('w, 'z) ocist_scheme, unit) cpp" where
  "define_column rt err stmt b k =
     bind (checked rt (DefineByPos stmt (k + 1) (unat (define_size b k)) (define_type b k)) err ''Failed to define OCI column'') (\<lambda>d.
     check_call rt (DefineArrayOfStruct (out_handle d) (unat (define_size b k))) err ''Failed to set OCI array of struct'')"

definition need_reprepare :: "OracleBindData \<Rightarrow> bool" where
  "need_reprepare b \<longleftrightarrow> b_query b \<noteq> base_query b \<or> b_stmt b = None"

definition define_all :: "'w rt \<Rightarrow> OracleContext \<Rightarrow> OracleBindData \<Rightarrow> handle option \<Rightarrow> (('w, 'z) ocist_scheme, unit) cpp" where
  "define_all rt c b stmt = for_each [0..<length (column_names b)] (define_column rt (errhp c) stmt b)"

text \<open>The statement of the scan, with all columns defined. A statement of its own is freed when this throws.\<close>

definition scan_statement :: "'w rt \<Rightarrow> OracleContext \<Rightarrow> OracleBindData \<Rightarrow> (('w, 'z) ocist_scheme, handle option) cpp" where
  "scan_statement rt c b =
     (if need_reprepare b then
        bind (checked rt (HandleAlloc HTYPE_STMT) (errhp c) ''Failed to allocate OCI statement handle'') (\<lambda>r.
        on_throw
          (bind (tune_statement rt (out_handle r) (b_settings b)) (\<lambda>_.
           bind (check_call rt (StmtPrepare (out_handle r) (b_query b)) (errhp c) ''Failed to prepare OCI statement'') (\<lambda>_.
           bind (define_all rt c b (out_handle r)) (\<lambda>_.
           return (out_handle r)))))
          (free_stmt rt (out_handle r)))
      else bind (define_all rt c b (b_stmt b)) (\<lambda>_. return (b_stmt b)))"

definition scan_session :: "'w rt \<Rightarrow> OracleBindData \<Rightarrow> (('w, 'z) mgr_scheme, nat) cpp" where
  "scan_session rt b = (case b_conn b of
     Some hid \<Rightarrow> return hid
   | None \<Rightarrow> Acquire rt (b_connection_string b) (b_settings b))"

definition OracleInitGlobal ::
  "'v duckdb \<Rightarrow> 'w rt \<Rightarrow> OracleBindData \<Rightarrow> nat list \<Rightarrow> nat list \<Rightarrow> (('w, 'z) mgr_scheme, OracleScanState) cpp" where
  "OracleInitGlobal D rt b column_ids projection_ids =
     bind (scan_session rt b) (\<lambda>hid.
     on_throw
       (bind (handle_ctx hid) (\<lambda>c.
        bind (scan_statement rt c b) (\<lambda>stmt.
        return \<lparr> s_conn = hid, s_stmt = stmt,
          buffer_sizes = map (\<lambda>k. define_size b k * VectorSize D) [0..<length (column_names b)],
          column_mapping = scan_mapping b column_ids projection_ids,
          s_executed = False, defines_bound = True, s_finished = False \<rparr>)))
       (\<lambda>s. if b_conn b = None then snd (release_handle rt hid s) else s))"

text \<open>The end of a scan that owns its statement and its session.\<close>

definition close_scan :: "'w rt \<Rightarrow> OracleScanState \<Rightarrow> (('w, 'z) mgr_scheme, unit) cpp" where
  "close_scan rt st = bind (modify (free_stmt rt (s_stmt st))) (\<lambda>_. release_handle rt (s_conn st))"

section \<open>Fetching\<close>

text \<open>Reads of the indicator and length arrays, which start as zeroes, and of a slot of the buffer.\<close>

definition at_or :: "'a \<Rightarrow> 'a list \<Rightarrow> nat \<Rightarrow> 'a" where
  "at_or d xs i = (if i < length xs then xs ! i else d)"

definition slot_text :: "nat \<Rightarrow> col_mem \<Rightarrow> nat \<Rightarrow> string option" where
  "slot_text element_size m row =
     (if at_or 0 (mem_ind m) row = -1 then None
      else Some (take (unat (at_or 0 (mem_len m) row)) (drop (row * element_size) (mem_bytes m))))"

definition buffer_of :: "OracleScanState \<Rightarrow> nat \<Rightarrow> nat" where
  "buffer_of st col_idx = (if col_idx < length (column_mapping st) then column_mapping st ! col_idx else col_idx)"

definition element_size :: "'v duckdb \<Rightarrow> OracleScanState \<Rightarrow> nat \<Rightarrow> nat" where
  "element_size D st k = unat (buffer_sizes st ! k) div unat (VectorSize D)"

definition fill_cell :: "'v duckdb \<Rightarrow> OracleScanState \<Rightarrow> oci_reply \<Rightarrow> nat \<Rightarrow> nat \<times> LogicalType \<Rightarrow> 'v out_cell" where
  "fill_cell D st r row = (\<lambda>(col_idx, ty). let k = buffer_of st col_idx in
     if length (buffer_sizes st) \<le> k then Unset
     else (case slot_text (element_size D st k) (col_at r k) row of
         None \<Rightarrow> Null
       | Some s \<Rightarrow> read_cell D ty s))"

definition fill_row :: "'v duckdb \<Rightarrow> OracleScanState \<Rightarrow> LogicalType list \<Rightarrow> oci_reply \<Rightarrow> nat \<Rightarrow> 'v out_cell list" where
  "fill_row D st types r row = map (fill_cell D st r row) (enumerate 0 types)"

definition OracleQueryFunction ::
  "'v duckdb \<Rightarrow> 'w rt \<Rightarrow> LogicalType list \<Rightarrow> OracleScanState
    \<Rightarrow> (('w, 'z) mgr_scheme, OracleScanState \<times> 'v out_cell list list) cpp" where
  "OracleQueryFunction D rt types st =
     (if s_finished st then return (st, [])
      else bind (handle_ctx (s_conn st)) (\<lambda>c.
        bind (run_if (\<not> s_executed st) (check_call rt (StmtExecute (svchp c) (s_stmt st) 0 OCI_DEFAULT) (errhp c)
                ''Failed to execute OCI statement (open cursor)'')) (\<lambda>_.
        bind (call rt (StmtFetch (s_stmt st) (unat (VectorSize D)))) (\<lambda>r.
        bind (run_if (\<not> ok_status (status r) \<and> status r \<noteq> OCI_NO_DATA)
                (CheckOCIError rt (status r) (errhp c) ''Failed to fetch OCI data'')) (\<lambda>_.
        bind (call rt (AttrGetStmt (s_stmt st) ATTR_ROWS_FETCHED)) (\<lambda>n.
        let rows_fetched = (if ok_status (status n) then nat (out_num n) else 0);
            st' = st\<lparr>s_executed := True, s_finished := (status r = OCI_NO_DATA)\<rparr>
        in return (st', map (fill_row D st types r) [0..<rows_fetched])))))))"

text \<open>DuckDB's loop: it calls the function until a chunk is empty.\<close>

fun run_scan ::
  "'v duckdb \<Rightarrow> 'w rt \<Rightarrow> LogicalType list \<Rightarrow> nat \<Rightarrow> OracleScanState \<Rightarrow> (('w, 'z) mgr_scheme, 'v out_cell list list) cpp" where
  "run_scan D rt types 0 st = stuck"
| "run_scan D rt types (Suc k) st =
     bind (OracleQueryFunction D rt types st) (\<lambda>(st', chunk).
     if chunk = [] then return []
     else bind (run_scan D rt types k st') (\<lambda>rest. return (chunk @ rest)))"

section \<open>How array fetches behave\<close>

text \<open>\<open>bcur w h\<close> is the statement of handle \<open>h\<close> and the rows it has still to give, \<open>bfetched\<close> the number of rows of the
  last fetch, \<open>bsizes\<close> the slot sizes of the columns defined so far, \<open>banswer\<close> the rows of a query; a null is
  \<open>None\<close>.\<close>

type_synonym text_row = "string option list"

record 'w block_view =
  bcur :: "'w \<Rightarrow> handle option \<Rightarrow> string \<times> text_row list"
  bfetched :: "'w \<Rightarrow> handle option \<Rightarrow> nat"
  bsizes :: "'w \<Rightarrow> handle option \<Rightarrow> nat list"
  banswer :: "string \<Rightarrow> text_row list"

definition block_holds :: "nat list \<Rightarrow> oci_reply \<Rightarrow> text_row list \<Rightarrow> bool" where
  "block_holds sizes r rws \<longleftrightarrow> (\<forall>i < length rws. \<forall>k < min (length sizes) (length (rws ! i)).
     slot_text (sizes ! k) (col_at r k) i = rws ! i ! k)"

text \<open>Preparing a statement starts it anew, and its columns are defined one after the other.\<close>

definition prepares_blocks :: "'w rt \<Rightarrow> 'w block_view \<Rightarrow> bool" where
  "prepares_blocks rt v \<longleftrightarrow>
     (\<forall>h q w. let w' = snd (oci rt (StmtPrepare h q) w) in bcur v w' h = (q, []) \<and> bsizes v w' h = []) \<and>
     (\<forall>h n ty w. let w' = snd (oci rt (DefineByPos h (Suc (length (bsizes v w h))) n ty) w) in
        bcur v w' h = bcur v w h \<and> bsizes v w' h = bsizes v w h @ [n]) \<and>
     (\<forall>d n h w. let w' = snd (oci rt (DefineArrayOfStruct d n) w) in bcur v w' h = bcur v w h \<and> bsizes v w' h = bsizes v w h)"

text \<open>A fetch gives up to \<open>n\<close> rows, in the slots that were defined, and says when there are fewer.\<close>

definition fetches_blocks :: "'w rt \<Rightarrow> 'w block_view \<Rightarrow> bool" where
  "fetches_blocks rt v \<longleftrightarrow>
     (\<forall>svc h w. let w' = snd (oci rt (StmtExecute svc h 0 OCI_DEFAULT) w) in
        bcur v w' h = (fst (bcur v w h), banswer v (fst (bcur v w h))) \<and> bsizes v w' h = bsizes v w h) \<and>
     (\<forall>h n w. let (r, w') = oci rt (StmtFetch h n) w; rs = snd (bcur v w h) in
        (if length rs < n then status r = OCI_NO_DATA else ok_status (status r)) \<and>
        block_holds (bsizes v w h) r (take n rs) \<and> bcur v w' h = (fst (bcur v w h), drop n rs) \<and>
        bfetched v w' h = min n (length rs) \<and> bsizes v w' h = bsizes v w h) \<and>
     (\<forall>h w. let (r, w') = oci rt (AttrGetStmt h ATTR_ROWS_FETCHED) w in
        out_num r = int (bfetched v w h) \<and> bcur v w' h = bcur v w h \<and> bsizes v w' h = bsizes v w h)"

definition blocks_documented :: "'w rt \<Rightarrow> 'w block_view \<Rightarrow> bool" where
  "blocks_documented rt v \<longleftrightarrow> healthy rt \<and> prepares_blocks rt v \<and> fetches_blocks rt v"

text \<open>The rows a scan has still to give, and a row as it should come out.\<close>

definition pending :: "'w block_view \<Rightarrow> OracleScanState \<Rightarrow> ('w, 'z) ocist_scheme \<Rightarrow> text_row list" where
  "pending v st s = (if s_executed st then snd (bcur v (server s) (s_stmt st))
     else banswer v (fst (bcur v (server s) (s_stmt st))))"

definition render_cell :: "'v duckdb \<Rightarrow> OracleScanState \<Rightarrow> text_row \<Rightarrow> nat \<times> LogicalType \<Rightarrow> 'v out_cell" where
  "render_cell D st row = (\<lambda>(col_idx, ty).
     if length (buffer_sizes st) \<le> buffer_of st col_idx then Unset
     else (case row ! buffer_of st col_idx of None \<Rightarrow> Null | Some s \<Rightarrow> read_cell D ty s))"

definition render_row :: "'v duckdb \<Rightarrow> OracleScanState \<Rightarrow> LogicalType list \<Rightarrow> text_row \<Rightarrow> 'v out_cell list" where
  "render_row D st types row = map (render_cell D st row) (enumerate 0 types)"

definition element_sizes :: "'v duckdb \<Rightarrow> OracleScanState \<Rightarrow> nat list" where
  "element_sizes D st = map (element_size D st) [0..<length (buffer_sizes st)]"

lemma block_facts:
  assumes "blocks_documented rt v"
  shows "bcur v (snd (oci rt (StmtExecute svc h 0 OCI_DEFAULT) w)) h = (fst (bcur v w h), banswer v (fst (bcur v w h)))"
    and "bsizes v (snd (oci rt (StmtExecute svc h 0 OCI_DEFAULT) w)) h = bsizes v w h"
    and "if length (snd (bcur v w h)) < n then status (fst (oci rt (StmtFetch h n) w)) = OCI_NO_DATA
      else ok_status (status (fst (oci rt (StmtFetch h n) w)))"
    and "block_holds (bsizes v w h) (fst (oci rt (StmtFetch h n) w)) (take n (snd (bcur v w h)))"
    and "bcur v (snd (oci rt (StmtFetch h n) w)) h = (fst (bcur v w h), drop n (snd (bcur v w h)))"
    and "bfetched v (snd (oci rt (StmtFetch h n) w)) h = min n (length (snd (bcur v w h)))"
    and "bsizes v (snd (oci rt (StmtFetch h n) w)) h = bsizes v w h"
    and "out_num (fst (oci rt (AttrGetStmt h ATTR_ROWS_FETCHED) w)) = int (bfetched v w h)"
    and "bcur v (snd (oci rt (AttrGetStmt h ATTR_ROWS_FETCHED) w)) h = bcur v w h"
    and "bsizes v (snd (oci rt (AttrGetStmt h ATTR_ROWS_FETCHED) w)) h = bsizes v w h"
  using assms unfolding blocks_documented_def fetches_blocks_def
  by (simp_all add: case_prod_beta Let_def)

lemma define_facts:
  assumes "blocks_documented rt v"
  shows "bcur v (snd (oci rt (StmtPrepare h q) w)) h = (q, [])" "bsizes v (snd (oci rt (StmtPrepare h q) w)) h = []"
    and "k = length (bsizes v w h) \<Longrightarrow> bcur v (snd (oci rt (DefineByPos h (Suc k) n ty) w)) h = bcur v w h"
    and "k = length (bsizes v w h) \<Longrightarrow> bsizes v (snd (oci rt (DefineByPos h (Suc k) n ty) w)) h = bsizes v w h @ [n]"
    and "bcur v (snd (oci rt (DefineArrayOfStruct d n) w)) h = bcur v w h"
    and "bsizes v (snd (oci rt (DefineArrayOfStruct d n) w)) h = bsizes v w h"
  using assms unfolding blocks_documented_def prepares_blocks_def by (simp_all add: Let_def)

lemma blocks_ok: "blocks_documented rt v \<Longrightarrow> \<not> is_fetch c \<Longrightarrow> ok_status (status (fst (oci rt c w)))"
  by (simp add: blocks_documented_def healthy_def)

lemma fill_row_block:
  assumes "block_holds (element_sizes D st) r rws" and "i < length rws" and "length (buffer_sizes st) \<le> length (rws ! i)"
  shows "fill_row D st types r i = render_row D st types (rws ! i)"
proof -
  have "fill_cell D st r i c = render_cell D st (rws ! i) c" for c
    using assms by (cases c) (simp add: fill_cell_def render_cell_def Let_def block_holds_def element_sizes_def)
  then show ?thesis by (simp add: fill_row_def render_row_def)
qed

text \<open>One call of the function.\<close>

lemma query_step:
  fixes s :: "('w, 'z) mgr_scheme"
  assumes doc: "blocks_documented rt v" and sizes: "bsizes v (server s) (s_stmt st) = element_sizes D st" and "\<not> s_finished st"
    and wide: "\<forall>row \<in> set (pending v st s). length (buffer_sizes st) \<le> length row"
  defines "n \<equiv> unat (VectorSize D)"
  shows "\<exists>t. OracleQueryFunction D rt types st s =
      (Ret (st\<lparr>s_executed := True, s_finished := length (pending v st s) < n\<rparr>,
        map (render_row D st types) (take n (pending v st s))), t) \<and>
    snd (bcur v (server t) (s_stmt st)) = drop n (pending v st s) \<and> bsizes v (server t) (s_stmt st) = element_sizes D st"
proof -
  let ?h = "s_stmt st"
  obtain c where c: "handle_ctx (s_conn st) s = (Ret c, s)" by (simp add: handle_ctx_def)
  let ?x = "StmtExecute (svchp c) ?h 0 OCI_DEFAULT"
  have ok: "ok_status (status (fst (oci rt ?x w)))" for w by (rule blocks_ok [OF doc]) simp
  obtain s1 where exec: "\<And>msg. run_if (\<not> s_executed st) (check_call rt ?x (errhp c) msg) s = (Ret (), s1)"
      and rows: "snd (bcur v (server s1) ?h) = pending v st s" and sizes1: "bsizes v (server s1) ?h = element_sizes D st"
  proof (cases "s_executed st")
    case True
    then show thesis using that [of s] sizes by (simp add: run_if_def pending_def)
  next
    case False
    then show thesis
      using that [of "after rt ?x s"]
      by (simp add: run_if_def check_call_def bind_def checked_run [OF ok] pending_def block_facts(1,2) [OF doc] sizes)
  qed
  obtain r s2 where fetch: "call rt (StmtFetch ?h n) s1 = (Ret r, s2)" and oci1: "oci rt (StmtFetch ?h n) (server s1) = (r, server s2)"
    by (simp add: call_run) (metis prod.collapse ocist.select_convs(1) ocist.surjective ocist.update_convs(1,2))
  note f = block_facts(3-7) [OF doc, where w = "server s1" and n = n, unfolded oci1 fst_conv snd_conv, of ?h, unfolded oci1 fst_conv snd_conv rows sizes1]
  obtain a s3 where attr: "call rt (AttrGetStmt ?h ATTR_ROWS_FETCHED) s2 = (Ret a, s3)"
      and oci2: "oci rt (AttrGetStmt ?h ATTR_ROWS_FETCHED) (server s2) = (a, server s3)"
    by (simp add: call_run) (metis prod.collapse ocist.select_convs(1) ocist.surjective ocist.update_convs(1,2))
  have "ok_status (status (fst (oci rt (AttrGetStmt ?h ATTR_ROWS_FETCHED) (server s2))))" by (rule blocks_ok [OF doc]) simp
  note g = this [unfolded oci2 fst_conv] block_facts(8-10) [OF doc, where w = "server s2" and h = ?h, unfolded oci2 fst_conv snd_conv f(4,5)]
  have chk: "run_if (\<not> ok_status (status r) \<and> status r \<noteq> OCI_NO_DATA) m s2 = (Ret (), s2)" for m :: "(('w, 'z) mgr_scheme, unit) cpp"
    using f(1) by (auto simp: run_if_def split: if_splits)
  have st: "status r = OCI_NO_DATA \<longleftrightarrow> length (pending v st s) < n" using f(1) by (auto split: if_splits)
  have "map (fill_row D st types r) [0..<min n (length (pending v st s))] = map (render_row D st types) (take n (pending v st s))"
    using f(2) wide by (intro nth_equalityI) (auto simp: fill_row_block)
  moreover have "snd (bcur v (server s3) ?h) = drop n (pending v st s)" using g(3) f(3) by simp
  ultimately show ?thesis
    using assms(3) g(1,2,4) st
    by (simp add: OracleQueryFunction_def bind_def c exec fetch chk chk [unfolded st] attr n_def [symmetric]
        min.commute)
qed

lemma buffer_of_executed [simp]: "buffer_of (st\<lparr>s_executed := a, s_finished := f\<rparr>) = buffer_of st"
  by (simp add: fun_eq_iff buffer_of_def)

lemma render_executed [simp]:
  "render_row D (st\<lparr>s_executed := a, s_finished := f\<rparr>) = render_row D st"
  "element_sizes D (st\<lparr>s_executed := a, s_finished := f\<rparr>) = element_sizes D st"
proof -
  have "render_cell D (st\<lparr>s_executed := a, s_finished := f\<rparr>) = render_cell D st"
    by (simp add: fun_eq_iff render_cell_def)
  then show "render_row D (st\<lparr>s_executed := a, s_finished := f\<rparr>) = render_row D st"
    by (intro ext) (simp add: render_row_def)
qed (simp add: element_sizes_def element_size_def)

lemma run_scan_rows:
  assumes doc: "blocks_documented rt v" and "bsizes v (server s) (s_stmt st) = element_sizes D st" and "\<not> s_finished st"
    and "\<forall>row \<in> set (pending v st s). length (buffer_sizes st) \<le> length row" and "0 < VectorSize D" and "Suc (length (pending v st s) div unat (VectorSize D)) < k"
  shows "\<exists>t. run_scan D rt types k st s = (Ret (map (render_row D st types) (pending v st s)), t)"
  using assms(2-)
proof (induction k arbitrary: st s)
  case (Suc k)
  let ?n = "unat (VectorSize D)" and ?rs = "pending v st s"
  have n: "0 < ?n" using Suc.prems(4) by (simp add: unat_gt_0 word_gt_0)
  let ?st = "st\<lparr>s_executed := True, s_finished := length ?rs < ?n\<rparr>"
  obtain t where t: "OracleQueryFunction D rt types st s = (Ret (?st, map (render_row D st types) (take ?n ?rs)), t)"
      "snd (bcur v (server t) (s_stmt st)) = drop ?n ?rs" "bsizes v (server t) (s_stmt st) = element_sizes D st"
    using query_step [OF doc Suc.prems(1-3)] by blast
  consider "?rs = []" | "?rs \<noteq> []" "length ?rs < ?n" | "?n \<le> length ?rs" by linarith
  then show ?case
  proof cases
    case 1
    then show ?thesis using t(1) by (simp add: bind_def)
  next
    case 2
    obtain j where "k = Suc j" using Suc.prems(5) by (cases k) auto
    then have "run_scan D rt types k ?st t = (Ret [], t)"
      using 2 by (simp add: OracleQueryFunction_def)
    then show ?thesis using t(1) 2 by (simp add: bind_def)
  next
    case 3
    have rest: "pending v ?st t = drop ?n ?rs" using t(2) by (simp add: pending_def)
    have "length ?rs div ?n = Suc ((length ?rs - ?n) div ?n)" using 3 n by (simp add: le_div_geq)
    then have "Suc (length (pending v ?st t) div ?n) < k" using Suc.prems(5) by (simp add: rest)
    then obtain u where "run_scan D rt types k ?st t = (Ret (map (render_row D ?st types) (pending v ?st t)), u)"
      using Suc.IH [of t ?st] Suc.prems(3,4) t(3) 3 rest by (auto dest: in_set_dropD)
    moreover have "take ?n ?rs \<noteq> []" using 3 n by auto
    moreover have "map (render_row D st types) (take ?n ?rs) @ map (render_row D st types) (drop ?n ?rs) = map (render_row D st types) ?rs"
      by (metis append_take_drop_id map_append)
    ultimately show ?thesis using t(1) rest by (simp add: bind_def)
  qed
qed simp

section \<open>Sessions and buffers of a scan\<close>

lemma OracleInitGlobal_state:
  assumes "OracleInitGlobal D rt b column_ids projection_ids s = (Ret st, t)"
  shows "buffer_sizes st = map (\<lambda>k. define_size b k * VectorSize D) [0..<length (column_names b)] \<and>
    column_mapping st = scan_mapping b column_ids projection_ids \<and> \<not> s_executed st \<and> \<not> s_finished st"
  using assms
  by (auto simp: OracleInitGlobal_def bind_Ret_iff on_throw_Ret)

text \<open>Up to 2^19 - 1 characters the size of a buffer does not wrap.\<close>

lemma define_size_bound:
  assumes "k < length (oci_sizes b)" and "oci_sizes b ! k \<le> 524287"
  shows "unat (define_size b k) \<le> 2097148" and "0 < unat (define_size b k)"
proof -
  let ?n = "oci_sizes b ! k"
  have n: "unat ?n \<le> 524287" using assms(2) by (simp add: word_le_nat_alt)
  then have "unat (?n * 4) = 4 * unat ?n" by (simp add: unat_word_ariths)
  then have "unat (if k < length (oci_sizes b) \<and> 0 < ?n then ?n * 4 else 4000) \<le> 2097148" using n by simp
  then show "unat (define_size b k) \<le> 2097148" "0 < unat (define_size b k)"
    by (auto simp: define_size_def Let_def word_less_nat_alt)
qed

lemma buffer_no_wrap: "unat (x :: 32 word) \<le> 2097148 \<Longrightarrow> unat (x * 2048) = unat x * 2048"
  by (simp add: unat_word_ariths)

text \<open>A scan that cannot start has given its session back.\<close>

lemma tune_define_only_oci:
  "moves only_oci (tune_statement rt stmt st)" "moves only_oci (define_all rt c b stmt)"
  unfolding define_all_def define_column_def
  by (intro tune_statement_only_oci only_oci_intros only_oci.moves_for_each invoke_moves)+

lemma scan_statement_only_oci: "moves only_oci (scan_statement rt c b)"
  unfolding scan_statement_def
  by (intro only_oci.moves_if only_oci_intros invoke_moves only_oci.moves_on_throw tune_define_only_oci free_stmt_only_oci)

lemma scan_statement_ends: "ends (scan_statement rt c b)"
  unfolding scan_statement_def tune_statement_def define_all_def define_column_def
  by (auto intro!: ends_for_each on_throw_ends)

lemma OracleInitGlobal_session:
  assumes inv: "mgr_inv s" and own: "b_conn b = None"
    and run: "OracleInitGlobal D rt b column_ids projection_ids s = (r, t)"
  shows "mgr_inv t \<and> (case r of Ret st \<Rightarrow> \<exists>h. handles t = (s_conn st, h) # handles s | Throw e \<Rightarrow> handles t = handles s
    | Stuck \<Rightarrow> False)"
proof -
  obtain r1 u where acq: "Acquire rt (b_connection_string b) (b_settings b) s = (r1, u)" by fastforce
  note ok = Acquire_ok [OF inv acq]
  show ?thesis
  proof (cases r1)
    case (Ret hid)
    then obtain h where h: "handles u = (hid, h) # handles s" using ok by auto
    have "distinct (map fst (handles u))" using ok by (simp add: mgr_inv_def mgr_ok_def places_ok_def)
    then have fresh: "filter (\<lambda>e. fst e \<noteq> hid) (handles s) = handles s" using h by (force simp: filter_id_conv)
    obtain c where c: "handle_ctx hid u = (Ret c, u)" by (simp add: handle_ctx_def)
    obtain r2 v where st: "scan_statement rt c b u = (r2, v)" by fastforce
    note v = only_oci_mgr [OF movesD [OF scan_statement_only_oci st]]
    have inv_v: "mgr_inv v" using v(1) ok by simp
    obtain w where w: "release_handle rt hid v = (Ret (), w)" "mgr_ok (map snd (pools v)) w" "pools w = pools v"
        "handles w = filter (\<lambda>e. fst e \<noteq> hid) (handles v)"
      using release_ok [of _ v rt hid] inv_v unfolding mgr_inv_def by blast
    have "r2 \<noteq> Stuck" using endsD [OF scan_statement_ends] st by metis
    then show ?thesis
      using run acq own Ret c st w v(2) h fresh inv_v
      by (cases r2) (auto simp: OracleInitGlobal_def scan_session_def bind_def on_throw_def mgr_inv_def)
  next
    case (Throw e)
    then show ?thesis using run acq ok own by (auto simp: OracleInitGlobal_def scan_session_def bind_def on_throw_def)
  next
    case Stuck
    then show ?thesis using endsD [OF Acquire_ends] acq by metis
  qed
qed

lemma define_all_returns: "healthy rt \<Longrightarrow> returns (define_all rt c b h)"
  unfolding define_all_def define_column_def
  by (intro returns_for_each returns_bind checked_returns check_call_returns) simp_all

lemma scan_statement_returns: "healthy rt \<Longrightarrow> returns (scan_statement rt c b)"
  unfolding scan_statement_def tune_statement_def
  by (intro returns_if returns_bind returns_on_throw returns_run_if returns_basic invoke_returns check_call_returns
      checked_returns define_all_returns) simp_all

lemma starts_scan:
  assumes "healthy rt" and b: "b_conn b = None" "b_connection_string b = ''scott/tiger@db''" "b_settings b = default_settings"
  shows "\<exists>st t. OracleInitGlobal D rt b [] [] (init_mgr w) = (Ret st, t)"
proof -
  obtain hid u where acq: "Acquire rt ''scott/tiger@db'' default_settings (init_mgr w) = (Ret hid, u)"
    using Acquire_room [OF mgr_inv_init assms(1) sample_parses, of default_settings] by (fastforce simp: init_mgr_def)
  obtain c where c: "handle_ctx hid u = (Ret c, u)" by (simp add: handle_ctx_def)
  obtain h v where "scan_statement rt c b u = (Ret h, v)"
    using returnsD [OF scan_statement_returns [OF assms(1)]] by blast
  then show ?thesis using b acq c by (simp add: OracleInitGlobal_def scan_session_def bind_def on_throw_def)
qed

lemma sample_scan:
  "\<exists>st t. OracleInitGlobal duckdb_ref (say_rt ''X'') two_columns [] [] (init_mgr (\<lambda>_. ([], []))) = (Ret st, t)"
  by (rule starts_scan [OF say_rt_healthy]) (simp_all add: two_columns_def bind_data_def)

lemma for_each_snoc: "for_each (xs @ [x]) f = bind (for_each xs f) (\<lambda>_. f x)"
proof (induction xs)
  case Nil
  show ?case by (rule ext) (simp add: bind_def split: prod.splits outcome.splits)
qed (simp add: bind_assoc)

text \<open>The slot size of a column, as it is defined and as the fetch computes it back.\<close>

lemma element_size_defined:
  assumes "vector_size_documented D" and "OracleInitGlobal D rt b column_ids projection_ids s = (Ret st, t)"
    and "k < length (column_names b)" and "k < length (oci_sizes b)" and "oci_sizes b ! k \<le> 524287"
  shows "element_size D st k = unat (define_size b k)" and "unat (buffer_sizes st ! k) = unat (define_size b k) * 2048"
proof -
  have D: "VectorSize D = 2048" using assms(1) by (simp add: vector_size_documented_def)
  have "buffer_sizes st ! k = define_size b k * 2048" using OracleInitGlobal_state [OF assms(2)] assms(3) by (simp add: D)
  then show buf: "unat (buffer_sizes st ! k) = unat (define_size b k) * 2048"
    using buffer_no_wrap [OF define_size_bound(1) [OF assms(4,5)]] by simp
  show "element_size D st k = unat (define_size b k)" by (simp add: element_size_def buf D)
qed

text \<open>What the client library knows of the statement of a scan that has started.\<close>

definition defined_upto :: "'w block_view \<Rightarrow> OracleBindData \<Rightarrow> handle option \<Rightarrow> nat \<Rightarrow> ('w, 'z) ocist_scheme \<Rightarrow> bool" where
  "defined_upto v b h j s \<longleftrightarrow> fst (bcur v (server s) h) = b_query b \<and>
     bsizes v (server s) h = map (\<lambda>k. unat (define_size b k)) [0..<j]"

lemma yields_define_column:
  assumes doc: "blocks_documented rt v" and s: "defined_upto v b h j s"
  shows "yields (define_column rt err h b j) () (defined_upto v b h (Suc j)) s"
proof -
  have ok: "ok_status (status (fst (oci rt (DefineByPos h (j + 1) n ty) w)))" "ok_status (status (fst (oci rt (DefineArrayOfStruct d n) w)))"
    for n ty d w by (rule blocks_ok [OF doc], simp)+
  have len: "j = length (bsizes v (server s) h)" using s by (simp add: defined_upto_def)
  show ?thesis
    using s define_facts(3,4) [OF doc len] define_facts(5,6) [OF doc]
    by (simp add: yields_def define_column_def check_call_def bind_def checked_run [OF ok(1) [simplified]] checked_run [OF ok(2)] defined_upto_def)
qed

lemma yields_define_all:
  assumes "blocks_documented rt v" and "defined_upto v b h 0 s"
  shows "yields (define_all rt c b h) () (defined_upto v b h (length (column_names b))) s"
proof -
  have "yields (for_each [0..<j] (define_column rt (errhp c) h b)) () (defined_upto v b h j) s" for j
  proof (induction j)
    case 0
    show ?case using assms(2) by (simp add: yields_def)
  next
    case (Suc j)
    from yields_bind [OF Suc yields_define_column [OF assms(1)]]
    show ?case by (simp add: for_each_snoc)
  qed
  then show ?thesis by (simp add: define_all_def)
qed

lemma scan_statement_defines:
  assumes doc: "blocks_documented rt v" and "need_reprepare b" and run: "scan_statement rt c b s = (Ret h, t)"
  shows "defined_upto v b h (length (column_names b)) t"
proof -
  have healthy: "healthy rt" using doc by (simp add: blocks_documented_def)
  obtain r s1 where alloc: "checked rt (HandleAlloc HTYPE_STMT) (errhp c) ''Failed to allocate OCI statement handle'' s = (Ret r, s1)"
      and body: "bind (tune_statement rt (out_handle r) (b_settings b)) (\<lambda>_.
           bind (check_call rt (StmtPrepare (out_handle r) (b_query b)) (errhp c) ''Failed to prepare OCI statement'') (\<lambda>_.
           bind (define_all rt c b (out_handle r)) (\<lambda>_. return (out_handle r)))) s1 = (Ret h, t)"
    using run assms(2) by (auto simp: scan_statement_def bind_Ret_iff [of "checked _ _ _ _"] on_throw_Ret)
  let ?h = "out_handle r"
  have ok: "ok_status (status (fst (oci rt (StmtPrepare ?h (b_query b)) w)))" for w by (rule blocks_ok [OF doc]) simp
  have prep: "yields (check_call rt (StmtPrepare ?h (b_query b)) (errhp c) msg) () (defined_upto v b ?h 0) u" for msg and u :: "('a, 'b) ocist_scheme"
    by (rule yields_check_call [OF ok]) (simp add: defined_upto_def define_facts(1,2) [OF doc])
  obtain u where "tune_statement rt ?h (b_settings b) s1 = (Ret (), u)"
    using body by (auto simp: bind_Ret_iff [of "tune_statement _ _ _"])
  then have "yields (bind (tune_statement rt ?h (b_settings b)) (\<lambda>_.
           bind (check_call rt (StmtPrepare ?h (b_query b)) (errhp c) ''Failed to prepare OCI statement'') (\<lambda>_.
           bind (define_all rt c b ?h) (\<lambda>_. return ?h)))) ?h (defined_upto v b ?h (length (column_names b))) s1"
    by (intro yields_bind [OF yieldsI [where P = "\<lambda>_. True"]] yields_bind [OF prep] yields_bind [OF yields_define_all [OF doc]] yields_return)
      simp_all
  then show ?thesis using body by (simp add: yields_def)
qed

section \<open>Properties\<close>

text \<open>C10: A scan comes to an end with every row: on a client library whose statements and array fetches behave as
  documented, after \<open>OracleInitGlobal\<close> has prepared the query and defined its columns (of fewer than 2^19 characters),
  DuckDB's loop over \<open>OracleQueryFunction\<close> ends after at most \<open>n div 2048 + 2\<close> calls on an answer of \<open>n\<close> rows, and the
  chunks are together the rows of the answer, in order and each once, every cell read from its buffer.\<close>

theorem scan_returns_every_row:
  assumes "vector_size_documented D" and "blocks_documented rt v" and "need_reprepare b"
    and "length (oci_sizes b) = length (column_names b)" and "\<forall>n \<in> set (oci_sizes b). n \<le> 524287"
    and "OracleInitGlobal D rt b column_ids projection_ids s = (Ret st, t)"
    and "\<forall>row \<in> set (banswer v (b_query b)). length row = length (column_names b)"
    and "length (banswer v (b_query b)) div 2048 + 2 \<le> k"
  shows "\<exists>u. run_scan D rt types k st t = (Ret (map (render_row D st types) (banswer v (b_query b))), u)"
proof -
  have D: "0 < VectorSize D" "unat (VectorSize D) = 2048" using assms(1) by (simp_all add: vector_size_documented_def)
  have st: "length (buffer_sizes st) = length (column_names b)" "\<not> s_executed st" "\<not> s_finished st"
    using OracleInitGlobal_state [OF assms(6)] by simp_all
  obtain c u where "scan_statement rt c b u = (Ret (s_stmt st), t)"
    using assms(6) by (auto simp: OracleInitGlobal_def bind_Ret_iff on_throw_Ret)
  from scan_statement_defines [OF assms(2,3) this]
  have known: "fst (bcur v (server t) (s_stmt st)) = b_query b"
      "bsizes v (server t) (s_stmt st) = map (\<lambda>k. unat (define_size b k)) [0..<length (column_names b)]"
    by (simp_all add: defined_upto_def)
  have "element_size D st j = unat (define_size b j)" if "j < length (column_names b)" for j
    using element_size_defined(1) [OF assms(1,6) that] assms(4,5) that by simp
  then have "bsizes v (server t) (s_stmt st) = element_sizes D st" by (simp add: known(2) element_sizes_def st(1))
  moreover have "pending v st t = banswer v (b_query b)" using known(1) st(2) by (simp add: pending_def)
  ultimately show ?thesis using run_scan_rows [OF assms(2) _ st(3) _ D(1), of t k types] assms(7,8) D(2) st(1) by simp
qed

text \<open>A server that answers every query with one row of one column; for a handle, a world has the query, the number of rows
  given, that of the last fetch, and the slot sizes.\<close>

type_synonym smith_world = "handle option \<Rightarrow> string \<times> nat \<times> nat \<times> nat list"

definition smith_reply :: oci_reply where
  "smith_reply = ok_reply\<lparr>out_cols := [\<lparr>mem_bytes = ''SMITH'', mem_ind = [0], mem_len = [5]\<rparr>]\<rparr>"

definition smith_oci :: "oci_call \<Rightarrow> smith_world \<Rightarrow> oci_reply \<times> smith_world" where
  "smith_oci c w = (case c of
     StmtPrepare h q \<Rightarrow> (smith_reply, w(h := (q, 1, 0, [])))
   | DefineByPos h k n ty \<Rightarrow> (smith_reply, w(h := (case w h of (q, g, f, sz) \<Rightarrow> (q, g, f, sz @ [n]))))
   | StmtExecute svc h n m \<Rightarrow> (smith_reply, w(h := (case w h of (q, g, f, sz) \<Rightarrow> (q, 0, f, sz))))
   | StmtFetch h n \<Rightarrow> (if 1 - fst (snd (w h)) < n then smith_reply\<lparr>status := OCI_NO_DATA\<rparr> else smith_reply,
       w(h := (case w h of (q, g, f, sz) \<Rightarrow> (q, g + min n (1 - g), min n (1 - g), sz))))
   | AttrGetStmt h a \<Rightarrow> (smith_reply\<lparr>out_num := int (fst (snd (snd (w h))))\<rparr>, w)
   | _ \<Rightarrow> (smith_reply, w))"

definition smith_rt :: "smith_world rt" where
  "smith_rt = \<lparr> oci = smith_oci, wakeups = 0, fuel = 0 \<rparr>"

definition smith_view :: "smith_world block_view" where
  "smith_view = \<lparr> bcur = (\<lambda>w h. (fst (w h), drop (fst (snd (w h))) [[Some ''SMITH'']])), bfetched = (\<lambda>w h. fst (snd (snd (w h)))),
     bsizes = (\<lambda>w h. snd (snd (snd (w h)))), banswer = (\<lambda>_. [[Some ''SMITH'']]) \<rparr>"

lemma smith_reply_simps [simp]: "status smith_reply = OCI_SUCCESS"
  by (simp add: smith_reply_def)

lemma smith_healthy: "healthy smith_rt"
  unfolding healthy_def smith_rt_def smith_oci_def by (auto split: oci_call.split)

lemma smith_documented: "blocks_documented smith_rt smith_view"
proof -
  have slot: "slot_text n (col_at smith_reply 0) 0 = Some ''SMITH''" for n
    by (simp add: slot_text_def col_at_def smith_reply_def at_or_def)
  have col: "col_at (smith_reply\<lparr>status := st\<rparr>) = col_at smith_reply" for st by (simp add: fun_eq_iff col_at_def)
  have one: "block_holds sizes (smith_reply\<lparr>status := st\<rparr>) (take n (drop g [[Some ''SMITH'']]))" for sizes n g st
    using slot by (cases n; cases g) (auto simp: block_holds_def col)
  have eq: "smith_reply\<lparr>status := OCI_SUCCESS\<rparr> = smith_reply" by (simp add: smith_reply_def)
  have same: "block_holds sizes smith_reply (take n (drop g [[Some ''SMITH'']]))" for sizes n g
    by (rule one [of sizes OCI_SUCCESS, unfolded eq])
  have whole: "take (Suc 0) (drop g [[Some ''SMITH'']]) = drop g [[Some ''SMITH'']]" for g by (cases g) auto
  have all: "block_holds sizes (smith_reply\<lparr>status := st\<rparr>) (drop g [[Some ''SMITH'']])" for sizes g st
    using one [of sizes st "Suc 0" g] by (simp only: whole)
  have gone: "drop (g + min n (1 - g)) [[Some ''SMITH'']] = drop n (drop g [[Some ''SMITH'']])" for n g
    by (cases n; cases g) auto
  have "prepares_blocks smith_rt smith_view"
    by (simp add: prepares_blocks_def smith_rt_def smith_oci_def smith_view_def case_prod_beta)
  moreover have "fetches_blocks smith_rt smith_view"
    unfolding fetches_blocks_def
    by (auto simp: smith_rt_def smith_oci_def smith_view_def Let_def case_prod_beta one all same gone add.commute)
  ultimately show ?thesis using smith_healthy by (simp add: blocks_documented_def)
qed

definition one_name :: OracleBindData where
  "one_name = bind_data ''scott/tiger@db'' ''SELECT ENAME FROM EMP'' default_settings
     [\<lparr>d_name = ''ENAME'', d_type = SQLT_CHR, d_precision = 0, d_scale = 0, d_char_len = 10\<rparr>]"

theorem scan_returns_every_row_witness:
  "\<exists>st t u. OracleInitGlobal duckdb_ref smith_rt one_name [] [] (init_mgr (\<lambda>_. ([], 0, 0, []))) = (Ret st, t) \<and>
     run_scan duckdb_ref smith_rt [VARCHAR] 2 st t = (Ret [[Val (VStr ''SMITH'')]], u)"
proof -
  have b: "b_conn one_name = None" "b_connection_string one_name = ''scott/tiger@db''" "b_settings one_name = default_settings"
    "need_reprepare one_name" "oci_sizes one_name = [10]" "column_names one_name = [''ENAME'']"
    by (simp_all add: one_name_def bind_data_def need_reprepare_def column_size_def)
  obtain st t where run: "OracleInitGlobal duckdb_ref smith_rt one_name [] [] (init_mgr (\<lambda>_. ([], 0, 0, []))) = (Ret st, t)"
    using starts_scan [OF smith_healthy b(1-3)] by blast
  have "length (buffer_sizes st) = 1" "column_mapping st = []"
    using OracleInitGlobal_state [OF run] b(6) by (simp_all add: scan_mapping_def)
  then have row: "render_row duckdb_ref st [VARCHAR] [Some ''SMITH''] = [Val (VStr ''SMITH'')]"
    by (simp add: render_row_def render_cell_def buffer_of_def read_cell_def)
  have "\<exists>u. run_scan duckdb_ref smith_rt [VARCHAR] 2 st t =
      (Ret (map (render_row duckdb_ref st [VARCHAR]) (banswer smith_view (b_query one_name))), u)"
    by (rule scan_returns_every_row [OF duckdb_ref_documented(11) smith_documented b(4) _ _ run])
      (simp_all add: b smith_view_def)
  then show ?thesis using run by (auto simp: smith_view_def row)
qed

text \<open>C38: A scan without projection reads every column from its own buffer exactly when no two columns of the query have
  the same name: the buffer is looked up by name, so of two columns of one name both show the first.\<close>

theorem buffers_are_found_by_name:
  assumes "column_names b = original_names b"
  shows "(\<forall>ids. set ids \<subseteq> {..<length (original_names b)} \<longrightarrow> map_columns b ids = ids) \<longleftrightarrow> distinct (original_names b)"
proof -
  let ?ns = "original_names b"
  have here: "index_of (?ns ! i) ?ns = Some i \<longleftrightarrow> ?ns ! i \<notin> set (take i ?ns)" if "i < length ?ns" for i
    using that by (simp add: index_of_Some_iff)
  have "map_columns b ids = ids" if "distinct ?ns" "set ids \<subseteq> {..<length ?ns}" for ids
  proof (rule nth_equalityI)
    show "length (map_columns b ids) = length ids" by (simp add: map_columns_def)
    fix i assume "i < length (map_columns b ids)"
    then have i: "i < length ids" by (simp add: map_columns_def)
    then have id: "ids ! i < length ?ns" using that(2) by (auto simp: subset_iff)
    then have "?ns ! (ids ! i) \<notin> set (take (ids ! i) ?ns)"
      using that(1) by (auto simp: in_set_conv_nth nth_eq_iff_index_eq)
    then show "map_columns b ids ! i = ids ! i"
      using i id here [OF id] assms by (simp add: map_columns_def nth_enumerate_eq map_column_def)
  qed
  moreover have "distinct ?ns" if all: "\<forall>ids. set ids \<subseteq> {..<length ?ns} \<longrightarrow> map_columns b ids = ids"
  proof (rule ccontr)
    assume "\<not> distinct ?ns"
    then obtain i j where ij: "i < j" "j < length ?ns" "?ns ! i = ?ns ! j"
      by (auto simp: distinct_conv_nth) (metis linorder_neqE_nat)
    then have "?ns ! j \<in> set (take j ?ns)" by (auto simp: in_set_conv_nth)
    then have "index_of (?ns ! j) ?ns \<noteq> Some j" using here [OF ij(2)] by simp
    moreover have "index_of (?ns ! j) ?ns \<noteq> None" using ij(2) by (simp add: index_of_None_iff)
    ultimately have "map_column b 0 j \<noteq> j" using ij(2) assms by (auto simp: map_column_def)
    then have "map_columns b [j] \<noteq> [j]" by (simp add: map_columns_def)
    then show False using all ij(2) by auto
  qed
  ultimately show ?thesis by blast
qed

theorem buffers_are_found_by_name_witness:
  "\<not> (\<forall>ids. set ids \<subseteq> {..<2} \<longrightarrow> map_columns (two_columns\<lparr>column_names := [''X'', ''X''], original_names := [''X'', ''X'']\<rparr>) ids = ids)"
  using buffers_are_found_by_name [of "two_columns\<lparr>column_names := [''X'', ''X''], original_names := [''X'', ''X'']\<rparr>"]
  by (simp add: numeral_2_eq_2)

text \<open>C39: A projection mixes up the buffer types: after a pushdown that keeps only the columns \<open>ids\<close>, the define type of
  the \<open>k\<close>th one is taken from the \<open>k\<close>th column of the whole query, so a \<open>BLOB\<close> that moves into the place of another
  column is fetched as text.\<close>

theorem projected_blob_is_defined_as_text:
  assumes "enable_pushdown (b_settings b)" and "OraclePushdownComplexFilter D ids b es = (b', rest, cols)"
    and "\<forall>i \<in> set ids. i < length (original_names b)" and "k < length ids"
    and "original_types b ! (ids ! k) = BLOB" and "original_types b ! k \<noteq> BLOB"
  shows "column_names b' ! k = original_names b ! (ids ! k) \<and> oci_types b' ! k = oci_types b ! (ids ! k) \<and>
    define_type b' k = SQLT_STR"
proof -
  have ne: "ids \<noteq> []" using assms(4) by auto
  have same: "filter (\<lambda>i. i < length (original_names b)) ids = ids" using assms(3) by (simp add: filter_id_conv)
  have "column_names b' = map ((!) (original_names b)) ids" "oci_types b' = map ((!) (oci_types b)) ids"
      "original_types b' = original_types b"
    using assms(1,2) ne same by (auto simp: OraclePushdownComplexFilter_def Let_def projected_def split: prod.splits)
  then show ?thesis using assms(4,6) by (auto simp: define_type_def split: LogicalType.split)
qed

definition text_and_blob :: OracleBindData where
  "text_and_blob = bind_data ''scott/tiger@db'' ''SELECT * FROM DOCS'' default_settings
     [\<lparr>d_name = ''NAME'', d_type = SQLT_CHR, d_precision = 0, d_scale = 0, d_char_len = 30\<rparr>,
      \<lparr>d_name = ''DATA'', d_type = SQLT_BLOB, d_precision = 0, d_scale = 0, d_char_len = 0\<rparr>]"

theorem projected_blob_is_defined_as_text_witness:
  "\<exists>b' rest cols. OraclePushdownComplexFilter duckdb_ref [1] text_and_blob [] = (b', rest, cols) \<and>
     oci_types b' ! 0 = SQLT_BLOB \<and> define_type text_and_blob 1 = SQLT_BIN \<and> define_type b' 0 = SQLT_STR"
proof -
  obtain b' rest cols where run: "OraclePushdownComplexFilter duckdb_ref [1] text_and_blob [] = (b', rest, cols)"
    by (metis prod.collapse)
  have "enable_pushdown (b_settings text_and_blob)" "original_types text_and_blob = [VARCHAR, BLOB]"
      "oci_types text_and_blob = [SQLT_CHR, SQLT_BLOB]" "length (original_names text_and_blob) = 2"
    by (simp_all add: text_and_blob_def bind_data_def default_settings_def column_type_def)
  then show ?thesis
    using projected_blob_is_defined_as_text [OF _ run, of 0] run by (simp add: define_type_def)
qed

text \<open>C37: The buffers of a scan hold every row: for columns of fewer than 2^19 characters the product of slot size and
  vector size does not wrap around 32 bits, the slot size that the fetch loop computes back from the
  buffer is the one that was defined, and the slot of every row lies inside the buffer.\<close>

theorem scan_slots_fit:
  assumes "vector_size_documented D" and "OracleInitGlobal D rt b column_ids projection_ids s = (Ret st, t)"
    and "k < length (column_names b)" and "k < length (oci_sizes b)" and "oci_sizes b ! k \<le> 524287" and "row < 2048"
  shows "element_size D st k = unat (define_size b k) \<and>
    row * element_size D st k + element_size D st k \<le> unat (buffer_sizes st ! k)"
proof -
  have size: "element_size D st k = unat (define_size b k)" and buf: "unat (buffer_sizes st ! k) = unat (define_size b k) * 2048"
    using element_size_defined [OF assms(1-5)] by simp_all
  have "(row + 1) * unat (define_size b k) \<le> 2048 * unat (define_size b k)" using assms(6) by (intro mult_le_mono1) simp
  then show ?thesis unfolding size buf by (simp add: algebra_simps)
qed

theorem scan_slots_fit_witness:
  "\<exists>st t. OracleInitGlobal duckdb_ref (say_rt ''X'') two_columns [] [] (init_mgr (\<lambda>_. ([], []))) = (Ret st, t) \<and>
     element_size duckdb_ref st 1 = 4000 \<and> 2047 * element_size duckdb_ref st 1 + element_size duckdb_ref st 1 \<le> unat (buffer_sizes st ! 1)"
proof -
  obtain st t where run: "OracleInitGlobal duckdb_ref (say_rt ''X'') two_columns [] [] (init_mgr (\<lambda>_. ([], []))) = (Ret st, t)"
    using sample_scan by blast
  have "length (column_names two_columns) = 2" "oci_sizes two_columns = [4000, 30]" "define_size two_columns 1 = 4000"
    by (simp_all add: two_columns_def bind_data_def column_size_def define_size_def word_less_alt)
  then show ?thesis
    using scan_slots_fit [OF duckdb_ref_documented(11) run, of 1 2047] run by (simp add: word_le_nat_alt)
qed

text \<open>C36: Starting a scan takes exactly one session: when \<open>OracleInitGlobal\<close> returns, the handle of the scan is
  the only new one, and when it throws there is none; the manager's invariant holds either way.\<close>

theorem scan_takes_one_session:
  assumes "mgr_inv s" and "b_conn b = None" and "OracleInitGlobal D rt b column_ids projection_ids s = (r, t)"
  shows "mgr_inv t \<and> (case r of
     Ret st \<Rightarrow> \<exists>h. handles t = (s_conn st, h) # handles s
   | Throw e \<Rightarrow> handles t = handles s
   | Stuck \<Rightarrow> False)"
  using assms by (rule OracleInitGlobal_session)

theorem scan_takes_one_session_witness:
  "\<exists>st t h. OracleInitGlobal duckdb_ref (say_rt ''X'') two_columns [] [] (init_mgr (\<lambda>_. ([], []))) = (Ret st, t) \<and>
     mgr_inv t \<and> handles t = [(s_conn st, h)]"
proof -
  obtain st t where run: "OracleInitGlobal duckdb_ref (say_rt ''X'') two_columns [] [] (init_mgr (\<lambda>_. ([], []))) = (Ret st, t)"
    using sample_scan by blast
  have "b_conn two_columns = None" by (simp add: two_columns_def bind_data_def)
  from scan_takes_one_session [OF mgr_inv_init this run] show ?thesis using run by (auto simp: init_mgr_def)
qed

end
