(* ===== verification/WriteBind.thy ===== *)
theory WriteBind
  imports Scan
begin

text \<open>
  \<open>COPY ... TO\<close> an Oracle table, the part before the data (\<open>OracleWriteBind\<close>,
  \<open>OracleWriteInitGlobal\<close> and \<open>OracleWriteGlobalState\<close>, \<open>oracle_write.cpp\<close>): the options, the search
  for the table and its columns in the dictionary, and the \<open>INSERT\<close> statement. The hash maps of the search are
  maps; \<open>pick\<close> is what the loop over the rows of the dictionary carries along.
\<close>

section \<open>Bind data and options\<close>

record OracleWriteBindData =
  w_table_name :: string
  w_connection_string :: string
  w_schema_name :: string
  w_object_name :: string
  w_column_names :: "string list"
  w_column_types :: "LogicalType list"
  w_oracle_types :: "string list"

definition equal_write_bind :: "OracleWriteBindData \<Rightarrow> OracleWriteBindData \<Rightarrow> bool" where
  "equal_write_bind a b \<longleftrightarrow> w_table_name a = w_table_name b \<and> w_connection_string a = w_connection_string b"

definition check_options :: "'v duckdb \<Rightarrow> (string \<times> 'v list) list \<Rightarrow> exn + unit" where
  "check_options D options =
     (case find (\<lambda>opt. Lower D (fst opt) \<noteq> ''connection_string'' \<and> Lower D (fst opt) \<noteq> ''table'') options of
        Some opt \<Rightarrow> Inl (BinderException (Format D ''Unrecognized option for Oracle COPY: %s'' [fst opt]))
      | None \<Rightarrow> Inr ())"

text \<open>\<open>CopyInfo::options\<close>; DuckDB's map finds keys whatever their case, which the fallback of the code gives for a
  map that does not.\<close>

definition find_option :: "'v duckdb \<Rightarrow> (string \<times> 'v list) list \<Rightarrow> string \<Rightarrow> 'v list option" where
  "find_option D options key = (case map_of options key of
     Some vs \<Rightarrow> Some vs
   | None \<Rightarrow> (case find (\<lambda>opt. Lower D (fst opt) = key) options of
       Some opt \<Rightarrow> map_of options (fst opt)
     | None \<Rightarrow> None))"

definition option_text :: "'v duckdb \<Rightarrow> (string \<times> 'v list) list \<Rightarrow> string \<Rightarrow> string \<Rightarrow> exn + string" where
  "option_text D options key old = (case find_option D options key of
     None \<Rightarrow> Inr old
   | Some [] \<Rightarrow> Inl (EmptyFront D)
   | Some (v # vs) \<Rightarrow> Inr (ToString D v))"

definition parse_target ::
  "'v duckdb \<Rightarrow> (string \<times> 'v list) list \<Rightarrow> string \<Rightarrow> string list \<Rightarrow> LogicalType list \<Rightarrow> exn + OracleWriteBindData" where
  "parse_target D options file_path nms types =
     bindE (check_options D options) (\<lambda>_.
     bindE (option_text D options ''connection_string'' []) (\<lambda>connection_string.
     bindE (option_text D options ''table'' file_path) (\<lambda>target_table.
     let parts = SplitString D target_table ''.''
     in if target_table = [] then
          Inl (BinderException ''Oracle COPY TO requires a table name (use TO 'table' or TABLE 'table')'')
        else Inr \<lparr> w_table_name = target_table, w_connection_string = connection_string,
          w_schema_name = (if length parts = 2 then parts ! 0 else []),
          w_object_name = (if length parts = 2 then parts ! 1 else target_table),
          w_column_names = nms, w_column_types = types, w_oracle_types = replicate (length nms) ''VARCHAR2'' \<rparr>)))"

section \<open>The table in the dictionary\<close>

definition metadata_query :: "string \<Rightarrow> string \<Rightarrow> string" where
  "metadata_query schema object =
     (let schema_filter = (if schema = [] then ''owner = SYS_CONTEXT('USERENV', 'CURRENT_SCHEMA')''
                           else ''owner = upper('' @ [CHR 0x27] @ schema @ [CHR 0x27] @ '')'');
          table_filter = ''(table_name = '' @ [CHR 0x27] @ object @ [CHR 0x27] @ '' OR table_name = upper('' @
            [CHR 0x27] @ object @ [CHR 0x27] @ ''))''
      in ''SELECT owner, table_name, column_name, data_type FROM all_tab_columns WHERE '' @
         schema_filter @ '' AND '' @ table_filter @ '' ORDER BY owner, table_name, column_id'')"

record pick =
  best_table :: string
  best_owner :: string
  found_exact :: bool
  type_map :: "string \<rightharpoonup> string"
  name_map :: "string \<rightharpoonup> string"

definition no_pick :: pick where
  "no_pick = \<lparr> best_table = [], best_owner = [], found_exact = False, type_map = Map.empty, name_map = Map.empty \<rparr>"

definition choose_table :: "string \<Rightarrow> string \<Rightarrow> string \<Rightarrow> pick \<Rightarrow> pick option" where
  "choose_table object own tab p =
     (let p = (if best_table p = [] then p\<lparr>best_table := tab, best_owner := own\<rparr> else p)
      in if tab \<noteq> best_table p then
           (if tab = object \<and> \<not> found_exact p then
              Some (p\<lparr>best_table := tab, best_owner := own, type_map := Map.empty, name_map := Map.empty, found_exact := True\<rparr>)
            else if found_exact p then None
            else Some p)
         else Some p)"

text \<open>\<open>None\<close> is \<open>continue\<close>.\<close>

definition pick_row :: "'v duckdb \<Rightarrow> string \<Rightarrow> pick \<Rightarrow> string list \<Rightarrow> pick" where
  "pick_row D object p row =
     (if length row < 4 then p
      else (case choose_table object (row ! 0) (row ! 1) p of
          None \<Rightarrow> p
        | Some p \<Rightarrow>
            let p = (if row ! 1 = object then p\<lparr>found_exact := True\<rparr> else p)
            in if row ! 1 = best_table p then
                 p\<lparr>type_map := (type_map p)(row ! 2 \<mapsto> row ! 3), name_map := (name_map p)(Upper D (row ! 2) \<mapsto> row ! 2)\<rparr>
               else p))"

definition pick_table :: "'v duckdb \<Rightarrow> string \<Rightarrow> string list list \<Rightarrow> pick" where
  "pick_table D object rws = foldl (pick_row D object) no_pick rws"

definition actual_column :: "'v duckdb \<Rightarrow> pick \<Rightarrow> string \<Rightarrow> string" where
  "actual_column D p nm = (case name_map p (Upper D nm) of
     Some actual \<Rightarrow> actual
   | None \<Rightarrow> (if type_map p nm \<noteq> None then nm else []))"

definition use_pick :: "'v duckdb \<Rightarrow> pick \<Rightarrow> OracleWriteBindData \<Rightarrow> OracleWriteBindData" where
  "use_pick D p d =
     (let nms = w_column_names d;
          found = (\<lambda>nm. actual_column D p nm \<noteq> [])
      in d\<lparr>w_object_name := (if best_table p \<noteq> [] then best_table p else w_object_name d),
           w_schema_name := (if best_table p \<noteq> [] \<and> w_schema_name d = [] then best_owner p else w_schema_name d),
           w_column_names := map (\<lambda>nm. if found nm then actual_column D p nm else nm) nms,
           w_oracle_types := map (\<lambda>(nm, ty). case (if found nm then type_map p (actual_column D p nm) else None) of
             Some t \<Rightarrow> t | None \<Rightarrow> ty) (zip nms (w_oracle_types d))\<rparr>)"

text \<open>The temporary connection goes when the block is left; every exception is swallowed.\<close>

definition introspect ::
  "'v duckdb \<Rightarrow> 'w rt \<Rightarrow> OracleWriteBindData \<Rightarrow> (('w, 'z) mgr_scheme, OracleWriteBindData) cpp" where
  "introspect D rt d =
     try_catch
       (bind (Connect rt (w_connection_string d) None) (\<lambda>conn.
        scope_exit
          (bind (Query rt conn (metadata_query (w_schema_name d) (w_object_name d))) (\<lambda>res.
           return (use_pick D (pick_table D (w_object_name d) (rows res)) d)))
          (\<lambda>s. snd (drop_connection rt conn s))))
       (\<lambda>_. return d)"

definition OracleWriteBind ::
  "'v duckdb \<Rightarrow> 'w rt \<Rightarrow> (string \<times> 'v list) list \<Rightarrow> string \<Rightarrow> string list \<Rightarrow> LogicalType list
    \<Rightarrow> (('w, 'z) mgr_scheme, OracleWriteBindData) cpp" where
  "OracleWriteBind D rt options file_path nms types =
     bind (liftE (parse_target D options file_path nms types)) (\<lambda>d.
     if w_connection_string d \<noteq> [] then introspect D rt d else return d)"

section \<open>The INSERT statement\<close>

fun insert_columns :: "'v duckdb \<Rightarrow> nat \<Rightarrow> string list \<Rightarrow> string \<Rightarrow> string" where
  "insert_columns D i [] sql = sql"
| "insert_columns D i (nm # nms) sql =
     insert_columns D (Suc i) nms (sql @ (if 0 < i then '', '' else []) @ WriteQuoted D nm (CHR 0x22))"

definition placeholder :: "nat \<Rightarrow> string" where
  "placeholder i = '':'' @ to_string (i + 1)"

definition value_sql :: "'v duckdb \<Rightarrow> string \<Rightarrow> nat \<Rightarrow> string" where
  "value_sql D oracle_type i = (let type = Upper D oracle_type in
     if type = ''DATE'' then ''TO_DATE('' @ placeholder i @ '', 'YYYY-MM-DD HH24:MI:SS')''
     else if has_substr ''TIMESTAMP'' type then ''TO_TIMESTAMP('' @ placeholder i @ '', 'YYYY-MM-DD HH24:MI:SS.FF')''
     else if type = ''SDO_GEOMETRY'' \<or> type = ''MDSYS.SDO_GEOMETRY'' then
       ''SDO_UTIL.FROM_WKTGEOMETRY('' @ placeholder i @ '')''
     else placeholder i)"

fun insert_values :: "'v duckdb \<Rightarrow> nat \<Rightarrow> string list \<Rightarrow> string \<Rightarrow> string" where
  "insert_values D i [] sql = sql"
| "insert_values D i (ty # tys) sql =
     insert_values D (Suc i) tys (sql @ (if 0 < i then '', '' else []) @ value_sql D ty i)"

definition insert_sql :: "'v duckdb \<Rightarrow> OracleWriteBindData \<Rightarrow> string" where
  "insert_sql D d =
     (let n = length (w_column_names d);
          sql = ''INSERT /*+ APPEND_VALUES */ INTO '' @
            (if w_schema_name d \<noteq> [] then WriteQuoted D (w_schema_name d) (CHR 0x22) @ ''.'' else []) @
            WriteQuoted D (w_object_name d) (CHR 0x22) @ '' (''
      in insert_values D 0 (take n (w_oracle_types d))
           (insert_columns D 0 (w_column_names d) sql @ '') VALUES ('') @ '')'')"

section \<open>The global state\<close>

record OracleWriteGlobalState =
  g_conn :: nat
  g_stmt :: "handle option"

text \<open>The constructor. When it throws, the handle to the session is released with the members, but the destructor, which
  frees the statement, does not run.\<close>

definition open_statement :: "'w rt \<Rightarrow> OracleContext \<Rightarrow> string \<Rightarrow> (('w, 'z) ocist_scheme, handle option) cpp" where
  "open_statement rt c query =
     bind (checked rt (HandleAlloc HTYPE_STMT) (errhp c) ''OCIHandleAlloc stmthp'') (\<lambda>r.
     bind (check_call rt (StmtPrepare (out_handle r) query) (errhp c) ''OCIStmtPrepare'') (\<lambda>_.
     return (out_handle r)))"

definition OracleWriteInitGlobal ::
  "'v duckdb \<Rightarrow> 'w rt \<Rightarrow> OracleWriteBindData \<Rightarrow> (('w, 'z) mgr_scheme, OracleWriteGlobalState) cpp" where
  "OracleWriteInitGlobal D rt d =
     bind (Acquire rt (w_connection_string d) default_settings) (\<lambda>hid.
     on_throw
       (bind (handle_ctx hid) (\<lambda>c.
        bind (open_statement rt c (insert_sql D d)) (\<lambda>stmt.
        return \<lparr>g_conn = hid, g_stmt = stmt\<rparr>)))
       (\<lambda>s. snd (release_handle rt hid s)))"

text \<open>\<open>~OracleWriteGlobalState\<close>, then its members.\<close>

definition close_write :: "'w rt \<Rightarrow> OracleWriteGlobalState \<Rightarrow> (('w, 'z) mgr_scheme, unit) cpp" where
  "close_write rt g = bind (modify (free_stmt rt (g_stmt g))) (\<lambda>_. release_handle rt (g_conn g))"

definition OracleWriteFinalize :: "'w rt \<Rightarrow> OracleWriteGlobalState \<Rightarrow> (('w, 'z) mgr_scheme, unit) cpp" where
  "OracleWriteFinalize rt g =
     bind (handle_ctx (g_conn g)) (\<lambda>c. check_call rt (TransCommit (svchp c)) (errhp c) ''OCITransCommit'')"

section \<open>The dictionary as a table\<close>

text \<open>What the search should find, stated over the rows of the dictionary: the table of that very name if there is one,
  else the first one; and of its columns the last one whose name is the same in upper case.\<close>

definition usable :: "string list list \<Rightarrow> string list list" where
  "usable rws = filter (\<lambda>row. 4 \<le> length row) rws"

definition target_table :: "string \<Rightarrow> string list list \<Rightarrow> string" where
  "target_table object rs = (if object \<in> set (map (\<lambda>row. row ! 1) rs) then object else if rs = [] then [] else hd rs ! 1)"

definition target_rows :: "string \<Rightarrow> string list list \<Rightarrow> string list list" where
  "target_rows object rs = filter (\<lambda>row. row ! 1 = target_table object rs) rs"

definition dictionary_column :: "'v duckdb \<Rightarrow> string \<Rightarrow> string list list \<Rightarrow> string \<Rightarrow> string list option" where
  "dictionary_column D object rs nm = find (\<lambda>row. Upper D (row ! 2) = Upper D nm) (rev (target_rows object rs))"

definition described :: "'v duckdb \<Rightarrow> string list list \<Rightarrow> OracleWriteBindData \<Rightarrow> OracleWriteBindData" where
  "described D rs d = (let object = w_object_name d in
     d\<lparr>w_object_name := (if rs = [] then object else target_table object rs),
       w_schema_name := (if rs \<noteq> [] \<and> w_schema_name d = [] then hd (target_rows object rs) ! 0 else w_schema_name d),
       w_column_names := map (\<lambda>nm. case dictionary_column D object rs nm of Some row \<Rightarrow> row ! 2 | None \<Rightarrow> nm) (w_column_names d),
       w_oracle_types := map (\<lambda>(nm, ty). case dictionary_column D object rs nm of Some row \<Rightarrow> row ! 3 | None \<Rightarrow> ty)
         (zip (w_column_names d) (w_oracle_types d))\<rparr>)"

lemma target_rows_snoc:
  "target_rows object (rs @ [row]) =
     (if rs \<noteq> [] \<and> row ! 1 = object \<and> object \<notin> set (map (\<lambda>r. r ! 1) rs) then [row]
      else if row ! 1 = target_table object (rs @ [row]) then target_rows object rs @ [row] else target_rows object rs)"
  by (cases rs) (auto simp: target_rows_def target_table_def filter_empty_conv image_iff)

definition picked :: "'v duckdb \<Rightarrow> string \<Rightarrow> string list list \<Rightarrow> pick \<Rightarrow> bool" where
  "picked D object rs p \<longleftrightarrow> best_table p = target_table object rs \<and>
     (rs \<noteq> [] \<longrightarrow> best_owner p = hd (target_rows object rs) ! 0) \<and>
     found_exact p = (object \<in> set (map (\<lambda>row. row ! 1) rs)) \<and>
     type_map p = map_of (rev (map (\<lambda>row. (row ! 2, row ! 3)) (target_rows object rs))) \<and>
     name_map p = map_of (rev (map (\<lambda>row. (Upper D (row ! 2), row ! 2)) (target_rows object rs)))"

lemma pick_row_picked:
  assumes "picked D object rs p" and "4 \<le> length row" and "row ! 1 \<noteq> []" and "\<forall>r \<in> set rs. r ! 1 \<noteq> []"
  shows "picked D object (rs @ [row]) (pick_row D object p row)"
proof (cases "rs = []")
  case True
  then show ?thesis
    using assms by (auto simp: picked_def pick_row_def choose_table_def Let_def target_table_def target_rows_def)
next
  case False
  then have best: "best_table p \<noteq> []" "target_rows object rs \<noteq> []"
    using assms(1,4) by (cases rs; auto simp: picked_def target_table_def target_rows_def filter_empty_conv)+
  show ?thesis
    using assms False best
    by (auto simp: picked_def pick_row_def choose_table_def Let_def target_rows_snoc target_table_def split: if_splits)
qed

lemma pick_table_picked:
  assumes "\<forall>row \<in> set (usable rws). row ! 1 \<noteq> []"
  shows "picked D object (usable rws) (pick_table D object rws)"
  using assms
proof (induction rws rule: rev_induct)
  case Nil
  then show ?case by (simp add: picked_def usable_def pick_table_def no_pick_def target_table_def target_rows_def)
next
  case (snoc row rws)
  then have IH: "picked D object (usable rws) (pick_table D object rws)" by (simp add: usable_def)
  show ?case
  proof (cases "length row < 4")
    case True
    then show ?thesis using IH by (simp add: usable_def pick_table_def pick_row_def)
  next
    case False
    then show ?thesis
      using pick_row_picked [OF IH, of row] snoc.prems by (simp add: usable_def pick_table_def)
  qed
qed

lemma map_of_find: "map_of (map (\<lambda>x. (f x, g x)) xs) k = map_option g (find (\<lambda>x. f x = k) xs)"
  by (induction xs) auto

lemma find_SomeD: "find P xs = Some x \<Longrightarrow> x \<in> set xs \<and> P x"
  by (induction xs) (auto split: if_splits)

lemma find_sharper: "find P xs = Some x \<Longrightarrow> Q x \<Longrightarrow> (\<And>y. Q y \<Longrightarrow> P y) \<Longrightarrow> find Q xs = Some x"
  by (induction xs) (auto split: if_splits)

lemma find_weaker: "find P xs = None \<Longrightarrow> (\<And>y. Q y \<Longrightarrow> P y) \<Longrightarrow> find Q xs = None"
  by (auto simp: find_None_iff)

lemma picked_columns:
  assumes "picked D object rs p" and "\<forall>row \<in> set rs. row ! 2 \<noteq> []"
  shows "actual_column D p nm = (case dictionary_column D object rs nm of Some row \<Rightarrow> row ! 2 | None \<Rightarrow> [])"
    and "dictionary_column D object rs nm = Some row \<Longrightarrow> row ! 2 \<noteq> [] \<and> type_map p (row ! 2) = Some (row ! 3)"
proof -
  let ?us = "rev (target_rows object rs)"
  have nm: "name_map p k = map_option (\<lambda>row. row ! 2) (find (\<lambda>row. Upper D (row ! 2) = k) ?us)" for k
    using assms(1) by (simp add: picked_def rev_map map_of_find)
  have ty: "type_map p k = map_option (\<lambda>row. row ! 3) (find (\<lambda>row. row ! 2 = k) ?us)" for k
    using assms(1) by (simp add: picked_def rev_map map_of_find)
  have gone: "find (\<lambda>row. Upper D (row ! 2) = Upper D nm) ?us = None \<Longrightarrow> find (\<lambda>row. row ! 2 = nm) ?us = None"
    by (erule find_weaker) simp
  show "actual_column D p nm = (case dictionary_column D object rs nm of Some row \<Rightarrow> row ! 2 | None \<Rightarrow> [])"
    using gone by (auto simp: actual_column_def dictionary_column_def nm ty split: option.split)
  assume row: "dictionary_column D object rs nm = Some row"
  then have find: "find (\<lambda>r. Upper D (r ! 2) = Upper D nm) ?us = Some row" by (simp add: dictionary_column_def)
  then have "row \<in> set rs" "Upper D (row ! 2) = Upper D nm"
    using find_SomeD [OF find] by (auto simp: target_rows_def)
  moreover from this find have "find (\<lambda>r. r ! 2 = row ! 2) ?us = Some row" by (elim find_sharper) auto
  ultimately show "row ! 2 \<noteq> [] \<and> type_map p (row ! 2) = Some (row ! 3)" using assms(2) by (simp add: ty)
qed

lemma use_pick_described:
  assumes "\<forall>row \<in> set (usable rws). row ! 1 \<noteq> [] \<and> row ! 2 \<noteq> []"
  shows "use_pick D (pick_table D (w_object_name d) rws) d = described D (usable rws) d"
proof -
  let ?object = "w_object_name d" and ?rs = "usable rws"
  let ?p = "pick_table D ?object rws"
  have p: "picked D ?object ?rs ?p" using assms by (intro pick_table_picked) simp
  note cols = picked_columns [OF p]
  have best: "best_table ?p = [] \<longleftrightarrow> ?rs = []" "best_table ?p = target_table ?object ?rs"
      "?rs \<noteq> [] \<Longrightarrow> best_owner ?p = hd (target_rows ?object ?rs) ! 0"
    using p assms by (cases ?rs; auto simp: picked_def target_table_def)+
  have name: "(if actual_column D ?p nm \<noteq> [] then actual_column D ?p nm else nm) =
      (case dictionary_column D ?object ?rs nm of Some row \<Rightarrow> row ! 2 | None \<Rightarrow> nm)" for nm
    using cols(1) [of nm] cols(2) [of nm] assms by (auto split: option.split)
  have type: "(case (if actual_column D ?p nm \<noteq> [] then type_map ?p (actual_column D ?p nm) else None) of Some t \<Rightarrow> t | None \<Rightarrow> ty) =
      (case dictionary_column D ?object ?rs nm of Some row \<Rightarrow> row ! 3 | None \<Rightarrow> ty)" for nm ty
    using cols(1) [of nm] cols(2) [of nm] assms by (auto split: option.split)
  show ?thesis
    using best by (simp add: use_pick_def described_def Let_def name type)
qed

section \<open>Properties\<close>

text \<open>C14: \<open>COPY ... TO\<close> writes to the table and the columns that the dictionary has: when the options are good and a
  session is there, the bind data name the table of exactly the given name, else the first one found, its owner when no
  schema was given, and for each column the last column of that table with the same name in upper case, with its
  type; without such a column the name and the type stay.\<close>

theorem copy_target_from_dictionary:
  assumes "parse_target D options file_path nms types = Inr d" and "w_connection_string d \<noteq> []"
    and "Acquire rt (w_connection_string d) default_settings s = (Ret hid, u)"
    and "cursors_documented rt v" and "length (answer v query) < fuel rt"
    and "query = metadata_query (w_schema_name d) (w_object_name d)" and "rs = usable (answer_rows v query)"
    and "\<forall>row \<in> set rs. row ! 1 \<noteq> [] \<and> row ! 2 \<noteq> []"
  shows "\<exists>t. OracleWriteBind D rt options file_path nms types s = (Ret (described D rs d), t)"
proof -
  have con: "Connect rt (w_connection_string d) None s = (Ret (Some hid), u)"
    using assms(3) by (simp add: Connect_def bind_def)
  obtain t where query: "Query rt (Some hid) query u = (Ret \<lparr>columns = names v query, rows = answer_rows v query\<rparr>, t)"
    using Query_run [OF assms(4,5)] unfolding answer_rows_def by blast
  have "use_pick D (pick_table D (w_object_name d) (answer_rows v query)) d = described D rs d"
    using assms(7,8) use_pick_described by blast
  then show ?thesis
    using assms(1,2,6) con query
    by (simp add: OracleWriteBind_def introspect_def try_catch_def bind_def scope_exit_def)
qed

text \<open>A server whose dictionary has a table \<open>EMP\<close> with two columns.\<close>

definition dict_answer :: "string \<Rightarrow> col_mem list list" where
  "dict_answer q = map (map text_cell) [[''SCOTT'', ''EMP'', ''ID'', ''NUMBER''], [''SCOTT'', ''EMP'', ''BORN'', ''DATE'']]"

definition dict_rt :: "(handle option \<Rightarrow> string \<times> col_mem list list) rt" where
  "dict_rt = \<lparr> oci = (\<lambda>c w. case c of AttrGetStmt h a \<Rightarrow> (ok_reply\<lparr>out_num := 4\<rparr>, w) | _ \<Rightarrow> cursor_oci dict_answer c w),
     wakeups = 0, fuel = 3 \<rparr>"

definition dict_v :: "(handle option \<Rightarrow> string \<times> col_mem list list) cursor_view" where
  "dict_v = (cursor_v dict_answer)\<lparr>names := (\<lambda>_. replicate 4 ''C'')\<rparr>"

lemma dict_documented: "cursors_documented dict_rt dict_v"
proof -
  have "statements_documented dict_rt dict_v"
    by (auto simp: statements_documented_def dict_rt_def dict_v_def cursor_v_def cursor_oci_def keeps_cursors_def
        split: oci_call.split)
  moreover have "i < 4 \<Longrightarrow> replicate 4 ''C'' ! i = ''C''" for i :: nat by simp
  then have "names_documented dict_rt dict_v"
    by (simp add: names_documented_def dict_rt_def dict_v_def cursor_v_def cursor_oci_def)
  moreover have "fetches_documented dict_rt dict_v"
    by (auto simp: fetches_documented_def dict_rt_def dict_v_def cursor_v_def cursor_oci_def split: list.split)
  ultimately show ?thesis by (simp add: cursors_documented_def)
qed

lemma dict_healthy: "healthy dict_rt"
  using statement_facts(1) [OF dict_documented] unfolding healthy_def by (metis is_fetch.simps(1))

definition copy_options :: "(string \<times> val list) list" where
  "copy_options = [(''CONNECTION_STRING'', [VStr ''scott/tiger@db''])]"

definition emp_target :: OracleWriteBindData where
  "emp_target = \<lparr> w_table_name = ''emp'', w_connection_string = ''scott/tiger@db'', w_schema_name = [],
     w_object_name = ''emp'', w_column_names = [''id'', ''born'', ''note''], w_column_types = [BIGINT, DATE, VARCHAR],
     w_oracle_types = [''VARCHAR2'', ''VARCHAR2'', ''VARCHAR2''] \<rparr>"

lemma emp_target_parsed:
  "parse_target duckdb_ref copy_options ''emp'' [''id'', ''born'', ''note''] [BIGINT, DATE, VARCHAR] = Inr emp_target"
  by code_simp

theorem copy_target_from_dictionary_witness:
  "\<exists>t. OracleWriteBind duckdb_ref dict_rt copy_options ''emp'' [''id'', ''born'', ''note''] [BIGINT, DATE, VARCHAR]
     (init_mgr (\<lambda>_. ([], []))) =
   (Ret (emp_target\<lparr>w_object_name := ''EMP'', w_schema_name := ''SCOTT'', w_column_names := [''ID'', ''BORN'', ''note''],
     w_oracle_types := [''NUMBER'', ''DATE'', ''VARCHAR2'']\<rparr>), t)"
proof -
  let ?s = "init_mgr (\<lambda>_. ([], []))" and ?rows = "[[''SCOTT'', ''EMP'', ''ID'', ''NUMBER''], [''SCOTT'', ''EMP'', ''BORN'', ''DATE'']]"
  obtain hid u where acq: "Acquire dict_rt ''scott/tiger@db'' default_settings ?s = (Ret hid, u)"
    using Acquire_room [OF mgr_inv_init dict_healthy sample_parses, of default_settings] by (fastforce simp: init_mgr_def)
  have "map (mem_text 4) (map (map text_cell) ?rows) = ?rows" by code_simp
  then have rows: "answer_rows dict_v q = ?rows" for q
    by (simp add: answer_rows_def dict_v_def cursor_v_def dict_answer_def)
  have fuel: "length (answer dict_v q) < fuel dict_rt" for q by (simp add: dict_v_def cursor_v_def dict_answer_def dict_rt_def)
  have cs: "w_connection_string emp_target = ''scott/tiger@db''" by (simp add: emp_target_def)
  have "described duckdb_ref ?rows emp_target = emp_target\<lparr>w_object_name := ''EMP'', w_schema_name := ''SCOTT'',
      w_column_names := [''ID'', ''BORN'', ''note''], w_oracle_types := [''NUMBER'', ''DATE'', ''VARCHAR2'']\<rparr>"
    by code_simp
  moreover have "usable ?rows = ?rows" "\<forall>row \<in> set ?rows. row ! 1 \<noteq> [] \<and> row ! 2 \<noteq> []" by (simp_all add: usable_def)
  ultimately show ?thesis
    using copy_target_from_dictionary [OF emp_target_parsed _ _ dict_documented fuel refl refl, of ?s hid u] acq
    by (simp add: rows cs)
qed

end
