(* ===== verification/WriteSink.thy ===== *)
theory WriteSink
  imports WriteBind
begin

text \<open>
  \<open>COPY ... TO\<close> an Oracle table, the data (\<open>OracleWriteSink\<close>, \<open>OracleWriteLocalState\<close>,
  \<open>oracle_write.cpp\<close>). Each chunk is written into one array buffer per column and inserted by one
  array execution. The vectors indexed by column (\<open>bind_buffers\<close>, \<open>indicator_buffers\<close>, \<open>length_buffers\<close>,
  \<open>binds\<close>, \<open>current_buffer_sizes\<close>), which are always resized together, are one list of records.

  The writes go through \<open>operator[]\<close> and \<open>memcpy\<close>, which check nothing: out of bounds the model is
  \<open>stuck\<close>. \<open>c_addr\<close> is the address of the buffer, new after each growth, and \<open>c_bound\<close> the address and the slot
  size that OCI was last told; an execution reads through these, and through a dangling one it is \<open>stuck\<close>.
  It reads the columns in the order of the buffers; the position in a call of \<open>OCIBindByPos\<close> has no effect on it.
\<close>

section \<open>Chunks and columns\<close>

text \<open>A chunk is its size and its flattened vectors; an invalid row is \<open>None\<close>.\<close>

record 'v chunk =
  chunk_size :: nat
  chunk_cols :: "'v option list list"

record write_col =
  c_buf :: string
  c_ind :: "int list"
  c_len :: "16 word list"
  c_bind :: "handle option"
  c_size :: nat
  c_addr :: nat
  c_bound :: "(nat \<times> nat) option"

definition no_column :: write_col where
  "no_column = \<lparr>c_buf = [], c_ind = [], c_len = [], c_bind = None, c_size = 0, c_addr = 0, c_bound = None\<rparr>"

record OracleWriteLocalState =
  l_conn :: "nat option"
  l_stmt :: "handle option"
  l_cols :: "write_col list"

definition OracleWriteInitLocal :: OracleWriteLocalState where
  "OracleWriteInitLocal = \<lparr>l_conn = None, l_stmt = None, l_cols = []\<rparr>"

section \<open>Writing a column\<close>

definition bind_text :: "'v duckdb \<Rightarrow> 'v \<Rightarrow> string" where
  "bind_text D v = (if TypeOf D v = BLOB then BlobGet D v else ToString D v)"

definition put_ind :: "nat \<Rightarrow> int \<Rightarrow> (write_col, unit) cpp" where
  "put_ind i x = (\<lambda>c. if i < length (c_ind c) then (Ret (), c\<lparr>c_ind := (c_ind c)[i := x]\<rparr>) else (Stuck, c))"

definition put_len :: "nat \<Rightarrow> 16 word \<Rightarrow> (write_col, unit) cpp" where
  "put_len i x = (\<lambda>c. if i < length (c_len c) then (Ret (), c\<lparr>c_len := (c_len c)[i := x]\<rparr>) else (Stuck, c))"

text \<open>\<open>memcpy\<close>\<close>

definition blit :: "nat \<Rightarrow> string \<Rightarrow> string \<Rightarrow> string" where
  "blit off s buf = take off buf @ s @ drop (off + length s) buf"

definition put_bytes :: "nat \<Rightarrow> string \<Rightarrow> (write_col, unit) cpp" where
  "put_bytes off s = (\<lambda>c. if off + length s \<le> length (c_buf c) then (Ret (), c\<lparr>c_buf := blit off s (c_buf c)\<rparr>) else (Stuck, c))"

definition too_large :: exn where
  "too_large = IOException ''Value too large for buffer''"

definition bind_cell :: "'v duckdb \<Rightarrow> nat \<Rightarrow> 'v option \<Rightarrow> (write_col, unit) cpp" where
  "bind_cell D i cv = (case cv of
     None \<Rightarrow> bind (put_ind i (- 1)) (\<lambda>_. put_len i 0)
   | Some v \<Rightarrow>
       bind (put_ind i 0) (\<lambda>_.
       bind (gets c_size) (\<lambda>element_size. let str_val = bind_text D v in
       if element_size < length str_val then throw too_large
       else bind (put_bytes (i * element_size) str_val) (\<lambda>_. put_len i (of_nat (length str_val))))))"

definition BindColumn :: "'v duckdb \<Rightarrow> 'v option list \<Rightarrow> (write_col, unit) cpp" where
  "BindColumn D cells = for_each (enumerate 0 cells) (\<lambda>(i, cv). bind_cell D i cv)"

section \<open>Sizes\<close>

definition max_len :: "'v duckdb \<Rightarrow> 'v option list \<Rightarrow> nat" where
  "max_len D cells = fold (\<lambda>cv m. case cv of None \<Rightarrow> m
     | Some v \<Rightarrow> (if m < length (bind_text D v) then length (bind_text D v) else m)) cells 0"

text \<open>\<open>(size + 3) & ~3\<close>\<close>

definition required_size :: "'v duckdb \<Rightarrow> 'v option list \<Rightarrow> nat" where
  "required_size D cells = (let m = max_len D cells; sz = (if 4096 < m then m + 32 else 4096) in (sz + 3) div 4 * 4)"

definition resize :: "nat \<Rightarrow> 'a \<Rightarrow> 'a list \<Rightarrow> 'a list" where
  "resize n x xs = take n xs @ replicate (n - length xs) x"

definition grow :: "'v duckdb \<Rightarrow> nat \<times> write_col \<Rightarrow> write_col" where
  "grow D = (\<lambda>(required, c). let n = unat (VectorSize D);
     c = (if c_size c < required
          then c\<lparr>c_size := required, c_buf := resize (n * required) (CHR 0x00) (c_buf c), c_addr := c_addr c + 1\<rparr> else c)
     in c\<lparr>c_ind := resize n 0 (c_ind c), c_len := resize n 0 (c_len c)\<rparr>)"

section \<open>Binding and executing\<close>

definition bind_type :: "'v duckdb \<Rightarrow> string \<Rightarrow> sqlt" where
  "bind_type D oracle_type = (let type = Upper D oracle_type in
     if type = ''BLOB'' \<or> type = ''RAW'' then SQLT_LBI else if type = ''CLOB'' then SQLT_LNG else SQLT_CHR)"

text \<open>\<open>static_cast<sb4>\<close> and \<open>static_cast<ub4>\<close> of a size, as the 32 bits that are passed.\<close>

definition bits32 :: "nat \<Rightarrow> nat" where
  "bits32 n = unat (word_of_nat n :: 32 word)"

definition local_ctx :: "OracleWriteLocalState \<Rightarrow> (('w, 'z) mgr_scheme, OracleContext) cpp" where
  "local_ctx l = (case l_conn l of None \<Rightarrow> stuck | Some hid \<Rightarrow> handle_ctx hid)"

definition rebind_column ::
  "'v duckdb \<Rightarrow> 'w rt \<Rightarrow> string list \<Rightarrow> OracleWriteLocalState \<Rightarrow> nat \<times> write_col \<Rightarrow> (('w, 'z) mgr_scheme, write_col) cpp" where
  "rebind_column D rt oracle_types l = (\<lambda>(col_idx, c).
     if length oracle_types \<le> col_idx then stuck
     else bind (local_ctx l) (\<lambda>ctx.
       bind (checked rt (BindByPos (l_stmt l) (col_idx + 1) (bits32 (c_size c)) (bind_type D (oracle_types ! col_idx)))
         (errhp ctx) ''OCIBindByPos'') (\<lambda>r.
       bind (check_call rt (BindArrayOfStruct (out_handle r) (bits32 (c_size c))) (errhp ctx) ''OCIBindArrayOfStruct'') (\<lambda>_.
       return (c\<lparr>c_bind := out_handle r, c_bound := Some (c_addr c, bits32 (c_size c))\<rparr>)))))"

definition rebind ::
  "'v duckdb \<Rightarrow> 'w rt \<Rightarrow> string list \<Rightarrow> OracleWriteLocalState \<Rightarrow> write_col list \<Rightarrow> (('w, 'z) mgr_scheme, write_col list) cpp" where
  "rebind D rt oracle_types l cols = map_each (rebind_column D rt oracle_types l) (enumerate 0 cols)"

definition memory :: "write_col \<Rightarrow> col_mem" where
  "memory c = \<lparr>mem_bytes = c_buf c, mem_ind = c_ind c, mem_len = c_len c\<rparr>"

text \<open>What OCI finds through the binds.\<close>

definition bound_memory :: "write_col \<Rightarrow> (nat \<times> col_mem) option" where
  "bound_memory c = (case c_bound c of
     None \<Rightarrow> None | Some (addr, sz) \<Rightarrow> (if addr = c_addr c then Some (sz, memory c) else None))"

definition ExecuteBatch ::
  "'w rt \<Rightarrow> OracleWriteLocalState \<Rightarrow> write_col list \<Rightarrow> nat \<Rightarrow> (('w, 'z) mgr_scheme, unit) cpp" where
  "ExecuteBatch rt l cols row_count =
     bind (local_ctx l) (\<lambda>ctx.
     if None \<in> set (map bound_memory cols) then stuck
     else check_call rt (StmtExecuteArray (svchp ctx) (l_stmt l) (bits32 row_count) (map (the \<circ> bound_memory) cols))
       (errhp ctx) ''OCIStmtExecute Insert'')"

section \<open>The sink\<close>

text \<open>All chunks of a \<open>COPY\<close> have the same number of columns; with another one the vectors would be read out of
  bounds.\<close>

text \<open>The column records are state of their own: \<open>on_column m c\<close> runs \<open>m\<close> on \<open>c\<close>.\<close>

definition on_column :: "(write_col, unit) cpp \<Rightarrow> write_col \<Rightarrow> ('s, write_col) cpp" where
  "on_column m c = (\<lambda>s. case m c of (Ret _, c') \<Rightarrow> (Ret c', s) | (Throw e, c') \<Rightarrow> (Throw e, s) | (Stuck, c') \<Rightarrow> (Stuck, s))"

definition need_rebind :: "nat list \<Rightarrow> write_col list \<Rightarrow> bool" where
  "need_rebind required cols \<longleftrightarrow> cols = [] \<or> (\<exists>(r, c) \<in> set (zip required cols). c_size c < r)"

definition Sink ::
  "'v duckdb \<Rightarrow> 'w rt \<Rightarrow> string list \<Rightarrow> 'v chunk \<Rightarrow> OracleWriteLocalState
    \<Rightarrow> (('w, 'z) mgr_scheme, OracleWriteLocalState) cpp" where
  "Sink D rt oracle_types ch l = (let row_count = chunk_size ch; vectors = map (take row_count) (chunk_cols ch) in
     if row_count = 0 then return l
     else let required = map (required_size D) vectors;
              cols = (if l_cols l = [] then replicate (length vectors) no_column else l_cols l)
       in if length cols \<noteq> length vectors then stuck
       else bind (if need_rebind required (l_cols l) then rebind D rt oracle_types l (map (grow D) (zip required cols))
                  else return cols) (\<lambda>cols.
         bind (map_each (\<lambda>(cells, c). on_column (BindColumn D cells) c) (zip vectors cols)) (\<lambda>cols.
         bind (ExecuteBatch rt l cols row_count) (\<lambda>_.
         return (l\<lparr>l_cols := cols\<rparr>)))))"

definition OracleWriteSink ::
  "'v duckdb \<Rightarrow> 'w rt \<Rightarrow> OracleWriteBindData \<Rightarrow> OracleWriteGlobalState \<Rightarrow> OracleWriteLocalState \<Rightarrow> 'v chunk
    \<Rightarrow> (('w, 'z) mgr_scheme, OracleWriteLocalState) cpp" where
  "OracleWriteSink D rt d g l ch =
     Sink D rt (w_oracle_types d) ch
       (if l_conn l = None then \<lparr>l_conn = Some (g_conn g), l_stmt = g_stmt g, l_cols = []\<rparr> else l)"

section \<open>Lemmas on columns\<close>

definition col_ok :: "nat \<Rightarrow> write_col \<Rightarrow> bool" where
  "col_ok n c \<longleftrightarrow> length (c_ind c) = n \<and> length (c_len c) = n \<and> length (c_buf c) = n * c_size c"

definition same_place :: "write_col \<Rightarrow> write_col \<Rightarrow> bool" where
  "same_place c c' \<longleftrightarrow> c_size c' = c_size c \<and> c_addr c' = c_addr c \<and> c_bound c' = c_bound c \<and> c_bind c' = c_bind c"

definition sent :: "'v duckdb \<Rightarrow> 'v \<Rightarrow> string" where
  "sent D v = take (length (bind_text D v) mod 65536) (bind_text D v)"

definition holds_cells :: "'v duckdb \<Rightarrow> 'v option list \<Rightarrow> write_col \<Rightarrow> bool" where
  "holds_cells D cells c \<longleftrightarrow> (\<forall>i < length cells.
     slot_text (c_size c) (memory c) i = map_option (sent D) (cells ! i) \<and> unat (c_len c ! i) \<le> c_size c)"

lemma length_blit: "off + length s \<le> length buf \<Longrightarrow> length (blit off s buf) = length buf"
  by (simp add: blit_def)

lemma blit_here: "off + length s \<le> length buf \<Longrightarrow> take (length s) (drop off (blit off s buf)) = s"
  by (simp add: blit_def)

lemma blit_before: "off' + n \<le> off \<Longrightarrow> off \<le> length buf \<Longrightarrow> take n (drop off' (blit off s buf)) = take n (drop off' buf)"
proof -
  assume "off' + n \<le> off" "off \<le> length buf"
  then have "take (n + off') (blit off s buf) = take (n + off') buf" by (simp add: blit_def)
  then show ?thesis by (simp add: take_drop)
qed


lemma put_bytes_run:
  "off + length s \<le> length (c_buf c) \<Longrightarrow> put_bytes off s c = (Ret (), c\<lparr>c_buf := blit off s (c_buf c)\<rparr>)"
  by (simp add: put_bytes_def)

text \<open>The slot of row \<open>i\<close> lies in the buffer.\<close>

lemma slot_inside: "col_ok n c \<Longrightarrow> i < n \<Longrightarrow> m \<le> c_size c \<Longrightarrow> i * c_size c + m \<le> length (c_buf c)"
proof -
  assume "col_ok n c" "i < n" "m \<le> c_size c"
  then have "Suc i * c_size c \<le> n * c_size c" by (intro mult_le_mono1) simp
  then show ?thesis using \<open>col_ok n c\<close> \<open>m \<le> c_size c\<close> by (simp add: col_ok_def)
qed

lemma bind_cell_run:
  assumes "col_ok n c" and "i < n" and "\<And>v. cv = Some v \<Longrightarrow> length (bind_text D v) \<le> c_size c"
  shows "bind_cell D i cv c = (Ret (), case cv of
     None \<Rightarrow> c\<lparr>c_ind := (c_ind c)[i := - 1], c_len := (c_len c)[i := 0]\<rparr>
   | Some v \<Rightarrow> c\<lparr>c_ind := (c_ind c)[i := 0], c_buf := blit (i * c_size c) (bind_text D v) (c_buf c),
       c_len := (c_len c)[i := of_nat (length (bind_text D v))]\<rparr>)"
proof -
  have len: "i < length (c_ind c)" "i < length (c_len c)" using assms(1,2) by (simp_all add: col_ok_def)
  show ?thesis
  proof (cases cv)
    case None
    then show ?thesis using len by (simp add: bind_cell_def bind_def put_ind_def put_len_def)
  next
    case (Some v)
    have "i * c_size c + length (bind_text D v) \<le> length (c_buf c)" using slot_inside [OF assms(1,2) assms(3)] Some by simp
    then show ?thesis
      using Some len assms(3) by (simp add: bind_cell_def bind_def put_ind_def put_len_def put_bytes_run Let_def)
  qed
qed

lemma unat_len16: "unat (of_nat n :: 16 word) = n mod 65536"
  by (simp add: unat_of_nat)

lemma bind_cell_holds:
  assumes ok: "col_ok n c" and i: "length cells < n" and fits: "\<And>v. cv = Some v \<Longrightarrow> length (bind_text D v) \<le> c_size c"
    and old: "holds_cells D cells c"
  shows "\<exists>c'. bind_cell D (length cells) cv c = (Ret (), c') \<and> col_ok n c' \<and> same_place c c' \<and>
    holds_cells D (cells @ [cv]) c'"
proof -
  let ?i = "length cells"
  obtain c' where c': "bind_cell D ?i cv c = (Ret (), c')" using bind_cell_run [OF ok i fits] by blast
  have eq: "c' = (case cv of
     None \<Rightarrow> c\<lparr>c_ind := (c_ind c)[?i := - 1], c_len := (c_len c)[?i := 0]\<rparr>
   | Some v \<Rightarrow> c\<lparr>c_ind := (c_ind c)[?i := 0], c_buf := blit (?i * c_size c) (bind_text D v) (c_buf c),
       c_len := (c_len c)[?i := of_nat (length (bind_text D v))]\<rparr>)"
    using bind_cell_run [OF ok i fits] c' by simp
  have inside: "?i * c_size c + length (bind_text D v) \<le> length (c_buf c)" if "cv = Some v" for v
    using slot_inside [OF ok i fits [OF that]] .
  have here: "slot_text (c_size c') (memory c') ?i = map_option (sent D) cv \<and> unat (c_len c' ! ?i) \<le> c_size c'"
  proof (cases cv)
    case None
    then show ?thesis using ok i by (simp add: eq col_ok_def slot_text_def memory_def at_or_def)
  next
    case (Some v)
    let ?t = "bind_text D v"
    have "take (length ?t mod 65536) (drop (?i * c_size c) (blit (?i * c_size c) ?t (c_buf c))) = take (length ?t mod 65536) ?t"
      using blit_here [OF inside [OF Some]] by (metis min.absorb1 mod_less_eq_dividend take_take)
    moreover have "length ?t mod 65536 \<le> c_size c" using fits [OF Some] mod_less_eq_dividend le_trans by blast
    ultimately show ?thesis
      using Some ok i by (simp add: eq col_ok_def slot_text_def memory_def at_or_def unat_len16 sent_def)
  qed
  have before: "slot_text (c_size c') (memory c') j = slot_text (c_size c) (memory c) j \<and> c_len c' ! j = c_len c ! j"
    if j: "j < ?i" for j
  proof -
    have "unat (c_len c ! j) \<le> c_size c" using old j by (simp add: holds_cells_def)
    moreover have "Suc j * c_size c \<le> ?i * c_size c" using j by (intro mult_le_mono1) simp
    ultimately have "j * c_size c + unat (c_len c ! j) \<le> ?i * c_size c" by simp
    moreover have "?i * c_size c \<le> length (c_buf c)" using slot_inside [OF ok i, of 0] by simp
    ultimately have "take (unat (c_len c ! j)) (drop (j * c_size c) (blit (?i * c_size c) u (c_buf c))) =
        take (unat (c_len c ! j)) (drop (j * c_size c) (c_buf c))" for u
      by (rule blit_before)
    then show ?thesis
      using ok i j by (cases cv) (simp_all add: eq col_ok_def slot_text_def memory_def at_or_def)
  qed
  have "col_ok n c'" "same_place c c'"
    using ok inside by (cases cv; simp add: eq col_ok_def same_place_def length_blit)+
  moreover have "holds_cells D (cells @ [cv]) c'"
    using old here before \<open>same_place c c'\<close> by (auto simp: holds_cells_def nth_append less_Suc_eq same_place_def)
  ultimately show ?thesis using c' by blast
qed

lemma enumerate_snoc: "enumerate 0 (xs @ [x]) = enumerate 0 xs @ [(length xs, x)]"
  by (simp add: enumerate_append_eq)

text \<open>A column whose values fit is written without an error and reads back as what was sent.\<close>

lemma BindColumn_run:
  assumes "col_ok n c" and "length cells \<le> n" and "\<And>v. Some v \<in> set cells \<Longrightarrow> length (bind_text D v) \<le> c_size c"
  shows "\<exists>c'. BindColumn D cells c = (Ret (), c') \<and> col_ok n c' \<and> same_place c c' \<and> holds_cells D cells c'"
  using assms(2,3)
proof (induction cells rule: rev_induct)
  case Nil
  then show ?case using assms(1) by (simp add: BindColumn_def same_place_def holds_cells_def)
next
  case (snoc cv cells)
  have "\<And>v. Some v \<in> set cells \<Longrightarrow> length (bind_text D v) \<le> c_size c" using snoc.prems(2) by simp
  then obtain c1 where c1: "BindColumn D cells c = (Ret (), c1)" "col_ok n c1" "same_place c c1" "holds_cells D cells c1"
    using snoc.IH snoc.prems(1) by auto
  have fits: "length (bind_text D v) \<le> c_size c1" if "cv = Some v" for v
    using snoc.prems(2) [of v] c1(3) that by (simp add: same_place_def)
  have "length cells < n" using snoc.prems(1) by simp
  from bind_cell_holds [OF c1(2) this fits c1(4)] obtain c2 where
      c2: "bind_cell D (length cells) cv c1 = (Ret (), c2)" "col_ok n c2" "same_place c1 c2" "holds_cells D (cells @ [cv]) c2"
    by blast
  have "BindColumn D (cells @ [cv]) c = (Ret (), c2)"
    using c1(1) c2(1) unfolding BindColumn_def enumerate_snoc for_each_snoc by (simp add: bind_def)
  then show ?case using c1(3) c2 by (auto simp: same_place_def)
qed

definition text_len :: "'v duckdb \<Rightarrow> 'v option \<Rightarrow> nat" where
  "text_len D cv = (case cv of None \<Rightarrow> 0 | Some v \<Rightarrow> length (bind_text D v))"

lemma max_len_Max: "max_len D cells = Max (set (0 # map (text_len D) cells))"
proof -
  have "(\<lambda>cv m. case cv of None \<Rightarrow> m | Some v \<Rightarrow> (if m < length (bind_text D v) then length (bind_text D v) else m)) =
      max \<circ> text_len D"
    by (auto simp: fun_eq_iff text_len_def max_def split: option.split)
  then have "max_len D cells = fold (max \<circ> text_len D) cells 0" unfolding max_len_def by simp
  also have "\<dots> = fold max (map (text_len D) cells) 0" by (simp only: fold_map)
  finally show ?thesis by (simp only: Max.set_eq_fold)
qed

lemma max_len_fits: "Some v \<in> set cells \<Longrightarrow> length (bind_text D v) \<le> max_len D cells"
proof -
  assume "Some v \<in> set cells"
  then have "text_len D (Some v) \<in> set (0 # map (text_len D) cells)" by simp
  then have "text_len D (Some v) \<le> max_len D cells" unfolding max_len_Max by (intro Max_ge) simp_all
  then show ?thesis by (simp add: text_len_def)
qed

lemma max_len_bound:
  assumes "\<And>v. Some v \<in> set cells \<Longrightarrow> length (bind_text D v) \<le> b"
  shows "max_len D cells \<le> b"
  unfolding max_len_Max
  by (rule Max.boundedI) (use assms in \<open>auto simp: text_len_def split: option.split\<close>)

lemma required_size_bounds:
  "max_len D cells \<le> required_size D cells" "required_size D cells \<le> max_len D cells + 4099"
  "4 dvd required_size D cells" "4096 \<le> required_size D cells"
  by (auto simp: required_size_def Let_def)

lemma length_resize [simp]: "length (resize n x xs) = n"
  by (simp add: resize_def)

lemma grow_ok:
  assumes "unat (VectorSize D) = n" and "col_ok n c \<or> c = no_column" and "0 < r"
  shows "col_ok n (grow D (r, c)) \<and> r \<le> c_size (grow D (r, c)) \<and> c_size (grow D (r, c)) = max (c_size c) r"
  using assms by (auto simp: grow_def Let_def col_ok_def no_column_def resize_def)

section \<open>Calls of a kind\<close>

definition calls_of :: "(oci_call \<Rightarrow> bool) \<Rightarrow> ('w, 'z) ocist_scheme \<Rightarrow> oci_call list" where
  "calls_of K s = filter K (map fst (trace s))"

definition keeps_calls :: "(oci_call \<Rightarrow> bool) \<Rightarrow> ('w, 'z) ocist_scheme \<Rightarrow> ('w, 'z) ocist_scheme \<Rightarrow> bool" where
  "keeps_calls K s t \<longleftrightarrow> calls_of K t = calls_of K s"

interpretation keeps: state_preorder "keeps_calls K" for K
  by unfold_locales (simp_all add: keeps_calls_def)

fun is_insert :: "oci_call \<Rightarrow> bool" where
  "is_insert (StmtExecuteArray svc h n mems) = True"
| "is_insert _ = False"

fun ends_transaction :: "oci_call \<Rightarrow> bool" where
  "ends_transaction (TransCommit h) = True"
| "ends_transaction (TransRollback h) = True"
| "ends_transaction (SessionEnd h k) = True"
| "ends_transaction _ = False"

definition quiet_kind :: "(oci_call \<Rightarrow> bool) \<Rightarrow> bool" where
  "quiet_kind K \<longleftrightarrow> (\<forall>h. \<not> K (ErrorGet h))"

lemma quiet_kinds [simp]: "quiet_kind is_insert" "quiet_kind ends_transaction"
  by (simp_all add: quiet_kind_def)

lemma call_keeps: "\<not> K c \<Longrightarrow> moves (keeps_calls K) (call rt c)"
  by (rule movesI) (auto simp: call_run keeps_calls_def calls_of_def)

lemma checked_keeps: "quiet_kind K \<Longrightarrow> \<not> K c \<Longrightarrow> moves (keeps_calls K) (checked rt c h msg)"
  unfolding checked_def CheckOCIError_def
  by (intro keeps.moves_bind call_keeps keeps.moves_if keeps.moves_return)
    (auto split: option.split intro!: keeps.moves_bind call_keeps keeps.moves_throw simp: quiet_kind_def)

lemma check_call_keeps: "quiet_kind K \<Longrightarrow> \<not> K c \<Longrightarrow> moves (keeps_calls K) (check_call rt c h msg)"
  unfolding check_call_def by (intro keeps.moves_bind checked_keeps keeps.moves_return)

lemma wp_moves: "wp m Q E s \<Longrightarrow> moves R m \<Longrightarrow> wp m (\<lambda>a t. Q a t \<and> R s t) (\<lambda>e t. E e t \<and> R s t) s"
  by (auto simp: wp_def dest: movesD split: prod.splits outcome.splits)

section \<open>Lemmas on the sink\<close>

definition bound_ok :: "write_col \<Rightarrow> bool" where
  "bound_ok c \<longleftrightarrow> c_bound c = Some (c_addr c, c_size c) \<and> c_size c < 2 ^ 31"

definition chunk_ok :: "'v duckdb \<Rightarrow> nat \<Rightarrow> 'v chunk \<Rightarrow> bool" where
  "chunk_ok D m ch \<longleftrightarrow> chunk_size ch \<le> unat (VectorSize D) \<and> length (chunk_cols ch) = m \<and>
     (\<forall>cells \<in> set (chunk_cols ch). length cells = chunk_size ch \<and>
       (\<forall>v. Some v \<in> set cells \<longrightarrow> length (bind_text D v) \<le> 2 ^ 31 - 4100))"

text \<open>Between two chunks: no column yet, or every column with buffers for a whole vector, bound where they are.\<close>

definition sink_ok :: "'v duckdb \<Rightarrow> nat \<Rightarrow> OracleWriteLocalState \<Rightarrow> bool" where
  "sink_ok D m l \<longleftrightarrow> l_cols l = [] \<or>
     (length (l_cols l) = m \<and> (\<forall>c \<in> set (l_cols l). col_ok (unat (VectorSize D)) c \<and> bound_ok c))"

definition ready :: "nat \<Rightarrow> nat \<Rightarrow> write_col \<Rightarrow> bool" where
  "ready n r c \<longleftrightarrow> col_ok n c \<and> bound_ok c \<and> r \<le> c_size c"

text \<open>The errors are those of OCI calls, so there is none when no call fails.\<close>

definition sink_error :: "'w rt \<Rightarrow> exn \<Rightarrow> bool" where
  "sink_error rt e \<longleftrightarrow> \<not> healthy rt \<and> (\<exists>msg u. msg \<in> {''OCIBindByPos'', ''OCIBindArrayOfStruct'', ''OCIStmtExecute Insert''} \<and>
     e = IOException (msg @ '': '' @ u))"

lemma bits32_small: "n < 2 ^ 32 \<Longrightarrow> bits32 n = n"
  by (simp add: bits32_def unat_of_nat)

lemma wp_map_list:
  assumes "\<And>x s. x \<in> set xs \<Longrightarrow> wp (f x) (\<lambda>y _. P x y) E s"
  shows "wp (map_each f xs) (\<lambda>ys _. list_all2 P xs ys) E s"
  using assms
proof (induction xs arbitrary: s)
  case (Cons x xs s)
  have "wp (f x) (\<lambda>y t. P x y) E s" using Cons.prems by simp
  then have "wp (f x) (\<lambda>y. wp (map_each f xs) (\<lambda>ys _. list_all2 P (x # xs) (y # ys)) E) E s"
    by (rule wp_mono) (use Cons in \<open>auto elim!: wp_mono\<close>)
  from this show ?case
    unfolding map_each.simps wp_bind by (rule wp_mono) (auto simp: wp_simps elim!: wp_mono)
qed (simp add: wp_simps)

lemma wp_checked:
  assumes "\<And>r t. r = fst (oci rt c (server s)) \<Longrightarrow> ok_status (status r) \<Longrightarrow> trace t = trace s @ [(c, r)] \<Longrightarrow> Q r t"
    and "\<And>u t w. \<not> ok_status (status (fst (oci rt c w))) \<Longrightarrow> E (IOException (msg @ '': '' @ u)) t"
  shows "wp (checked rt c h msg) Q E s"
proof (cases "ok_status (status (fst (oci rt c (server s))))")
  case True
  then show ?thesis using assms(1) by (simp add: checked_run [OF True] wp_def after_def)
next
  case False
  let ?s = "after rt c s"
  obtain u t where "CheckOCIError rt (status (fst (oci rt c (server s)))) h msg ?s = (Throw (IOException (msg @ '': '' @ u)), t)"
    using CheckOCIError_fails [OF False] by blast
  then have "checked rt c h msg s = (Throw (IOException (msg @ '': '' @ u)), t)"
    by (simp add: checked_def bind_def call_run after_def)
  then show ?thesis using assms(2) False by (simp add: wp_def)
qed

lemma sink_errors:
  "\<not> ok_status (status (fst (oci rt (BindByPos h n k ty) w))) \<Longrightarrow> sink_error rt (IOException (''OCIBindByPos'' @ '': '' @ u))"
  "\<not> ok_status (status (fst (oci rt (BindArrayOfStruct h n) w))) \<Longrightarrow> sink_error rt (IOException (''OCIBindArrayOfStruct'' @ '': '' @ u))"
  "\<not> ok_status (status (fst (oci rt (StmtExecuteArray svc h n ms) w))) \<Longrightarrow> sink_error rt (IOException (''OCIStmtExecute Insert'' @ '': '' @ u))"
  unfolding sink_error_def healthy_def by (blast dest: is_fetch.simps [THEN iffD1])+

lemma rebind_column_wp:
  assumes "l_conn l = Some hid" and "i < length tys" and "c_size c < 2 ^ 31"
  shows "wp (rebind_column D rt tys l (i, c)) (\<lambda>c' _. c_size c' = c_size c \<and> c_buf c' = c_buf c \<and> c_ind c' = c_ind c \<and>
    c_len c' = c_len c \<and> bound_ok c') (\<lambda>e _. sink_error rt e) s"
proof -
  have size: "bits32 (c_size c) = c_size c" using assms(3) by (intro bits32_small) simp
  show ?thesis
    using assms
    unfolding rebind_column_def local_ctx_def handle_ctx_def check_call_def
    by (auto simp: wp_simps size bound_ok_def intro!: wp_checked intro: sink_errors)
qed

lemma rebind_column_ends: "l_conn l = Some hid \<Longrightarrow> i < length tys \<Longrightarrow> ends (rebind_column D rt tys l (i, c))"
  by (auto simp: rebind_column_def local_ctx_def handle_ctx_def)

text \<open>After a rebind every column is ready for texts of the required size.\<close>

lemma rebind_wp:
  assumes conn: "l_conn l = Some hid" and tys: "length cols \<le> length tys"
    and cols: "list_all2 (\<lambda>r c. col_ok n c \<and> r \<le> c_size c \<and> c_size c < 2 ^ 31) required cols"
  shows "wp (rebind D rt tys l cols) (\<lambda>cols' _. list_all2 (ready n) required cols') (\<lambda>e _. sink_error rt e) s"
proof -
  let ?P = "\<lambda>(i, c) c'. c_size c' = c_size c \<and> c_buf c' = c_buf c \<and> c_ind c' = c_ind c \<and> c_len c' = c_len c \<and> bound_ok c'"
  have "wp (rebind_column D rt tys l x) (\<lambda>c' _. ?P x c') (\<lambda>e _. sink_error rt e) s"
    if "x \<in> set (enumerate 0 cols)" for x s
  proof -
    obtain i c where "x = (i, c)" by fastforce
    then have x: "x = (i, cols ! i)" "i < length cols" using that by (simp_all add: in_set_enumerate_eq)
    then have "c_size (cols ! i) < 2 ^ 31" using cols by (simp add: list_all2_conv_all_nth)
    then show ?thesis using rebind_column_wp [OF conn, of i tys "cols ! i"] x tys by simp
  qed
  then have "wp (rebind D rt tys l cols) (\<lambda>cols' _. list_all2 ?P (enumerate 0 cols) cols') (\<lambda>e _. sink_error rt e) s"
    unfolding rebind_def by (rule wp_map_list)
  then show ?thesis
    by (rule wp_mono) (use cols in \<open>auto simp: list_all2_conv_all_nth nth_enumerate_eq ready_def col_ok_def\<close>)
qed

lemma rebind_ends: "l_conn l = Some hid \<Longrightarrow> length cols \<le> length tys \<Longrightarrow> ends (rebind D rt tys l cols)"
  unfolding rebind_def by (rule ends_map_each) (auto simp: in_set_enumerate_eq intro: rebind_column_ends)

lemma local_ctx_keeps: "moves (keeps_calls K) (local_ctx l)"
  by (auto simp: local_ctx_def handle_ctx_def split: option.split)

lemma rebind_keeps:
  assumes "quiet_kind K" and "\<And>h n k ty. \<not> K (BindByPos h n k ty)" and "\<And>h n. \<not> K (BindArrayOfStruct h n)"
  shows "moves (keeps_calls K) (rebind D rt tys l cols)"
proof -
  have "moves (keeps_calls K) (rebind_column D rt tys l x)" for x
    unfolding rebind_column_def
    using assms by (cases x) (auto intro!: keeps.moves_bind local_ctx_keeps checked_keeps check_call_keeps)
  then show ?thesis unfolding rebind_def by (intro keeps.moves_map_each)
qed

text \<open>Writing the vectors into columns that are ready.\<close>

lemma write_columns_run:
  assumes "list_all2 (\<lambda>cells c. col_ok n c \<and> bound_ok c \<and> length cells \<le> n \<and>
      (\<forall>v. Some v \<in> set cells \<longrightarrow> length (bind_text D v) \<le> c_size c)) vectors cols"
  shows "\<exists>cols'. map_each (\<lambda>(cells, c). on_column (BindColumn D cells) c) (zip vectors cols) s = (Ret cols', s) \<and>
    list_all2 (\<lambda>cells c. col_ok n c \<and> bound_ok c \<and> holds_cells D cells c) vectors cols'"
  using assms
proof (induction vectors cols rule: list_all2_induct)
  case Nil
  then show ?case by simp
next
  case (Cons cells vectors c cols)
  obtain c' where c': "BindColumn D cells c = (Ret (), c')" "col_ok n c'" "same_place c c'" "holds_cells D cells c'"
    using BindColumn_run [of n c cells D] Cons.hyps(1) by blast
  moreover have "bound_ok c'" using Cons.hyps(1) c'(3) by (simp add: bound_ok_def same_place_def)
  ultimately show ?case using Cons.IH by (auto simp: bind_def on_column_def)
qed

text \<open>The sizes that are there before a chunk is written.\<close>

lemma grown_columns:
  assumes "unat (VectorSize D) = n" and "list_all2 (\<lambda>r c. (col_ok n c \<and> c_size c < 2 ^ 31 \<or> c = no_column) \<and> 0 < r \<and> r < 2 ^ 31) required cols"
  shows "list_all2 (\<lambda>r c. col_ok n c \<and> r \<le> c_size c \<and> c_size c < 2 ^ 31) required (map (grow D) (zip required cols))"
proof -
  have "col_ok n (grow D (r, c)) \<and> r \<le> c_size (grow D (r, c)) \<and> c_size (grow D (r, c)) < 2 ^ 31"
    if "(col_ok n c \<and> c_size c < 2 ^ 31 \<or> c = no_column) \<and> 0 < r \<and> r < 2 ^ 31" for r c
    using grow_ok [OF assms(1), of c r] that by (auto simp: no_column_def)
  then show ?thesis using assms(2) by (simp add: list_all2_conv_all_nth)
qed

text \<open>One array execution that succeeded was added to the calls.\<close>

definition inserted ::
  "'w rt \<Rightarrow> handle option \<Rightarrow> nat \<Rightarrow> write_col list \<Rightarrow> ('w, 'z) ocist_scheme \<Rightarrow> ('w, 'z) ocist_scheme \<Rightarrow> bool" where
  "inserted rt h n cols s t \<longleftrightarrow> (\<exists>svc w. let x = StmtExecuteArray svc h n (map (\<lambda>c. (c_size c, memory c)) cols) in
     calls_of is_insert t = calls_of is_insert s @ [x] \<and> ok_status (status (fst (oci rt x w))))"

lemma insertedI:
  assumes "r = fst (oci rt (StmtExecuteArray svc h n (map (\<lambda>c. (c_size c, memory c)) cols)) w)" and "ok_status (status r)"
    and "trace t = trace s @ [(StmtExecuteArray svc h n (map (\<lambda>c. (c_size c, memory c)) cols), r)]"
  shows "inserted rt h n cols s t"
  unfolding inserted_def Let_def using assms by (intro exI [of _ svc] exI [of _ w]) (simp add: calls_of_def)

lemma inserted_from: "inserted rt h n cols s t \<Longrightarrow> calls_of is_insert s = calls_of is_insert s' \<Longrightarrow> inserted rt h n cols s' t"
  by (simp add: inserted_def)

lemma ExecuteBatch_wp:
  assumes "l_conn l = Some hid" and "\<forall>c \<in> set cols. bound_ok c" and "n < 2 ^ 32"
  shows "wp (ExecuteBatch rt l cols n)
    (\<lambda>_. inserted rt (l_stmt l) n cols s) (\<lambda>e _. sink_error rt e) s"
proof -
  have bound: "bound_memory c = Some (c_size c, memory c)" if "c \<in> set cols" for c
    using assms(2) that by (simp add: bound_memory_def bound_ok_def)
  then have none: "None \<notin> set (map bound_memory cols)" and mem: "map (the \<circ> bound_memory) cols = map (\<lambda>c. (c_size c, memory c)) cols"
    by force+
  show ?thesis
    using assms(1,3) none unfolding ExecuteBatch_def mem local_ctx_def handle_ctx_def check_call_def
    by (auto simp: wp_simps bits32_small intro!: wp_checked intro: sink_errors insertedI)
qed

lemma ExecuteBatch_ends: "l_conn l = Some hid \<Longrightarrow> \<forall>c \<in> set cols. bound_ok c \<Longrightarrow> ends (ExecuteBatch rt l cols n)"
proof -
  assume "l_conn l = Some hid" "\<forall>c \<in> set cols. bound_ok c"
  then have "None \<notin> set (map bound_memory cols)" by (force simp: bound_memory_def bound_ok_def)
  then show ?thesis using \<open>l_conn l = Some hid\<close>
    by (auto simp: ExecuteBatch_def local_ctx_def handle_ctx_def check_call_def)
qed

text \<open>Total correctness: as \<open>wp\<close>, and the run comes to an end.\<close>

definition twp :: "('s, 'a) cpp \<Rightarrow> ('a \<Rightarrow> 's \<Rightarrow> bool) \<Rightarrow> (exn \<Rightarrow> 's \<Rightarrow> bool) \<Rightarrow> 's \<Rightarrow> bool" where
  "twp m Q E s \<longleftrightarrow> wp m Q E s \<and> fst (m s) \<noteq> Stuck"

lemma twpI: "wp m Q E s \<Longrightarrow> ends m \<Longrightarrow> twp m Q E s"
  by (simp add: twp_def ends_def)

lemma twp_bind:
  assumes "twp m Q E s" and "\<And>a t. Q a t \<Longrightarrow> twp (f a) R E t"
  shows "twp (bind m f) R E s"
proof -
  obtain o1 t where m: "m s = (o1, t)" by fastforce
  then show ?thesis using assms by (cases o1) (auto simp: twp_def wp_def bind_def)
qed

lemma twp_Ret: "m s = (Ret a, t) \<Longrightarrow> Q a t \<Longrightarrow> twp m Q E s"
  by (simp add: twp_def wp_def)

definition delivered ::
  "'v duckdb \<Rightarrow> 'w rt \<Rightarrow> 'v chunk \<Rightarrow> OracleWriteLocalState \<Rightarrow> ('w, 'z) ocist_scheme \<Rightarrow> ('w, 'z) ocist_scheme \<Rightarrow> bool" where
  "delivered D rt ch l s t \<longleftrightarrow> list_all2 (holds_cells D) (chunk_cols ch) (l_cols l) \<and>
     inserted rt (l_stmt l) (chunk_size ch) (l_cols l) s t"

lemma Sink_twp:
  assumes ch: "chunk_ok D m ch" and l: "sink_ok D m l" and conn: "l_conn l = Some hid" and tys: "m \<le> length tys"
    and some: "chunk_size ch \<noteq> 0"
  shows "twp (Sink D rt tys ch l) (\<lambda>l' t. l_conn l' = l_conn l \<and> l_stmt l' = l_stmt l \<and> sink_ok D m l' \<and> delivered D rt ch l' s t)
    (\<lambda>e _. sink_error rt e) s"
proof -
  let ?n = "unat (VectorSize D)" and ?vs = "chunk_cols ch"
  let ?req = "map (required_size D) ?vs"
  define cols where "cols = (if l_cols l = [] then replicate (length ?vs) no_column else l_cols l)"
  have vs: "map (take (chunk_size ch)) ?vs = ?vs" using ch by (auto simp: chunk_ok_def intro: map_idI)
  have len: "length cols = length ?vs" "length ?vs = m" using l ch by (auto simp: cols_def sink_ok_def chunk_ok_def)
  have small: "max_len D cells \<le> 2 ^ 31 - 4100" if "cells \<in> set ?vs" for cells
    using ch that by (intro max_len_bound) (auto simp: chunk_ok_def)
  have req: "0 < required_size D cells \<and> required_size D cells < 2 ^ 31" if "cells \<in> set ?vs" for cells
    using small [OF that] required_size_bounds(2,4) [of D cells] by simp
  have old: "(col_ok ?n c \<and> bound_ok c) \<or> (l_cols l = [] \<and> c = no_column)" if "c \<in> set cols" for c
    using l that by (auto simp: cols_def sink_ok_def split: if_splits)
  have prepare: "twp (if need_rebind ?req (l_cols l) then rebind D rt tys l (map (grow D) (zip ?req cols)) else return cols)
      (\<lambda>cols' t. list_all2 (ready ?n) ?req cols' \<and> keeps_calls is_insert s t) (\<lambda>e _. sink_error rt e) s"
  proof (cases "need_rebind ?req (l_cols l)")
    case True
    have "list_all2 (\<lambda>r c. (col_ok ?n c \<and> c_size c < 2 ^ 31 \<or> c = no_column) \<and> 0 < r \<and> r < 2 ^ 31) ?req cols"
      using old req len by (auto simp: list_all2_conv_all_nth bound_ok_def) (metis nth_mem)+
    note grown = grown_columns [OF refl this]
    have "length (map (grow D) (zip ?req cols)) \<le> length tys" using len tys by simp
    note run = rebind_wp [OF conn this grown] rebind_ends [OF conn this]
    have "moves (keeps_calls is_insert) (rebind D rt tys l (map (grow D) (zip ?req cols)))" by (rule rebind_keeps) simp_all
    from wp_moves [OF run(1) this] have "wp (rebind D rt tys l (map (grow D) (zip ?req cols)))
        (\<lambda>cols' t. list_all2 (ready ?n) ?req cols' \<and> keeps_calls is_insert s t) (\<lambda>e _. sink_error rt e) s"
      by (rule wp_mono) simp_all
    from twpI [OF this run(2)] show ?thesis using True by simp
  next
    case False
    then have ne: "l_cols l \<noteq> []" and "list_all2 (\<lambda>r c. r \<le> c_size c) ?req cols"
      using len by (auto simp: need_rebind_def cols_def list_all2_iff)
    then have "list_all2 (ready ?n) ?req cols"
      using old len by (simp add: list_all2_conv_all_nth ready_def)
    then show ?thesis using False by (simp add: twp_Ret keeps_calls_def)
  qed
  have writing: "twp (bind (map_each (\<lambda>(cells, c). on_column (BindColumn D cells) c) (zip ?vs cols')) (\<lambda>cols'.
        bind (ExecuteBatch rt l cols' (chunk_size ch)) (\<lambda>_. return (l\<lparr>l_cols := cols'\<rparr>))))
      (\<lambda>l' t. l_conn l' = l_conn l \<and> l_stmt l' = l_stmt l \<and> sink_ok D m l' \<and> delivered D rt ch l' s t) (\<lambda>e _. sink_error rt e) t"
    if rdy': "list_all2 (ready ?n) ?req cols' \<and> keeps_calls is_insert s t" for cols' t
  proof -
    have rdy: "list_all2 (ready ?n) ?req cols'" and same: "calls_of is_insert t = calls_of is_insert s"
      using rdy' by (simp_all add: keeps_calls_def)
    have "list_all2 (\<lambda>cells c. col_ok ?n c \<and> bound_ok c \<and> length cells \<le> ?n \<and>
        (\<forall>v. Some v \<in> set cells \<longrightarrow> length (bind_text D v) \<le> c_size c)) ?vs cols'"
    proof -
      have "length (bind_text D v) \<le> c_size (cols' ! i)" if "i < length ?vs" "Some v \<in> set (?vs ! i)" for i v
      proof -
        have "required_size D (?vs ! i) \<le> c_size (cols' ! i)" using rdy that(1) by (simp add: list_all2_conv_all_nth ready_def)
        then show ?thesis
          using max_len_fits [OF that(2), of D] required_size_bounds(1) [of D "?vs ! i"] by linarith
      qed
      then show ?thesis using rdy ch by (auto simp: list_all2_conv_all_nth ready_def chunk_ok_def)
    qed
    from write_columns_run [OF this, of t] obtain cols2 where
        run: "map_each (\<lambda>(cells, c). on_column (BindColumn D cells) c) (zip ?vs cols') t = (Ret cols2, t)"
        and c2: "list_all2 (\<lambda>cells c. col_ok ?n c \<and> bound_ok c \<and> holds_cells D cells c) ?vs cols2" by blast
    have bound: "\<forall>c \<in> set cols2. bound_ok c \<and> col_ok ?n c" "length cols2 = m"
      using c2 len by (auto simp: list_all2_conv_all_nth set_conv_nth)
    have n: "chunk_size ch < 2 ^ 32" 
    proof -
      have "unat (VectorSize D) < 2 ^ LENGTH(32)" by (rule unsigned_less)
      then show ?thesis using ch by (simp add: chunk_ok_def)
    qed
    have "list_all2 (holds_cells D) ?vs cols2" using c2 by (rule list_all2_mono) simp
    then have fin: "twp (bind (ExecuteBatch rt l cols2 (chunk_size ch)) (\<lambda>_. return (l\<lparr>l_cols := cols2\<rparr>)))
      (\<lambda>l' t. l_conn l' = l_conn l \<and> l_stmt l' = l_stmt l \<and> sink_ok D m l' \<and> delivered D rt ch l' s t) (\<lambda>e _. sink_error rt e) t"
      using bound same
      by (intro twp_bind [OF twpI [OF ExecuteBatch_wp [OF conn _ n] ExecuteBatch_ends [OF conn]]] twp_Ret)
        (auto simp: sink_ok_def delivered_def elim: inserted_from)
    show ?thesis using fin run by (simp add: twp_def wp_def bind_def)
  qed
  have eq: "Sink D rt tys ch l =
      bind (if need_rebind ?req (l_cols l) then rebind D rt tys l (map (grow D) (zip ?req cols)) else return cols) (\<lambda>cols'.
      bind (map_each (\<lambda>(cells, c). on_column (BindColumn D cells) c) (zip ?vs cols')) (\<lambda>cols'.
      bind (ExecuteBatch rt l cols' (chunk_size ch)) (\<lambda>_. return (l\<lparr>l_cols := cols'\<rparr>))))"
    unfolding Sink_def Let_def vs cols_def [symmetric] using some len(1) by simp
  show ?thesis unfolding eq by (rule twp_bind [OF prepare]) (rule writing)
qed

section \<open>A whole COPY\<close>

text \<open>DuckDB calls the sink for one chunk after the other on one local state, as the copy function does not declare itself
  parallel, and finalizes at the end.\<close>

fun sink_all ::
  "'v duckdb \<Rightarrow> 'w rt \<Rightarrow> OracleWriteBindData \<Rightarrow> OracleWriteGlobalState \<Rightarrow> OracleWriteLocalState \<Rightarrow> 'v chunk list
    \<Rightarrow> (('w, 'z) mgr_scheme, OracleWriteLocalState) cpp" where
  "sink_all D rt d g l [] = return l"
| "sink_all D rt d g l (ch # chs) = bind (OracleWriteSink D rt d g l ch) (\<lambda>l. sink_all D rt d g l chs)"

text \<open>The rows of a chunk as they should arrive, and the rows that OCI reads from the memory of an array execution.\<close>

definition rows_to_send :: "'v duckdb \<Rightarrow> 'v chunk \<Rightarrow> text_row list" where
  "rows_to_send D ch = map (\<lambda>j. map (\<lambda>cells. map_option (sent D) (cells ! j)) (chunk_cols ch)) [0..<chunk_size ch]"

fun rows_received :: "oci_call \<Rightarrow> text_row list" where
  "rows_received (StmtExecuteArray svc h n mems) = map (\<lambda>j. map (\<lambda>(sz, mem). slot_text sz mem j) mems) [0..<n]"
| "rows_received _ = []"

definition local_ok :: "'v duckdb \<Rightarrow> nat \<Rightarrow> OracleWriteLocalState \<Rightarrow> bool" where
  "local_ok D m l \<longleftrightarrow> l_conn l = None \<or> sink_ok D m l"

lemma delivered_rows:
  assumes "chunk_ok D m ch" and "delivered D rt ch l s t"
  shows "\<exists>calls. calls_of is_insert t = calls_of is_insert s @ calls \<and> concat (map rows_received calls) = rows_to_send D ch"
proof -
  obtain svc where held: "list_all2 (holds_cells D) (chunk_cols ch) (l_cols l)"
      and call: "calls_of is_insert t = calls_of is_insert s @
        [StmtExecuteArray svc (l_stmt l) (chunk_size ch) (map (\<lambda>c. (c_size c, memory c)) (l_cols l))]"
    using assms(2) by (auto simp: delivered_def inserted_def Let_def)
  have "map (\<lambda>c. slot_text (c_size c) (memory c) j) (l_cols l) = map (\<lambda>cells. map_option (sent D) (cells ! j)) (chunk_cols ch)"
    if "j < chunk_size ch" for j
    using held assms(1) that
    by (auto simp: list_all2_conv_all_nth chunk_ok_def holds_cells_def intro!: nth_equalityI)
  then show ?thesis using call by (simp add: rows_to_send_def comp_def)
qed

lemma OracleWriteSink_twp:
  assumes "chunk_ok D m ch" and "local_ok D m l" and "m \<le> length (w_oracle_types d)"
  shows "twp (OracleWriteSink D rt d g l ch) (\<lambda>l' t. local_ok D m l' \<and>
      (\<exists>calls. calls_of is_insert t = calls_of is_insert s @ calls \<and> concat (map rows_received calls) = rows_to_send D ch))
    (\<lambda>e _. sink_error rt e) s"
proof -
  define l0 where "l0 = (if l_conn l = None then \<lparr>l_conn = Some (g_conn g), l_stmt = g_stmt g, l_cols = []\<rparr> else l)"
  have l0: "sink_ok D m l0" "\<exists>hid. l_conn l0 = Some hid" using assms(2) by (auto simp: l0_def local_ok_def sink_ok_def)
  show ?thesis
  proof (cases "chunk_size ch = 0")
    case True
    then show ?thesis
      using l0(1) unfolding OracleWriteSink_def l0_def [symmetric]
      by (simp add: Sink_def twp_Ret local_ok_def rows_to_send_def exI [of _ "[]"])
  next
    case False
    obtain hid where "l_conn l0 = Some hid" using l0(2) by blast
    from Sink_twp [OF assms(1) l0(1) this assms(3) False, of rt s]
    have "wp (Sink D rt (w_oracle_types d) ch l0) (\<lambda>l' t. l_conn l' = l_conn l0 \<and> l_stmt l' = l_stmt l0 \<and>
        sink_ok D m l' \<and> delivered D rt ch l' s t) (\<lambda>e _. sink_error rt e) s"
      and "fst (Sink D rt (w_oracle_types d) ch l0 s) \<noteq> Stuck"
      by (simp_all add: twp_def)
    moreover from this(1) have "wp (Sink D rt (w_oracle_types d) ch l0) (\<lambda>l' t. local_ok D m l' \<and>
      (\<exists>calls. calls_of is_insert t = calls_of is_insert s @ calls \<and> concat (map rows_received calls) = rows_to_send D ch))
      (\<lambda>e _. sink_error rt e) s"
      by (rule wp_mono) (auto simp: local_ok_def dest: delivered_rows [OF assms(1)])
    ultimately show ?thesis unfolding OracleWriteSink_def l0_def [symmetric] by (simp add: twp_def)
  qed
qed

lemma sink_all_twp:
  assumes "\<forall>ch \<in> set chs. chunk_ok D m ch" and "local_ok D m l" and "m \<le> length (w_oracle_types d)"
  shows "twp (sink_all D rt d g l chs) (\<lambda>l' t. local_ok D m l' \<and>
      (\<exists>calls. calls_of is_insert t = calls_of is_insert s @ calls \<and>
        concat (map rows_received calls) = concat (map (rows_to_send D) chs)))
    (\<lambda>e _. sink_error rt e) s"
  using assms(1,2)
proof (induction chs arbitrary: l s)
  case Nil
  then show ?case by (simp add: twp_Ret exI [of _ "[]"])
next
  case (Cons ch chs l s)
  show ?case
    unfolding sink_all.simps
  proof (rule twp_bind)
    show "twp (OracleWriteSink D rt d g l ch) (\<lambda>l' t. local_ok D m l' \<and>
      (\<exists>calls. calls_of is_insert t = calls_of is_insert s @ calls \<and> concat (map rows_received calls) = rows_to_send D ch))
      (\<lambda>e _. sink_error rt e) s"
      using Cons.prems by (intro OracleWriteSink_twp assms(3)) simp_all
  next
    fix l' and t :: "('b, 'c) mgr_scheme"
    assume step: "local_ok D m l' \<and>
      (\<exists>calls. calls_of is_insert t = calls_of is_insert s @ calls \<and> concat (map rows_received calls) = rows_to_send D ch)"
    then obtain cs where cs: "calls_of is_insert t = calls_of is_insert s @ cs" "concat (map rows_received cs) = rows_to_send D ch"
      by blast
    have rest: "twp (sink_all D rt d g l' chs) (\<lambda>l' u. local_ok D m l' \<and>
      (\<exists>calls. calls_of is_insert u = calls_of is_insert t @ calls \<and>
        concat (map rows_received calls) = concat (map (rows_to_send D) chs))) (\<lambda>e _. sink_error rt e) t"
      using Cons step by simp
    have more: "\<exists>calls. calls_of is_insert u = calls_of is_insert s @ calls \<and>
        concat (map rows_received calls) = concat (map (rows_to_send D) (ch # chs))"
      if "calls_of is_insert u = calls_of is_insert t @ cs'" "concat (map rows_received cs') = concat (map (rows_to_send D) chs)"
      for u :: "('b, 'c) mgr_scheme" and cs'
      using that cs by (intro exI [of _ "cs @ cs'"]) simp
    from rest show "twp (sink_all D rt d g l' chs) (\<lambda>l' u. local_ok D m l' \<and>
      (\<exists>calls. calls_of is_insert u = calls_of is_insert s @ calls \<and>
        concat (map rows_received calls) = concat (map (rows_to_send D) (ch # chs)))) (\<lambda>e _. sink_error rt e) t"
      unfolding twp_def using more by (auto elim!: wp_mono)
  qed
qed

section \<open>What a COPY leaves behind\<close>

lemma on_column_moves: "R s s \<Longrightarrow> on_column m c s = (r, t) \<Longrightarrow> R s t"
  by (auto simp: on_column_def split: prod.splits outcome.splits)

lemma OracleWriteSink_keeps:
  assumes "quiet_kind K" and "\<And>h n k ty. \<not> K (BindByPos h n k ty)" and "\<And>h n. \<not> K (BindArrayOfStruct h n)"
    and "\<And>svc h n ms. \<not> K (StmtExecuteArray svc h n ms)"
  shows "moves (keeps_calls K) (OracleWriteSink D rt d g l ch)"
proof -
  have columns: "moves (keeps_calls K) (map_each (\<lambda>(cells, c). on_column (BindColumn D cells) c) xs)" for xs
    by (intro keeps.moves_map_each movesI) (auto simp: keeps_calls_def dest!: on_column_moves [of "keeps_calls K", rotated])
  have exec: "moves (keeps_calls K) (ExecuteBatch rt l cols n)" for l cols n
    unfolding ExecuteBatch_def
    by (intro keeps.moves_bind keeps.moves_if keeps.moves_stuck check_call_keeps local_ctx_keeps assms)
  show ?thesis
    unfolding OracleWriteSink_def Sink_def Let_def
    by (intro keeps.moves_if keeps.moves_bind keeps.moves_return keeps.moves_stuck columns exec rebind_keeps assms)
qed

lemma OracleWriteSink_only_oci: "moves only_oci (OracleWriteSink D rt d g l ch)"
proof -
  have columns: "moves only_oci (map_each (\<lambda>(cells, c). on_column (BindColumn D cells) c) xs)" for xs
    by (intro only_oci.moves_map_each movesI)
      (auto dest!: on_column_moves [of only_oci, rotated] intro: only_oci.stay)
  have ctx: "moves only_oci (local_ctx l)" for l
    by (auto simp: local_ctx_def handle_ctx_def split: option.split)
  have rebind: "moves only_oci (rebind D rt tys l cols)" for tys l cols
    unfolding rebind_def rebind_column_def check_call_def
    by (intro only_oci.moves_map_each) (auto intro!: only_oci.moves_bind ctx checked_moves split: prod.split)
  have exec: "moves only_oci (ExecuteBatch rt l cols n)" for l cols n
    unfolding ExecuteBatch_def check_call_def
    by (intro only_oci.moves_bind only_oci.moves_if only_oci.moves_stuck only_oci.moves_return checked_moves ctx)
  show ?thesis
    unfolding OracleWriteSink_def Sink_def Let_def
    by (intro only_oci.moves_if only_oci.moves_bind only_oci.moves_return only_oci.moves_stuck columns exec rebind)
qed

lemma sink_all_keeps: "moves (keeps_calls ends_transaction) (sink_all D rt d g l chs)"
  by (induction chs arbitrary: l)
    (auto intro!: keeps.moves_bind keeps.moves_return OracleWriteSink_keeps)

lemma twp_returns: "twp m Q (\<lambda>e _. sink_error rt e) s \<Longrightarrow> healthy rt \<Longrightarrow> \<exists>a t. m s = (Ret a, t)"
proof -
  assume "twp m Q (\<lambda>e _. sink_error rt e) s" "healthy rt"
  then show ?thesis by (cases "m s"; cases "fst (m s)") (auto simp: twp_def wp_def sink_error_def)
qed

text \<open>Two rows of two columns.\<close>

definition two_rows :: "val chunk" where
  "two_rows = \<lparr>chunk_size = 2, chunk_cols = [[Some (VInt 7), Some (VInt 8)], [Some (VStr ''1980-12-17''), None]]\<rparr>"

definition emp_global :: OracleWriteGlobalState where
  "emp_global = \<lparr>g_conn = 0, g_stmt = Some 9\<rparr>"

lemma int_to_string_digit: "int_to_string 7 = ''7''" "int_to_string 8 = ''8''"
  by code_simp+

lemma two_rows_text:
  "bind_text duckdb_ref (VInt 7) = ''7''" "bind_text duckdb_ref (VInt 8) = ''8''" "bind_text duckdb_ref (VStr s) = s"
  by (simp_all add: bind_text_def duckdb_ref_def int_to_string_digit)

lemma two_rows_ok: "chunk_ok duckdb_ref 2 two_rows"
  by (auto simp: chunk_ok_def two_rows_def two_rows_text)

lemma emp_types: "length (w_oracle_types emp_target) = 3"
  by (simp add: emp_target_def)

lemma two_rows_sunk:
  "\<exists>l t. sink_all duckdb_ref (sample_rt (\<lambda>_. False)) emp_target emp_global OracleWriteInitLocal [two_rows] (init_mgr 0) = (Ret l, t)"
  by (rule twp_returns [OF sink_all_twp [where m = 2] sample_rt_healthy])
    (use two_rows_ok in \<open>simp_all add: local_ok_def OracleWriteInitLocal_def emp_types\<close>)

section \<open>Properties\<close>

text \<open>C12: The sink never leaves its buffers: whatever the values of a chunk of at most 2048 rows with texts below
  2^31 - 4100 bytes, every write of a value, an indicator or a length is inside its vector, every execution reads through binds
  that point to the current buffers, the check for a value that is too large never fires, and the next chunk finds the same.\<close>

theorem sink_stays_in_bounds:
  assumes "chunk_ok D m ch" and "local_ok D m l" and "m \<le> length (w_oracle_types d)"
    and "OracleWriteSink D rt d g l ch s = (r, t)"
  shows "r \<noteq> Stuck \<and> r \<noteq> Throw too_large \<and> (\<forall>l'. r = Ret l' \<longrightarrow> local_ok D m l') \<and> local_ok D m OracleWriteInitLocal"
proof -
  have "r \<noteq> Stuck" "\<And>e. r = Throw e \<Longrightarrow> sink_error rt e" "\<And>l'. r = Ret l' \<Longrightarrow> local_ok D m l'"
    using OracleWriteSink_twp [OF assms(1-3), of rt g s] assms(4) by (auto simp: twp_def wp_def)
  moreover have "\<not> sink_error rt too_large" by (auto simp: sink_error_def too_large_def)
  ultimately show ?thesis by (auto simp: local_ok_def OracleWriteInitLocal_def)
qed

theorem sink_stays_in_bounds_witness:
  "\<exists>r t. OracleWriteSink duckdb_ref (sample_rt (\<lambda>_. False)) emp_target emp_global OracleWriteInitLocal two_rows (init_mgr 0) = (r, t) \<and>
     r \<noteq> Stuck \<and> r \<noteq> Throw too_large"
proof -
  obtain r t where run: "OracleWriteSink duckdb_ref (sample_rt (\<lambda>_. False)) emp_target emp_global OracleWriteInitLocal two_rows
      (init_mgr 0) = (r, t)"
    by fastforce
  have "local_ok duckdb_ref 2 OracleWriteInitLocal" by (simp add: local_ok_def OracleWriteInitLocal_def)
  from sink_stays_in_bounds [OF two_rows_ok this _ run] show ?thesis using run by (simp add: emp_types)
qed

text \<open>C9: A \<open>COPY\<close> that succeeds has inserted every row of every chunk, in order and once, and committed once at the end:
  what OCI reads from the memory of the array executions is the text of each value, null for null. A text of 65536 bytes or
  more is cut to its length modulo 65536, as the length array holds 16 bits.\<close>

theorem copy_delivers_every_row:
  assumes "\<forall>ch \<in> set chs. chunk_ok D m ch" and "m \<le> length (w_oracle_types d)"
    and "bind (sink_all D rt d g OracleWriteInitLocal chs) (\<lambda>_. OracleWriteFinalize rt g) s = (Ret (), t)"
  shows "(\<exists>calls. calls_of is_insert t = calls_of is_insert s @ calls \<and>
      concat (map rows_received calls) = concat (map (rows_to_send D) chs)) \<and>
    (\<exists>svc. calls_of ends_transaction t = calls_of ends_transaction s @ [TransCommit svc]) \<and>
    (\<forall>v. sent D v = take (length (bind_text D v) mod 65536) (bind_text D v))"
proof -
  obtain l u where sink: "sink_all D rt d g OracleWriteInitLocal chs s = (Ret l, u)" and fin: "OracleWriteFinalize rt g u = (Ret (), t)"
    using assms(3) by (auto simp: bind_Ret_iff)
  have "local_ok D m OracleWriteInitLocal" by (simp add: local_ok_def OracleWriteInitLocal_def)
  from sink_all_twp [OF assms(1) this assms(2), of rt g s] sink obtain calls where
      calls: "calls_of is_insert u = calls_of is_insert s @ calls" "concat (map rows_received calls) = concat (map (rows_to_send D) chs)"
    by (auto simp: twp_def wp_def)
  have "calls_of ends_transaction u = calls_of ends_transaction s"
    using movesD [OF sink_all_keeps sink] by (simp add: keeps_calls_def)
  moreover obtain svc r where "trace t = trace u @ [(TransCommit svc, r)]"
    using fin by (auto simp: OracleWriteFinalize_def bind_Ret_iff handle_ctx_def check_call_def checked_Ret)
  then have "calls_of is_insert t = calls_of is_insert u" "calls_of ends_transaction t = calls_of ends_transaction u @ [TransCommit svc]"
    by (simp_all add: calls_of_def)
  ultimately show ?thesis using calls by (simp add: sent_def)
qed

theorem copy_delivers_every_row_witness:
  "\<exists>t calls. bind (sink_all duckdb_ref (sample_rt (\<lambda>_. False)) emp_target emp_global OracleWriteInitLocal [two_rows])
     (\<lambda>_. OracleWriteFinalize (sample_rt (\<lambda>_. False)) emp_global) (init_mgr 0) = (Ret (), t) \<and>
   calls_of is_insert t = calls \<and>
   concat (map rows_received calls) = [[Some ''7'', Some ''1980-12-17''], [Some ''8'', None]]"
proof -
  obtain l u where sink: "sink_all duckdb_ref (sample_rt (\<lambda>_. False)) emp_target emp_global OracleWriteInitLocal [two_rows] (init_mgr 0) = (Ret l, u)"
    using two_rows_sunk by blast
  have "returns (OracleWriteFinalize (sample_rt (\<lambda>_. False)) emp_global :: ((nat, unit) mgr_scheme, unit) cpp)"
    unfolding OracleWriteFinalize_def handle_ctx_def
    by (intro returns_bind returns_basic check_call_returns sample_rt_healthy) simp
  then obtain t where "OracleWriteFinalize (sample_rt (\<lambda>_. False)) emp_global u = (Ret (), t)" using returnsD by fastforce
  then have run: "bind (sink_all duckdb_ref (sample_rt (\<lambda>_. False)) emp_target emp_global OracleWriteInitLocal [two_rows])
      (\<lambda>_. OracleWriteFinalize (sample_rt (\<lambda>_. False)) emp_global) (init_mgr 0) = (Ret (), t)"
    using sink by (simp add: bind_def)
  have "\<forall>ch \<in> set [two_rows]. chunk_ok duckdb_ref 2 ch" using two_rows_ok by simp
  moreover have "rows_to_send duckdb_ref two_rows = [[Some ''7'', Some ''1980-12-17''], [Some ''8'', None]]"
    by (simp add: rows_to_send_def two_rows_def sent_def two_rows_text upt_rec)
  moreover have "calls_of is_insert (init_mgr 0 :: nat mgr) = []" by (simp add: calls_of_def init_mgr_def)
  ultimately show ?thesis using copy_delivers_every_row [OF _ _ run, of 2] run by (simp add: emp_types)
qed

text \<open>C13: A \<open>COPY\<close> that fails is neither committed nor rolled back: when a call of the sink has thrown (or returned) and
  the global state is destroyed, no commit, rollback or end of a session has been asked for since, and the session,
  whatever it has inserted, is handed to the next user of that connection string, whose commit will include it.\<close>

theorem failed_copy_stays_pending:
  assumes "mgr_inv s" and "mgr_env s = Some env" and "map_of (handles s) (g_conn g) = Some h"
    and "h_pool h = Some pid" and "map_of (pools s) cs = Some pid" and "connection_cache st"
    and "OracleWriteSink D rt d g l ch s = (r, t)"
  shows "\<exists>u v hid. close_write rt g t = (Ret (), u) \<and> Acquire rt cs st u = (Ret hid, v) \<and>
    map_of (handles v) hid = Some h \<and> calls_of ends_transaction v = calls_of ends_transaction s"
proof -
  let ?t = "free_stmt rt (g_stmt g) t"
  have "only_oci s t" using movesD [OF OracleWriteSink_only_oci assms(7)] .
  then have moved: "only_oci s ?t" using free_stmt_only_oci only_oci.go_on by blast
  note same = only_oci_mgr [OF moved]
  have "mgr_env ?t = Some env" "map_of (handles ?t) (g_conn g) = Some h" "map_of (pools ?t) cs = Some pid" "mgr_inv ?t"
    using assms(1,2,3,5) same by simp_all
  from release_then_acquire [OF this(4,1) assms(6) this(2) assms(4) this(3), of rt] obtain u v hid where
      last: "release_handle rt (g_conn g) ?t = (Ret (), u)" "Acquire rt cs st u = (Ret hid, v)"
        "map_of (handles v) hid = Some h" "trace v = trace ?t"
    by blast
  have "calls_of ends_transaction t = calls_of ends_transaction s"
    using movesD [OF OracleWriteSink_keeps assms(7), of ends_transaction] by (simp add: keeps_calls_def)
  moreover have "calls_of ends_transaction ?t = calls_of ends_transaction t"
    by (auto simp: free_stmt_def run_if_def invoke_def bind_def call_run calls_of_def)
  ultimately have "calls_of ends_transaction v = calls_of ends_transaction s" using last(4) by (simp add: calls_of_def)
  then show ?thesis using last by (auto simp: close_write_def bind_def)
qed

theorem failed_copy_stays_pending_witness:
  "\<exists>e t u v hid. OracleWriteSink duckdb_ref (sample_rt is_insert) emp_target emp_global OracleWriteInitLocal two_rows busy_state = (Throw e, t) \<and>
     close_write (sample_rt is_insert) emp_global t = (Ret (), u) \<and>
     Acquire (sample_rt is_insert) ''scott/tiger@db'' default_settings u = (Ret hid, v) \<and>
     map_of (handles v) hid = Some \<lparr>h_pool = Some 0, h_ctx = 0\<rparr> \<and> calls_of ends_transaction v = []"
proof -
  let ?rt = "sample_rt is_insert"
  obtain r t where run: "OracleWriteSink duckdb_ref ?rt emp_target emp_global OracleWriteInitLocal two_rows busy_state = (r, t)"
    by fastforce
  have facts: "mgr_env busy_state = Some (Some 0)" "connection_cache default_settings"
    "map_of (handles busy_state) (g_conn emp_global) = Some \<lparr>h_pool = Some 0, h_ctx = 0\<rparr>"
    "map_of (pools busy_state) ''scott/tiger@db'' = Some 0" "calls_of ends_transaction busy_state = []"
    by (simp_all add: busy_state_def default_settings_def init_mgr_def upt_rec calls_of_def emp_global_def)
  let ?l = "\<lparr>l_conn = Some 0, l_stmt = Some 9, l_cols = []\<rparr>"
  have twp: "twp (Sink duckdb_ref ?rt (w_oracle_types emp_target) two_rows ?l) (\<lambda>l' t. l_conn l' = l_conn ?l \<and>
      l_stmt l' = l_stmt ?l \<and> sink_ok duckdb_ref 2 l' \<and> delivered duckdb_ref ?rt two_rows l' busy_state t)
      (\<lambda>e _. sink_error ?rt e) busy_state"
    by (rule Sink_twp [OF two_rows_ok, where hid = 0]) (simp_all add: sink_ok_def emp_types two_rows_def)
  have "\<not> delivered duckdb_ref ?rt two_rows l busy_state t" for l
    by (simp add: delivered_def inserted_def Let_def)
  moreover have "Sink duckdb_ref ?rt (w_oracle_types emp_target) two_rows ?l busy_state = (r, t)"
    using run by (simp add: OracleWriteSink_def OracleWriteInitLocal_def emp_global_def)
  ultimately have "\<exists>e. r = Throw e" using twp by (cases r) (auto simp: twp_def wp_def)
  then show ?thesis
    using failed_copy_stays_pending [OF busy_state_inv facts(1,3) _ facts(4,2) run] run facts(5) by auto
qed

end
