(* ===== verification/Extension.thy ===== *)
theory Extension
  imports ValueParsers ScanBind
begin

text \<open>
  The scalar functions of the extension (\<open>OracleGetEnv\<close>, \<open>OracleEnvFunction\<close>, \<open>OracleExecuteFunction\<close>,
  \<open>OracleAttachWallet\<close>, \<open>OracleClearCache\<close> in \<open>oracle_extension.cpp\<close>). Those that look at the first row
  of their arguments only take the text of its values. The file system is the parameter \<open>is_dir\<close>.
\<close>

section \<open>The environment\<close>

definition OracleGetEnv :: "string \<Rightarrow> string \<Rightarrow> (('w, 'z) ocist_scheme, string) cpp" where
  "OracleGetEnv key default_value = gets (\<lambda>s. case environ s (until_nul key) of
     Some val \<Rightarrow> (if until_nul val \<noteq> [] then until_nul val else default_value)
   | None \<Rightarrow> default_value)"

text \<open>\<open>BinaryExecutor\<close> goes over the rows and gives null for null.\<close>

definition OracleEnvFunction :: "(string option \<times> string option) list \<Rightarrow> (('w, 'z) ocist_scheme, string option list) cpp" where
  "OracleEnvFunction args = map_each (\<lambda>row. case row of
       (Some key, Some def_str) \<Rightarrow> bind (OracleGetEnv key def_str) (\<lambda>s. return (Some s))
     | _ \<Rightarrow> return None) args"

definition OracleAttachWallet :: "(string \<Rightarrow> bool) \<Rightarrow> string \<Rightarrow> (('w, 'z) ocist_scheme, string) cpp" where
  "OracleAttachWallet is_dir path =
     (if \<not> is_dir (until_nul path) then
        throw (IOException (''Wallet path does not exist or is not a directory: '' @ path))
      else bind (modify (\<lambda>s. s\<lparr>environ := (environ s)(''TNS_ADMIN'' \<mapsto> until_nul path)\<rparr>)) (\<lambda>_.
        return (''Wallet attached: '' @ path)))"

section \<open>Caches\<close>

definition OracleClearCache :: "'w rt \<Rightarrow> (('w, 'z) cat_scheme, string) cpp" where
  "OracleClearCache rt =
     bind (ClearAllCaches rt) (\<lambda>_. bind (Instance rt) (\<lambda>_. bind (Clear rt) (\<lambda>_.
     return ''oracle caches cleared'')))"

section \<open>Executing a statement\<close>

text \<open>\<open>OCI_STMT_UPDATE\<close>, \<open>OCI_STMT_DELETE\<close>, \<open>OCI_STMT_INSERT\<close>, \<open>OCI_STMT_MERGE\<close>\<close>

definition dml_types :: "int list" where
  "dml_types = [2, 3, 4, 16]"

definition execute_message :: "'v duckdb \<Rightarrow> int \<Rightarrow> nat \<Rightarrow> string" where
  "execute_message D stmt_type row_count =
     (if 0 < row_count \<or> stmt_type \<in> set dml_types
      then Format D ''Statement executed successfully (%llu rows affected)'' [to_string row_count]
      else ''Statement executed successfully'')"

definition execute_body :: "'v duckdb \<Rightarrow> 'w rt \<Rightarrow> OracleContext \<Rightarrow> string \<Rightarrow> handle option \<Rightarrow> (('w, 'z) ocist_scheme, string) cpp" where
  "execute_body D rt c sql_statement stmt =
     bind (check_call rt (StmtPrepare stmt sql_statement) (errhp c) ''Failed to prepare OCI statement'') (\<lambda>_.
     bind (check_call rt (StmtExecute (svchp c) stmt 1 OCI_COMMIT_ON_SUCCESS) (errhp c) ''Failed to execute OCI statement'') (\<lambda>_.
     if stmt \<noteq> None then
       bind (checked rt (AttrGetStmt stmt ATTR_STMT_TYPE) (errhp c) ''Failed to get OCI statement type'') (\<lambda>ty.
       bind (checked rt (AttrGetStmt stmt ATTR_ROW_COUNT) (errhp c) ''Failed to get OCI row count'') (\<lambda>n.
       return (execute_message D (out_num ty) (unat (word_of_int (out_num n) :: 32 word)))))
     else return ''Statement executed successfully''))"

definition execute_session :: "'v duckdb \<Rightarrow> 'w rt \<Rightarrow> string \<Rightarrow> string \<Rightarrow> (('w, 'z) mgr_scheme, string) cpp" where
  "execute_session D rt cs sql_statement = with_session rt cs default_settings (\<lambda>c.
     with_statement rt c ''Failed to allocate OCI statement handle'' (execute_body D rt c sql_statement))"

text \<open>\<open>None\<close> is the null value.\<close>

definition OracleExecuteFunction ::
  "'v duckdb \<Rightarrow> 'w rt \<Rightarrow> string \<Rightarrow> string \<Rightarrow> (('w, 'z) cat_scheme, string option) cpp" where
  "OracleExecuteFunction D rt target sql_statement =
     (if target = [] then return None
      else bind (resolve_alias D target) (\<lambda>cs.
        bind (execute_session D rt cs sql_statement) (\<lambda>msg. return (Some msg))))"

section \<open>Lemmas\<close>

lemma execute_body_only_oci: "moves only_oci (execute_body D rt c sql h)"
  unfolding execute_body_def by (intro only_oci_intros only_oci.moves_if)

lemma execute_body_ends: "ends (execute_body D rt c sql h)"
  by (auto simp: execute_body_def)

lemma execute_session_ends: "ends (execute_session D rt cs sql)"
  unfolding execute_session_def by (intro with_session_ends with_statement_ends execute_body_ends)

lemma execute_session_ok:
  assumes "mgr_inv s" and "execute_session D rt cs sql s = (r, t)"
  shows "r \<noteq> Stuck \<and> mgr_inv t \<and> handles t = handles s"
proof -
  have ends: "r \<noteq> Stuck" using endsD [OF execute_session_ends] assms(2) by metis
  have "mgr_inv t \<and> handles t = handles s"
    by (rule with_session_ok [OF assms(1) _ assms(2) [unfolded execute_session_def] ends])
      (intro with_statement_only_oci execute_body_only_oci)
  with ends show ?thesis by simp
qed

lemma resolve_alias_run:
  "\<exists>cs t. resolve_alias D target s = (Ret cs, t) \<and> handles t = handles s \<and> (mgr_inv t \<longleftrightarrow> mgr_inv s)"
proof -
  have "mgr_inv (s\<lparr>aliases := al\<rparr>) \<longleftrightarrow> mgr_inv s" for al
    by (simp add: mgr_inv_def mgr_ok_def pools_ok_def pool_ok_def places_ok_def sessions_alive_def alive_def
        in_handles_def idle_in_def busy_with_def)
  then show ?thesis
    by (auto simp: resolve_alias_def LookupByAlias_def get_state_def bind_def split: option.split)
qed

section \<open>Properties\<close>

text \<open>C35: \<open>oracle_execute\<close> gives its session back: whatever the statement does, the call comes to an end, and the handles
  and the invariant of the manager are as before; with an empty connection string nothing happens at all.\<close>

theorem execute_gives_back_its_session:
  assumes "mgr_inv s" and "OracleExecuteFunction D rt target sql s = (r, t)"
  shows "r \<noteq> Stuck \<and> mgr_inv t \<and> handles t = handles s \<and> (target = [] \<longrightarrow> r = Ret None \<and> t = s)"
proof (cases "target = []")
  case True
  then show ?thesis using assms by (auto simp: OracleExecuteFunction_def)
next
  case False
  obtain cs u where found: "resolve_alias D target s = (Ret cs, u)" "handles u = handles s" "mgr_inv u"
    using resolve_alias_run [of D target s] assms(1) by auto
  obtain r1 v where run: "execute_session D rt cs sql u = (r1, v)" by fastforce
  note ok = execute_session_ok [OF found(3) run]
  have "OracleExecuteFunction D rt target sql s = bind (execute_session D rt cs sql) (\<lambda>msg. return (Some msg)) u"
    using False found(1) by (simp add: OracleExecuteFunction_def bind_Ret)
  then have "(r, t) = (case r1 of Ret msg \<Rightarrow> (Ret (Some msg), v) | Throw e \<Rightarrow> (Throw e, v) | Stuck \<Rightarrow> (Stuck, v))"
    using assms(2) by (simp add: bind_def run split: outcome.split)
  then show ?thesis using False found(2) ok by (cases r1) simp_all
qed

lemma one_state_inv: "mgr_inv one_state"
  by (auto simp: mgr_inv_def mgr_ok_def pools_ok_def pool_ok_def places_ok_def sessions_alive_def alive_def
      in_handles_def idle_in_def busy_with_def one_state_def one_state_at_def)

theorem execute_gives_back_its_session_witness:
  "\<exists>r t. OracleExecuteFunction duckdb_ref (say_rt ''X'') ''scott/tiger@db'' ''DROP TABLE T'' one_state = (r, t) \<and>
     r \<noteq> Stuck \<and> handles t = handles one_state"
proof -
  obtain r t where run: "OracleExecuteFunction duckdb_ref (say_rt ''X'') ''scott/tiger@db'' ''DROP TABLE T'' one_state = (r, t)"
    by fastforce
  show ?thesis using execute_gives_back_its_session [OF one_state_inv run] run by blast
qed

end
