(* ===== verification/Attachment.thy ===== *)
theory Attachment
  imports WriteSink Extension
begin

text \<open>
  A database that stays attached: \<open>db_step\<close> is one operation of DuckDB on the extension, on whatever state and
  with whatever outcome, from \<open>ATTACH\<close> over the catalog, the transactions, the table functions and the scalar
  functions to \<open>COPY\<close>. No sequence of such operations changes which state \<open>OracleStorageInfo\<close> holds, or the
  connection string of that state.
\<close>

section \<open>One operation\<close>

text \<open>The tables that DuckDB passes to a function, a scan or a \<open>COPY\<close> are arbitrary, and so is the bind data.\<close>

inductive db_step :: "'v duckdb \<Rightarrow> 'w rt \<Rightarrow> ('w, 'z) db_scheme \<Rightarrow> ('w, 'z) db_scheme \<Rightarrow> bool" for D rt where
  attach: "OracleAttach D rt sm name path options s = (r, t) \<Longrightarrow> db_step D rt s t"
| transaction_manager: "OracleCreateTransactionManager s = (r, t) \<Longrightarrow> db_step D rt s t"
| start: "StartTransaction mid s = (r, t) \<Longrightarrow> db_step D rt s t"
| commit: "CommitTransaction rt mid i s = (r, t) \<Longrightarrow> db_step D rt s t"
| rollback: "RollbackTransaction rt mid i s = (r, t) \<Longrightarrow> db_step D rt s t"
| schemas: "SchemaDefaultEntries rt sid s = (r, t) \<Longrightarrow> db_step D rt s t"
| schema: "CreateDefaultSchema D rt sid name s = (r, t) \<Longrightarrow> db_step D rt s t"
| tables: "TableDefaultEntries D rt sc s = (r, t) \<Longrightarrow> db_step D rt s t"
| table: "CreateDefaultTable D rt sc name s = (r, t) \<Longrightarrow> db_step D rt s t"
| scan_function: "GetScanFunction D rt setting e s = (r, t) \<Longrightarrow> db_step D rt s t"
| scan_bind: "OracleScanBind D rt setting cs schema table nms tys s = (r, t) \<Longrightarrow> db_step D rt s t"
| query_bind: "OracleQueryBind D rt setting cs query nms tys s = (r, t) \<Longrightarrow> db_step D rt s t"
| scan_init: "OracleInitGlobal D rt b column_ids projection_ids s = (r, t) \<Longrightarrow> db_step D rt s t"
| scan: "OracleQueryFunction D rt types st s = (r, t) \<Longrightarrow> db_step D rt s t"
| scan_end: "close_scan rt st s = (r, t) \<Longrightarrow> db_step D rt s t"
| environment: "OracleEnvFunction args s = (r, t) \<Longrightarrow> db_step D rt s t"
| wallet: "OracleAttachWallet is_dir path s = (r, t) \<Longrightarrow> db_step D rt s t"
| clear: "OracleClearCache rt s = (r, t) \<Longrightarrow> db_step D rt s t"
| execute: "OracleExecuteFunction D rt target sql s = (r, t) \<Longrightarrow> db_step D rt s t"
| copy_bind: "OracleWriteBind D rt opts file_path nms types s = (r, t) \<Longrightarrow> db_step D rt s t"
| copy_init: "OracleWriteInitGlobal D rt d s = (r, t) \<Longrightarrow> db_step D rt s t"
| copy_sink: "OracleWriteSink D rt d g l ch s = (r, t) \<Longrightarrow> db_step D rt s t"
| copy_finalize: "OracleWriteFinalize rt g s = (r, t) \<Longrightarrow> db_step D rt s t"
| copy_end: "close_write rt g s = (r, t) \<Longrightarrow> db_step D rt s t"

section \<open>What every operation keeps\<close>

definition kept :: "nat \<Rightarrow> ('w, 'z) db_scheme \<Rightarrow> ('w, 'z) db_scheme \<Rightarrow> bool" where
  "kept sid s t \<longleftrightarrow> (storage_state s = Some sid \<longrightarrow> storage_state t = Some sid \<and>
     connection_string (the_state sid t) = connection_string (the_state sid s))"

interpretation kept: state_preorder "kept sid" for sid
  by unfold_locales (auto simp: kept_def)

lemma same_more_kept:
  fixes m :: "(('w, 'z) db_scheme, 'a) cpp"
  shows "moves same_more m \<Longrightarrow> moves (kept sid) m"
  by (rule movesI) (auto simp: kept_def the_state_def same_more_cat same_more_db dest!: movesD)

lemma only_oci_kept:
  fixes m :: "(('w, 'z) db_scheme, 'a) cpp"
  shows "moves only_oci m \<Longrightarrow> moves (kept sid) m"
  by (rule same_more_kept) (rule only_oci_same_more)

lemma get_state_kept: "moves (kept sid) (get_state x)"
  unfolding get_state_def by (rule kept.moves_gets)

lemma upd_state_kept: "(\<And>st. connection_string (f st) = connection_string st) \<Longrightarrow> moves (kept sid) (upd_state x f)"
  unfolding upd_state_def by (rule kept.moves_modify) (auto simp: kept_def)

lemma modify_kept:
  "(\<And>s. storage_state (f s) = storage_state s) \<Longrightarrow> (\<And>s. states (f s) = states s) \<Longrightarrow> moves (kept sid) (modify f)"
  by (rule kept.moves_modify) (simp add: kept_def the_state_def)

lemma state_query_kept: "moves (kept sid) (state_query rt x q)"
  by (rule only_oci_kept) (rule state_query_only_oci)

lemmas kept_intros =
  kept.moves_bind kept.moves_gets kept.moves_return kept.moves_throw kept.moves_stuck kept.moves_liftE kept.moves_run_if
  kept.moves_if kept.moves_try_catch kept.moves_map_each kept.moves_case_option get_state_kept upd_state_kept
  state_query_kept

subsection \<open>The catalog\<close>

lemma reset_connection_kept: "moves (kept sid) (reset_connection rt x)"
  unfolding reset_connection_def by (intro kept_intros same_more_kept [OF drop_connection_same_more]) simp

lemma EnsureConnectionInternal_kept: "moves (kept sid) (EnsureConnectionInternal rt x)"
  unfolding EnsureConnectionInternal_def
  by (intro kept_intros reset_connection_kept same_more_kept [OF Connect_same_more]) simp

lemma StateQuery_kept: "moves (kept sid) (StateQuery rt x q)"
  unfolding StateQuery_def by (intro kept_intros EnsureConnectionInternal_kept)

lemma DetectCurrentSchema_kept: "moves (kept sid) (DetectCurrentSchema rt x)"
  unfolding DetectCurrentSchema_def note_schema_def by (intro kept_intros EnsureConnectionInternal_kept) simp_all

lemma DetectOracleVersion_kept: "moves (kept sid) (DetectOracleVersion D rt x)"
  unfolding DetectOracleVersion_def version_body_def by (intro kept_intros EnsureConnectionInternal_kept) simp_all

lemma GetVersionInfo_kept: "moves (kept sid) (GetVersionInfo D rt x)"
  unfolding GetVersionInfo_def by (intro kept_intros DetectOracleVersion_kept)

lemma listings_kept:
  "moves (kept sid) (ListSchemas rt x)" "moves (kept sid) (ListObjects D rt x schema object_types)"
  unfolding ListSchemas_def all_schemas_def ListObjects_def note_schema_def Let_def
  by (intro kept_intros EnsureConnectionInternal_kept DetectCurrentSchema_kept; simp)+

lemma lookups_kept:
  "moves (kept sid) (GetObjectName D rt x schema object_name object_types)"
  "moves (kept sid) (ResolveSynonym D rt x schema object_name)"
  "moves (kept sid) (GetRealSchemaName D rt x object_name)"
  unfolding GetObjectName_def ResolveSynonym_def GetRealSchemaName_def
  by (intro kept_intros EnsureConnectionInternal_kept)+

lemma CreateTableEntry_kept: "moves (kept sid) (CreateTableEntry D rt x schema table name)"
  unfolding CreateTableEntry_def LoadColumns_def
  by (intro kept_intros StateQuery_kept) (auto split: prod.split)

lemma clear_registry_kept: "moves (kept sid) (clear_registry rt xs)"
proof (induction xs)
  case (Cons x xs)
  have "moves (kept sid) (ClearCaches rt x)"
    unfolding ClearCaches_def by (intro kept_intros reset_connection_kept) (simp add: cleared_def)
  with Cons show ?case unfolding clear_registry.simps by (intro kept_intros)
next
  case Nil
  show ?case unfolding clear_registry.simps by (rule kept.moves_return)
qed

lemma catalog_kept:
  "moves (kept sid) (SchemaDefaultEntries rt x)" "moves (kept sid) (CreateDefaultSchema D rt x name)"
  "moves (kept sid) (TableDefaultEntries D rt sc)" "moves (kept sid) (CreateDefaultTable D rt sc name)"
  unfolding SchemaDefaultEntries_def CreateDefaultSchema_def TableDefaultEntries_def CreateDefaultTable_def Let_def
    current_or_detect_def GetCurrentSchema_def real_schema_def
  by (intro kept_intros listings_kept lookups_kept CreateTableEntry_kept DetectCurrentSchema_kept; clarsimp)+

subsection \<open>Attaching and transactions\<close>

lemma OracleAttach_kept: "moves (kept sid) (OracleAttach D rt sm name path options)"
  by (rule movesI) (auto simp: kept_def dest: attach_again)

lemma put_active_kept: "moves (kept sid) (put_active mid txs)"
  unfolding put_active_def by (rule modify_kept) simp_all

lemma GetConnection_kept: "moves (kept sid) (GetConnection rt mid i)"
  unfolding GetConnection_def by (intro kept_intros put_active_kept same_more_kept [OF Connect_same_more])

lemma transactions_kept:
  "moves (kept sid) OracleCreateTransactionManager" "moves (kept sid) (StartTransaction mid)"
  "moves (kept sid) (CommitTransaction rt mid i)" "moves (kept sid) (RollbackTransaction rt mid i)"
  unfolding OracleCreateTransactionManager_def new_manager_def StartTransaction_def CommitTransaction_def RollbackTransaction_def
  by (intro kept_intros modify_kept put_active_kept GetConnection_kept only_oci_kept [OF transaction_end_only_oci(1)]
      only_oci_kept [OF transaction_end_only_oci(2)]; simp)+

subsection \<open>Functions, scans and copies\<close>

lemma release_handle_stays: "kept sid s (snd (release_handle rt hid s))"
  by (rule movesD [OF same_more_kept [OF release_handle_same_more]]) (rule surjective_pairing)

lemma handle_ctx_kept: "moves (kept sid) (handle_ctx hid)"
  unfolding handle_ctx_def by (rule kept.moves_gets)

lemma free_stmt_kept: "moves (kept sid) (modify (free_stmt rt h))"
  by (rule only_oci_kept) (rule only_oci.moves_modify [OF free_stmt_only_oci])

lemma LookupByAlias_kept: "moves (kept sid) (LookupByAlias D cs)"
  unfolding LookupByAlias_def by (intro kept_intros modify_kept) simp_all

lemma resolve_alias_kept: "moves (kept sid) (resolve_alias D cs)"
  unfolding resolve_alias_def by (intro kept_intros LookupByAlias_kept)

lemma Clear_kept: "moves (kept sid) (Clear rt)"
  unfolding Clear_def
  by (rule same_more_kept) (intro same_more_intros drop_pool_ref_same_more; simp)

lemma execute_session_kept: "moves (kept sid) (execute_session D rt cs sql)"
  unfolding execute_session_def
  by (intro same_more_kept with_session_same_more only_oci_same_more with_statement_only_oci execute_body_only_oci)

lemma functions_kept:
  "moves (kept sid) (OracleEnvFunction args)" "moves (kept sid) (OracleAttachWallet is_dir path)"
  "moves (kept sid) (OracleClearCache rt)" "moves (kept sid) (OracleExecuteFunction D rt target sql)"
proof -
  show "moves (kept sid) (OracleEnvFunction args)"
    unfolding OracleEnvFunction_def OracleGetEnv_def
    by (intro kept.moves_map_each) (auto intro!: kept.moves_bind split: prod.split option.split)
  show "moves (kept sid) (OracleAttachWallet is_dir path)"
    unfolding OracleAttachWallet_def by (intro kept_intros modify_kept) simp_all
  show "moves (kept sid) (OracleClearCache rt)"
    unfolding OracleClearCache_def ClearAllCaches_def
    by (intro kept_intros modify_kept clear_registry_kept Clear_kept same_more_kept [OF env_only_same_more [OF Instance_moves]])
      simp_all
  show "moves (kept sid) (OracleExecuteFunction D rt target sql)"
    unfolding OracleExecuteFunction_def by (intro kept_intros resolve_alias_kept execute_session_kept)
qed

lemma binds_kept:
  "moves (kept sid) (GetScanFunction D rt setting e)" "moves (kept sid) (OracleScanBind D rt setting cs schema table nms tys)"
  "moves (kept sid) (OracleQueryBind D rt setting cs query nms tys)"
  unfolding GetScanFunction_def OracleScanBind_def OracleQueryBind_def
  by (intro kept_intros same_more_kept [OF OracleBindInternal_same_more] resolve_alias_kept GetVersionInfo_kept)+

lemma scans_kept:
  "moves (kept sid) (OracleInitGlobal D rt b column_ids projection_ids)"
  "moves (kept sid) (OracleQueryFunction D rt types st)" "moves (kept sid) (close_scan rt st)"
proof -
  show "moves (kept sid) (OracleInitGlobal D rt b column_ids projection_ids)"
    unfolding OracleInitGlobal_def scan_session_def
    by (intro kept_intros kept.moves_on_throw handle_ctx_kept only_oci_kept [OF scan_statement_only_oci]
        same_more_kept [OF Acquire_same_more]) (simp add: release_handle_stays kept.stay)
  show "moves (kept sid) (OracleQueryFunction D rt types st)"
    unfolding OracleQueryFunction_def check_call_def Let_def
    by (intro kept_intros handle_ctx_kept only_oci_kept [OF checked_moves(2)] only_oci_kept [OF call_moves(2)]
        only_oci_kept [OF CheckOCIError_moves(2)])
  show "moves (kept sid) (close_scan rt st)"
    unfolding close_scan_def by (intro kept_intros free_stmt_kept same_more_kept [OF release_handle_same_more])
qed

lemma copies_kept:
  "moves (kept sid) (OracleWriteBind D rt opts file_path nms types)" "moves (kept sid) (OracleWriteInitGlobal D rt d)"
  "moves (kept sid) (OracleWriteSink D rt d g l ch)" "moves (kept sid) (OracleWriteFinalize rt g)"
  "moves (kept sid) (close_write rt g)"
proof -
  have drop: "kept sid s (snd (drop_connection rt conn s))" for conn s
    by (rule movesD [OF same_more_kept [OF drop_connection_same_more]]) (rule surjective_pairing)
  show "moves (kept sid) (OracleWriteBind D rt opts file_path nms types)"
    unfolding OracleWriteBind_def introspect_def
    by (intro kept_intros kept.moves_scope_exit drop same_more_kept [OF Connect_same_more] only_oci_kept [OF Query_only_oci])
  show "moves (kept sid) (OracleWriteInitGlobal D rt d)"
    unfolding OracleWriteInitGlobal_def open_statement_def check_call_def
    by (intro kept_intros kept.moves_on_throw handle_ctx_kept only_oci_kept [OF checked_moves(2)]
        same_more_kept [OF Acquire_same_more] release_handle_stays)
  show "moves (kept sid) (OracleWriteSink D rt d g l ch)" by (rule only_oci_kept) (rule OracleWriteSink_only_oci)
  show "moves (kept sid) (OracleWriteFinalize rt g)"
    unfolding OracleWriteFinalize_def check_call_def
    by (intro kept_intros handle_ctx_kept only_oci_kept [OF checked_moves(2)])
  show "moves (kept sid) (close_write rt g)"
    unfolding close_write_def by (intro kept_intros free_stmt_kept same_more_kept [OF release_handle_same_more])
qed

lemmas operations_kept =
  OracleAttach_kept catalog_kept transactions_kept functions_kept binds_kept scans_kept copies_kept

lemma db_step_kept: "db_step D rt s t \<Longrightarrow> kept sid s t"
  by (cases rule: db_step.cases) (auto dest: operations_kept [THEN movesD])

lemma db_run_kept: "(db_step D rt)\<^sup>*\<^sup>* s t \<Longrightarrow> kept sid s t"
  by (induction rule: rtranclp_induct) (auto intro: kept.stay kept.go_on db_step_kept)

section \<open>Properties\<close>

text \<open>C7: The first \<open>ATTACH\<close> wins: whether it succeeds or fails, the connection string of its path or its secret stays
  with the extension; and however many databases are attached afterwards, and whatever is done with them, every later
  \<open>ATTACH\<close> that succeeds gives a read-only catalog on the first one's connection string, whatever its own path or
  secret says, and its name does not become an alias.\<close>

theorem attaches_use_the_first_connection:
  assumes "storage_state s = None" and "attach_string D sm1 path1 options1 s = (Ret cs, s1)"
    and "OracleAttach D rt sm1 name1 path1 options1 s = (r, t1)"
    and "(db_step D rt)\<^sup>*\<^sup>* t1 t"
    and "OracleAttach D rt sm name path options t = (Ret c, u)"
  shows "catalog_access c = READ_ONLY \<and> connection_string (the_state (catalog_state c) u) = cs \<and> aliases u = aliases t"
proof -
  have first: "storage_state t1 = Some (next_state s)" "connection_string (the_state (next_state s) t1) = cs"
    using attach_first [OF assms(1-3)] by simp_all
  have "kept (next_state s) t1 t" using assms(4) by (rule db_run_kept)
  then have "storage_state t = Some (next_state s)" "connection_string (the_state (next_state s) t) = cs"
    using first by (simp_all add: kept_def)
  then show ?thesis using attach_again [OF _ assms(5)] by simp
qed

lemma attach_connected:
  assumes "connected_state 0 t" and "storage_state t = Some 0" and "path \<noteq> []"
  shows "\<exists>u. OracleAttach duckdb_ref (say_rt ''HR'') no_secrets name path [] t =
      (Ret \<lparr>catalog_state = 0, catalog_access = READ_ONLY, catalog_path = '':memory:''\<rparr>, u) \<and> connected_state 0 u"
proof -
  let ?t = "t\<lparr>states := (states t)(0 \<mapsto> the_state 0 t)\<rparr>"
  have "connected_state 0 ?t" using assms(1) by (simp add: connected_state_def)
  then obtain u where "Initialize duckdb_ref (say_rt ''HR'') 0 ?t = (Ret (), u)" "connected_state 0 u"
    using Initialize_connected say_rt_answering by blast
  then show ?thesis
    using assms(2,3)
    by (simp add: OracleAttach_def attach_string_def attach_state_def bind_def apply_options_def ApplyOptions_def
        CreateOracleCatalog_def)
qed

text \<open>Three databases, and a transaction on the second one.\<close>

theorem attaches_use_the_first_connection_witness:
  "\<exists>r t1 c2 t2 mid t3 tx t4 c u.
     OracleAttach duckdb_ref (say_rt ''HR'') no_secrets ''a'' ''scott/tiger@db'' [] no_database = (r, t1) \<and>
     OracleAttach duckdb_ref (say_rt ''HR'') no_secrets ''b'' ''hr/hr@other'' [] t1 = (Ret c2, t2) \<and>
     OracleCreateTransactionManager t2 = (Ret mid, t3) \<and> StartTransaction 0 t3 = (Ret tx, t4) \<and>
     OracleAttach duckdb_ref (say_rt ''HR'') no_secrets ''c'' ''oe/oe@third'' [] t4 = (Ret c, u) \<and>
     connection_string (the_state (catalog_state c) u) = ''scott/tiger@db''"
proof -
  let ?rt = "say_rt ''HR''" and ?step = "db_step duckdb_ref (say_rt ''HR'')"
  obtain c1 t1 where t1: "OracleAttach duckdb_ref ?rt no_secrets ''a'' ''scott/tiger@db'' [] no_database = (Ret c1, t1)"
      "connected_state 0 t1" "storage_state t1 = Some 0"
    using attach_connects by blast
  obtain c2 t2 where t2: "OracleAttach duckdb_ref ?rt no_secrets ''b'' ''hr/hr@other'' [] t1 = (Ret c2, t2)" "connected_state 0 t2"
    using attach_connected [OF t1(2,3)] by blast
  have s2: "storage_state t2 = Some 0" using attach_again [OF t1(3) t2(1)] by simp
  obtain mid t3 where t3: "OracleCreateTransactionManager t2 = (Ret mid, t3)" "states t3 = states t2" "storage_state t3 = Some 0"
    using s2 by (simp add: OracleCreateTransactionManager_def new_manager_def bind_assoc)
  obtain tx t4 where t4: "StartTransaction 0 t3 = (Ret tx, t4)" "states t4 = states t3" "storage_state t4 = Some 0"
    using t3(3) by (simp add: StartTransaction_run)
  have "connected_state 0 t4" using t2(2) states_eq [of t4 t2 0] t3(2) t4(2) by simp
  then obtain c u where u: "OracleAttach duckdb_ref ?rt no_secrets ''c'' ''oe/oe@third'' [] t4 = (Ret c, u)"
    using attach_connected [OF _ t4(3)] by blast
  have run: "?step\<^sup>*\<^sup>* t1 t4"
    using db_step.attach [OF t2(1)] db_step.transaction_manager [OF t3(1)] db_step.start [OF t4(1)]
    by (meson rtranclp.rtrancl_into_rtrancl rtranclp.rtrancl_refl)
  have none: "storage_state no_database = None"
    "attach_string duckdb_ref no_secrets ''scott/tiger@db'' [] no_database = (Ret ''scott/tiger@db'', no_database)"
    by (simp_all add: no_database_def attach_string_def)
  show ?thesis
    using attaches_use_the_first_connection [OF none t1(1) run u] t1(1) t2(1) t3(1) t4(1) u by blast
qed

end
