(* ===== verification/Spec2Isabelle.thy ===== *)
theory Spec2Isabelle
  imports PoolThreads Attachment
begin

text \<open>
  A model of the DuckDB extension for Oracle (\<open>src/src\<close>) and what makes it correct.

  The program. DuckDB loads the extension, which talks to Oracle through the client library OCI. All
  sessions come from one connection manager, a singleton with a pool of sessions for each connection string
  (\<open>oracle_connection_manager.cpp\<close>). An attached database is an \<open>OracleCatalogState\<close>
  (\<open>oracle_catalog.cpp\<close>) with a connection of its own (\<open>oracle_connection.cpp\<close>), from which the
  catalog, its schemas (\<open>oracle_schema_entry.cpp\<close>), tables (\<open>oracle_table_entry.cpp\<close>) and
  transactions (\<open>oracle_transaction.cpp\<close>, \<open>oracle_transaction_manager.cpp\<close>) are served;
  \<open>oracle_storage_extension.cpp\<close> makes it from the path, the options and the secret
  (\<open>oracle_secret.cpp\<close>) of an \<open>ATTACH\<close>. Tables and queries are read by a table function that binds,
  takes over filters and projections, and fetches arrays (\<open>oracle_extension.cpp\<close>); \<open>COPY ... TO\<close>
  writes through \<open>oracle_write.cpp\<close>.

  How it is modelled. A C++ function that changes state or throws is a function from a state to an outcome
  (returned, thrown, or \<open>Stuck\<close>) and the state after it (\<open>Prelude\<close>). The state is one
  record, extended from layer to layer: the client library, the server behind it and the trace of calls (\<open>OciApi\<close>);
  the manager with its pools, sessions and handles (\<open>ConnectionContext\<close>); the catalog states and
  registries (\<open>CatalogState\<close>); transactions and attached databases (\<open>Transaction\<close>,
  \<open>Storage\<close>). Shared pointers are numbers into stores, and destructors are written where they run. The answers of OCI are a
  function of the call and the state of the server, and the functions of DuckDB are the fields of a record (\<open>DuckdbApi\<close>);
  what a theorem needs of them is a named hypothesis that states their documented behaviour, and the
  theorem after it, its instance at a concrete input, shows that such a library exists.

  The theories, in the order in which they build on each other:

  \<^item> \<open>Prelude\<close>, \<open>OciApi\<close>, \<open>DuckdbApi\<close>: the vocabulary. The locale \<open>state_preorder\<close> gives, for
    every reflexive and transitive relation on states, the rules by which a whole operation keeps it; it is
    interpreted for what each layer leaves alone, for the calls of a kind, for growing traces.
  \<^item> \<open>Settings\<close>: \<open>OracleSettings\<close>, \<open>ApplyOptions\<close>, \<open>GetOracleSettings\<close>: bounds of
    the settings, independence of the order of a hash map, which source of a setting wins.
  \<^item> \<open>Secret\<close>: secrets and connection strings: what the parser accepts, and the round trip through it.
  \<^item> \<open>ConnectionContext\<close>, \<open>ConnectionPool\<close>, \<open>ManagerInvariant\<close>: sessions, pools, and the
    invariant of the manager; accounting of OCI handles, when \<open>Acquire\<close> succeeds, times out, and reuses. The locale
    \<open>slot_pool\<close> is the contract of the operations on a pool.
  \<^item> \<open>PoolThreads\<close>: the interleaving of threads on one pool as a step relation, with its invariants, and
    what a lost notification does to every continuation.
  \<^item> \<open>Connection\<close>: connections and metadata queries: complete results, no statement leaked.
  \<^item> \<open>CatalogState\<close>, \<open>TableEntry\<close>, \<open>SchemaEntry\<close>, \<open>Transaction\<close>, \<open>Storage\<close>: the catalog:
    cached listings (locale \<open>memo\<close>), the version as Oracle writes it, columns and their types, the texts that a scan
    selects for the rows of the dictionary, lookup of tables against a \<open>dictionary\<close>, transactions, \<open>ATTACH\<close>.
  \<^item> \<open>ScanBind\<close>, \<open>Pushdown\<close>, \<open>ValueParsers\<close>, \<open>Scan\<close>: the table functions:
    the columns that a server describes (\<open>describes\<close>) are those of the bind data; the meaning of DuckDB's filters,
    on columns by position, against that of Oracle's clauses, on columns by name and operators as they are written, each
    database with its own order and its own null values; every row fetched once, sizes and identity of the buffers.
  \<^item> \<open>WriteBind\<close>, \<open>WriteSink\<close>: \<open>COPY ... TO\<close>: the target against the dictionary,
    the buffers in bounds and delivered, what a failed copy leaves behind.
  \<^item> \<open>Extension\<close>: the scalar functions \<open>oracle_env\<close>, \<open>oracle_execute\<close>,
    \<open>oracle_attach_wallet\<close>, \<open>oracle_clear_cache\<close>.
  \<^item> \<open>Attachment\<close>: all operations that DuckDB runs on the extension as one step relation, and what every
    sequence of them leaves of the first \<open>ATTACH\<close>.

  Bounds and fuel. A result is fetched row by row until the server says that there is no more, so
  \<open>fetch_rows\<close> has fuel, and the theorems ask for more fuel than the answer has rows, which suffices.
  \<open>run_scan\<close> stands for DuckDB's loop over the calls of a scan; \<open>n div 2048 + 2\<close> calls are enough for
  \<open>n\<close> rows. \<open>wakeups\<close> is how often a thread that waits in \<open>Acquire\<close> is woken before its deadline; every number is
  covered. \<open>Stuck\<close> also stands for what C++ leaves undefined, a write out of bounds or a
  read through a dangling bind, and the theorems on the sink show that it does not come to that. Machine integers keep their width:
  \<open>idx_t\<close> is a 64-bit word, \<open>ub4\<close> a 32-bit word, \<open>ub2\<close> a 16-bit word, \<open>uint8_t\<close> an 8-bit word.

  Not modelled. Debug output. Floating point (\<open>std::stod\<close>, \<open>std::stof\<close>), which is a parameter. Time, but for
  timeouts as events. Locks other than that of a pool: the catalog's operations run one after the other. The
  registration of functions and the entry points of the extension, which pass constants to DuckDB.
  \<open>GetStatistics\<close>, \<open>GetStorageInfo\<close>, \<open>Checkpoint\<close>, \<open>Flush\<close> and the getters of the catalog, which
  return constants or do nothing. The destruction of the manager at the end of the process. The submodules \<open>duckdb\<close> and
  \<open>extension-ci-tools\<close> are empty directories in the repository.
\<close>

end
